(* ===== verification/Go_Prelude.thy ===== *)
theory Go_Prelude
  imports Complex_Main "HOL-Library.Word" "HOL-Library.Char_ord" "HOL-Library.List_Lexorder"
    "HOL-Library.Multiset"
begin

text \<open>
  What the components share: the collections the component proofs are driven by, the part of
  the Go language and its standard library the sources use (byte strings and
  \<^verbatim>\<open>strings.TrimSpace\<close>, instants of \<^verbatim>\<open>time.Time\<close>, the graph of wrapped and joined
  errors with \<^verbatim>\<open>errors.Is\<close>, base-ten and base-64 text), and a locale for the invariants
  of step relations.

  A Go string is the list of its bytes, so that \<^verbatim>\<open>len\<close> is \<^const>\<open>length\<close> and the
  byte-wise comparison of \<^verbatim>\<open>strings.Compare\<close> is the lexicographic order on lists.
  The text that \<^verbatim>\<open>fmt.Errorf\<close> puts around a wrapped error is not kept: an error is the
  node of the graph that \<^verbatim>\<open>errors.Is\<close> and \<^verbatim>\<open>errors.As\<close> walk.
\<close>

named_theorems validate_defs \<open>definitions of the validation predicates\<close>
named_theorems result_simps \<open>rules for results that are an error or a value\<close>

section \<open>Results\<close>

type_synonym bytes = string
type_synonym duration = int

text \<open>
  A call of code the program does not control (a handler, a callback, an observer) either
  returns or panics with an arbitrary value.
\<close>

datatype 'a outcome = Returns 'a | Panics string

definition result_ok :: "'e + 'a \<Rightarrow> bool" where
  "result_ok r \<longleftrightarrow> (case r of Inl _ \<Rightarrow> False | Inr _ \<Rightarrow> True)"

lemma result_ok_simps [simp, result_simps]:
  "result_ok (Inl e) \<longleftrightarrow> False" "result_ok (Inr v) \<longleftrightarrow> True"
  by (simp_all add: result_ok_def)

section \<open>Strings\<close>

text \<open>
  The UTF-8 encodings of the runes \<^verbatim>\<open>unicode.IsSpace\<close> accepts: six ASCII bytes, U+0085,
  U+00A0, U+1680, U+2000 to U+200A, U+2028, U+2029, U+202F, U+205F and U+3000.
\<close>

definition space_runes :: "nat list list" where
  "space_runes =
     [[9], [10], [11], [12], [13], [32],
      [194, 133], [194, 160],
      [225, 154, 128],
      [226, 128, 128], [226, 128, 129], [226, 128, 130], [226, 128, 131], [226, 128, 132],
      [226, 128, 133], [226, 128, 134], [226, 128, 135], [226, 128, 136], [226, 128, 137],
      [226, 128, 138], [226, 128, 168], [226, 128, 169], [226, 128, 175], [226, 129, 159],
      [227, 128, 128]]"

definition space_prefix :: "nat list list \<Rightarrow> string \<Rightarrow> nat" where
  "space_prefix runes s =
     (case find (\<lambda>r. take (length r) (map of_char s) = r) runes of
        None \<Rightarrow> 0 | Some r \<Rightarrow> length r)"

lemma space_prefix_le: "space_prefix runes s \<le> length s"
proof (cases "find (\<lambda>r. take (length r) (map of_char s) = r) runes")
  case None
  then show ?thesis by (simp add: space_prefix_def)
next
  case (Some r)
  then have "take (length r) (map of_char s) = r"
    by (auto simp: find_Some_iff)
  then have "length (take (length r) (map of_char s :: nat list)) = length r"
    by simp
  then show ?thesis using Some by (simp add: space_prefix_def)
qed

text \<open>Drops encoded space runes off the front until none is left.\<close>

function trim_front :: "nat list list \<Rightarrow> string \<Rightarrow> string" where
  "trim_front runes s =
     (if space_prefix runes s = 0 then s else trim_front runes (drop (space_prefix runes s) s))"
  by pat_completeness auto
termination
proof (relation "measure (\<lambda>(runes, s). length s)")
  fix runes s
  assume "space_prefix runes s \<noteq> 0"
  moreover have "space_prefix runes s \<le> length s" by (rule space_prefix_le)
  ultimately show "((runes, drop (space_prefix runes s) s), (runes, s))
      \<in> measure (\<lambda>(runes, s). length s)"
    by simp
qed simp

declare trim_front.simps [simp del]

text \<open>
  \<^verbatim>\<open>strings.TrimSpace\<close>: the encodings off the front, then off the end. No encoding is the
  end of another rune's, so reading the text backwards against the reversed encodings finds
  the same runes \<^verbatim>\<open>utf8.DecodeLastRune\<close> does.
\<close>

definition TrimSpace :: "string \<Rightarrow> string" where
  "TrimSpace s = rev (trim_front (map rev space_runes) (rev (trim_front space_runes s)))"

lemma trim_front_Nil [simp]: "trim_front runes [] = []"
  by (subst trim_front.simps) (use space_prefix_le [of runes "[]"] in simp)

lemma TrimSpace_Nil [simp]: "TrimSpace [] = []"
  by (simp add: TrimSpace_def)

lemma length_trim_front: "length (trim_front runes s) \<le> length s"
proof (induction runes s rule: trim_front.induct)
  case (1 runes s)
  then show ?case
    by (subst trim_front.simps) (auto intro: le_trans)
qed

lemma length_TrimSpace: "length (TrimSpace s) \<le> length s"
  unfolding TrimSpace_def
  by (metis length_rev length_trim_front le_trans)

text \<open>A byte of a visible ASCII character is in no space rune, so trimming keeps it.\<close>

definition visible :: "char \<Rightarrow> bool" where
  "visible c \<longleftrightarrow> 33 \<le> (of_char c :: nat) \<and> (of_char c :: nat) \<le> 126"

definition blank_runes :: "nat list list \<Rightarrow> bool" where
  "blank_runes runes \<longleftrightarrow> (\<forall>r \<in> set runes. \<forall>b \<in> set r. b < 33 \<or> 126 < b)"

lemma space_prefix_visible:
  assumes "blank_runes runes" and "c \<in> set s" and "visible c"
  shows "c \<in> set (drop (space_prefix runes s) s)"
proof (cases "find (\<lambda>r. take (length r) (map of_char s) = r) runes")
  case None
  then show ?thesis using assms by (simp add: space_prefix_def)
next
  case (Some r)
  then have r: "r \<in> set runes" "map of_char (take (length r) s) = r"
    by (auto simp: find_Some_iff take_map)
  have "c \<notin> set (take (length r) s)"
  proof
    assume "c \<in> set (take (length r) s)"
    then have "of_char c \<in> set r" using r(2) by (metis image_eqI list.set_map)
    with assms(1) r(1) have "of_char c < (33 :: nat) \<or> 126 < (of_char c :: nat)"
      unfolding blank_runes_def by blast
    then show False using assms(3) by (simp add: visible_def)
  qed
  moreover have "set s = set (take (length r) s) \<union> set (drop (length r) s)"
    by (metis append_take_drop_id set_append)
  ultimately show ?thesis using Some assms(2) by (simp add: space_prefix_def)
qed

lemma trim_front_visible: "blank_runes runes \<Longrightarrow> c \<in> set s \<Longrightarrow> visible c \<Longrightarrow> c \<in> set (trim_front runes s)"
proof (induction runes s rule: trim_front.induct)
  case (1 runes s)
  then show ?case
    using space_prefix_visible [of runes c s] by (subst trim_front.simps) simp
qed

lemma blank_space_runes: "blank_runes space_runes" "blank_runes (map rev space_runes)"
  by (simp_all add: blank_runes_def space_runes_def)

lemma TrimSpace_visible: "c \<in> set s \<Longrightarrow> visible c \<Longrightarrow> TrimSpace s \<noteq> []"
  using trim_front_visible [OF blank_space_runes(1), of c s]
    trim_front_visible [OF blank_space_runes(2), of c "rev (trim_front space_runes s)"]
  by (auto simp: TrimSpace_def)

lemma TrimSpace_visible_hd [simp]: "visible c \<Longrightarrow> TrimSpace (c # s) \<noteq> []"
  by (rule TrimSpace_visible [of c]) simp_all

lemma visible_Char [simp]:
  "visible (Char b0 b1 b2 b3 b4 b5 b6 b7) \<longleftrightarrow>
     (let n = horner_sum of_bool 2 [b0, b1, b2, b3, b4, b5, b6, b7] :: nat in 33 \<le> n \<and> n \<le> 126)"
  by (simp add: visible_def of_char_def)

text \<open>Trimming again changes nothing.\<close>

lemma space_prefix_trimmed [simp]: "space_prefix runes (trim_front runes s) = 0"
proof (induction runes s rule: trim_front.induct)
  case (1 runes s)
  then show ?case by (subst trim_front.simps) simp
qed

lemma trim_front_suffix: "\<exists>p. s = p @ trim_front runes s"
proof (induction runes s rule: trim_front.induct)
  case (1 runes s)
  show ?case
  proof (cases "space_prefix runes s = 0")
    case True
    then show ?thesis by (subst trim_front.simps) simp
  next
    case False
    let ?d = "drop (space_prefix runes s) s"
    obtain p where "?d = p @ trim_front runes ?d"
      using 1 False by blast
    moreover have "trim_front runes s = trim_front runes ?d"
      using False by (subst trim_front.simps) simp
    ultimately have "s = (take (space_prefix runes s) s @ p) @ trim_front runes s"
      by (metis append.assoc append_take_drop_id)
    then show ?thesis by blast
  qed
qed

lemma space_prefix_0:
  "[] \<notin> set runes \<Longrightarrow> space_prefix runes s = 0 \<longleftrightarrow> (\<forall>r \<in> set runes. take (length r) (map of_char s) \<noteq> r)"
  by (auto simp: space_prefix_def find_None_iff find_Some_iff split: option.split) (metis nth_mem)+

lemma space_prefix_append:
  assumes "[] \<notin> set runes" and "space_prefix runes (s @ t) = 0"
  shows "space_prefix runes s = 0"
proof -
  have "take (length r) (map of_char s) \<noteq> r" if "r \<in> set runes" for r :: "nat list"
  proof
    assume r: "take (length r) (map of_char s) = r"
    then have "length r \<le> length s" by (metis length_map length_take min.cobounded1)
    with r have "take (length r) (map of_char (s @ t)) = r" by simp
    with assms that show False by (simp add: space_prefix_0)
  qed
  with assms(1) show ?thesis by (simp add: space_prefix_0)
qed

lemma TrimSpace_idem [simp]: "TrimSpace (TrimSpace s) = TrimSpace s"
proof -
  let ?t = "trim_front space_runes s" and ?other_way = "map rev space_runes"
  obtain p where "rev ?t = p @ trim_front ?other_way (rev ?t)"
    using trim_front_suffix by blast
  then have "?t = TrimSpace s @ rev p"
    by (metis TrimSpace_def rev_append rev_rev_ident)
  moreover have "[] \<notin> set space_runes" by (simp add: space_runes_def)
  ultimately have "space_prefix space_runes (TrimSpace s) = 0"
    using space_prefix_append [of space_runes "TrimSpace s" "rev p"] by (metis space_prefix_trimmed)
  then have "trim_front space_runes (TrimSpace s) = TrimSpace s"
    by (subst trim_front.simps) simp
  moreover have "trim_front ?other_way (rev (TrimSpace s)) = rev (TrimSpace s)"
    by (subst trim_front.simps) (simp add: TrimSpace_def)
  ultimately show ?thesis by (subst TrimSpace_def) simp
qed

text \<open>\<^verbatim>\<open>strings.ContainsAny\<close> on ASCII characters.\<close>

definition ContainsAny :: "string \<Rightarrow> string \<Rightarrow> bool" where
  "ContainsAny s chars \<longleftrightarrow> (\<exists>c \<in> set s. c \<in> set chars)"

section \<open>Instants\<close>

text \<open>
  A \<^verbatim>\<open>time.Time\<close> is an instant, in nanoseconds after the zero time, and the representation
  (location and monotonic reading) that \<^verbatim>\<open>==\<close> on structs sees and the ordering methods
  ignore.
\<close>

datatype go_time = GoTime (nanos: int) (time_rep: nat)

definition zero_time :: go_time where
  "zero_time = GoTime 0 0"

definition IsZero :: "go_time \<Rightarrow> bool" where
  "IsZero t \<longleftrightarrow> nanos t = 0"

definition After :: "go_time \<Rightarrow> go_time \<Rightarrow> bool" where
  "After t u \<longleftrightarrow> nanos t > nanos u"

definition Before :: "go_time \<Rightarrow> go_time \<Rightarrow> bool" where
  "Before t u \<longleftrightarrow> nanos t < nanos u"

definition UTC :: "go_time \<Rightarrow> go_time" where
  "UTC t = GoTime (nanos t) 0"

lemma IsZero_zero_time [simp]: "IsZero zero_time"
  by (simp add: IsZero_def zero_time_def)

lemma nanos_UTC [simp]: "nanos (UTC t) = nanos t"
  by (simp add: UTC_def)

lemma IsZero_UTC [simp]: "IsZero (UTC t) = IsZero t"
  by (simp add: IsZero_def)

section \<open>Floating-point numbers\<close>

text \<open>A float64 is a rational or one of the three special values.\<close>

datatype float64 = NaN | PosInf | NegInf | Finite rat

text \<open>The Go operator \<^verbatim>\<open>!=\<close> on floats: NaN differs from everything, itself included.\<close>

fun float_neq :: "float64 \<Rightarrow> float64 \<Rightarrow> bool" where
  "float_neq (Finite x) (Finite y) \<longleftrightarrow> x \<noteq> y"
| "float_neq PosInf PosInf \<longleftrightarrow> False"
| "float_neq NegInf NegInf \<longleftrightarrow> False"
| "float_neq _ _ \<longleftrightarrow> True"

text \<open>The Go operator \<^verbatim>\<open><\<close> against a finite constant.\<close>

fun float_less :: "float64 \<Rightarrow> rat \<Rightarrow> bool" where
  "float_less (Finite x) q \<longleftrightarrow> x < q"
| "float_less NegInf q \<longleftrightarrow> True"
| "float_less _ q \<longleftrightarrow> False"

definition float_special :: "float64 \<Rightarrow> bool" where
  "float_special f \<longleftrightarrow> f = NaN \<or> (f = PosInf \<or> f = NegInf)"

section \<open>Step relations and their invariants\<close>

inductive reachable_from :: "('s \<Rightarrow> bool) \<Rightarrow> ('s \<Rightarrow> 's \<Rightarrow> bool) \<Rightarrow> 's \<Rightarrow> bool"
  for start :: "'s \<Rightarrow> bool" and step :: "'s \<Rightarrow> 's \<Rightarrow> bool" where
  reach_start: "start s \<Longrightarrow> reachable_from start step s"
| reach_step: "reachable_from start step s \<Longrightarrow> step s t \<Longrightarrow> reachable_from start step t"

text \<open>
  A step system promises that its invariant holds at the start and that every step keeps it;
  the client gets it in every reachable state, and along every further run.
\<close>

locale step_system =
  fixes start :: "'s \<Rightarrow> bool"
    and step :: "'s \<Rightarrow> 's \<Rightarrow> bool"
    and invar :: "'s \<Rightarrow> bool"
  assumes invar_start: "start s \<Longrightarrow> invar s"
    and invar_step: "invar s \<Longrightarrow> step s t \<Longrightarrow> invar t"
begin

lemma invar_reachable: "reachable_from start step s \<Longrightarrow> invar s"
  by (induction rule: reachable_from.induct) (auto intro: invar_start invar_step)

lemma invar_steps: "step\<^sup>*\<^sup>* s t \<Longrightarrow> invar s \<Longrightarrow> invar t"
  by (induction rule: rtranclp_induct) (auto intro: invar_step)

lemma stable_along:
  assumes "\<And>a b. invar a \<Longrightarrow> P a \<Longrightarrow> step a b \<Longrightarrow> P b"
    and "step\<^sup>*\<^sup>* s t" and "invar s" and "P s"
  shows "P t"
  using assms(2-4)
proof (induction rule: rtranclp_induct)
  case base
  then show ?case by simp
next
  case (step a b)
  then show ?case using assms(1) invar_steps by blast
qed

end

lemma reachable_from_steps:
  "step\<^sup>*\<^sup>* s t \<Longrightarrow> reachable_from start step s \<Longrightarrow> reachable_from start step t"
  by (induction rule: rtranclp_induct) (auto intro: reachable_from.reach_step)

end
