(* ===== verification/Go_Errors.thy ===== *)
theory Go_Errors
  imports Go_Prelude
begin

text \<open>
  The graph of error values: leaves (\<^verbatim>\<open>errors.New\<close> and the context errors), nodes with
  \<^verbatim>\<open>Unwrap() error\<close> (\<^verbatim>\<open>fmt.Errorf\<close> with \<^verbatim>\<open>%w\<close>, \<^verbatim>\<open>safeerr.Wrap\<close>), nodes with
  \<^verbatim>\<open>Unwrap() []error\<close> (\<^verbatim>\<open>errors.Join\<close>, \<^verbatim>\<open>RequestError\<close>, \<^verbatim>\<open>ConfigurationError\<close>),
  the classified \<^verbatim>\<open>*Failure\<close> of src/management/classification.go and the
  \<^verbatim>\<open>*ValidationError\<close> of src/management/status.go. The nil error is \<^const>\<open>None\<close>.
  Pointers inside the graph are the non-nil ones.
\<close>

text \<open>The failure disposition; a string outside the five constants is \<open>OtherClassification\<close>.\<close>

datatype classification =
    ClassificationRetryable
  | ClassificationPermanent
  | ClassificationMalformed
  | ClassificationCanceled
  | ClassificationInfrastructure
  | OtherClassification string

text \<open>
  A leaf has an identity and the other sentinels its own \<^verbatim>\<open>Is\<close> method answers to (a
  network timeout is a leaf that answers to \<^verbatim>\<open>context.DeadlineExceeded\<close>).
\<close>

datatype go_err =
    Leaf string "string list"
  | ValidationErr string string
  | Wrapped "go_err option"
  | Joined "go_err option list"
  | FailureErr classification string "go_err option"

type_synonym error = "go_err option"

abbreviation sentinel :: "string \<Rightarrow> go_err" where
  "sentinel name \<equiv> Leaf name []"

abbreviation DeadlineExceeded :: go_err where
  "DeadlineExceeded \<equiv> sentinel ''context.DeadlineExceeded''"

abbreviation Canceled :: go_err where
  "Canceled \<equiv> sentinel ''context.Canceled''"

text \<open>\<^verbatim>\<open>errors.Is\<close> against a sentinel, by name.\<close>

fun errors_Is :: "go_err \<Rightarrow> string \<Rightarrow> bool" where
  "errors_Is (Leaf name also) target \<longleftrightarrow> name = target \<or> target \<in> set also"
| "errors_Is (ValidationErr _ _) target \<longleftrightarrow> False"
| "errors_Is (Wrapped cause) target \<longleftrightarrow>
     (case cause of None \<Rightarrow> False | Some e \<Rightarrow> errors_Is e target)"
| "errors_Is (Joined causes) target \<longleftrightarrow>
     (\<exists>c \<in> set causes. case c of None \<Rightarrow> False | Some e \<Rightarrow> errors_Is e target)"
| "errors_Is (FailureErr _ _ cause) target \<longleftrightarrow>
     (case cause of None \<Rightarrow> False | Some e \<Rightarrow> errors_Is e target)"

definition error_Is :: "error \<Rightarrow> string \<Rightarrow> bool" where
  "error_Is err target = (case err of None \<Rightarrow> False | Some e \<Rightarrow> errors_Is e target)"

text \<open>\<^verbatim>\<open>errors.Join\<close>: nil operands are dropped, and joining nothing gives nil.\<close>

definition errors_Join :: "error list \<Rightarrow> error" where
  "errors_Join errs =
     (let kept = filter (\<lambda>e. e \<noteq> None) errs in if kept = [] then None else Some (Joined kept))"

text \<open>\<^verbatim>\<open>safeerr.Wrap\<close>: the cause is kept for \<^verbatim>\<open>errors.Is\<close>, even a nil one gives an error.\<close>

definition safeerr_Wrap :: "error \<Rightarrow> go_err" where
  "safeerr_Wrap cause = Wrapped cause"

lemma error_Is_simps [simp]:
  "error_Is None t \<longleftrightarrow> False" "error_Is (Some e) t \<longleftrightarrow> errors_Is e t"
  by (simp_all add: error_Is_def)

lemma error_Is_Join [simp]:
  "error_Is (errors_Join errs) t \<longleftrightarrow> (\<exists>e \<in> set errs. error_Is e t)"
  by (force simp: errors_Join_def Let_def error_Is_def filter_empty_conv split: option.splits)

lemma errors_Join_None [simp]: "errors_Join errs = None \<longleftrightarrow> set errs \<subseteq> {None}"
  by (auto simp: errors_Join_def Let_def filter_empty_conv)

lemma error_Is_safeerr [simp]: "errors_Is (safeerr_Wrap cause) t = error_Is cause t"
  by (simp add: safeerr_Wrap_def error_Is_def)

text \<open>
  How many entries a walk of the graph meets: a node, and for each of its children the walk of
  that child, a nil child being an entry too.
\<close>

fun node_count :: "go_err \<Rightarrow> nat" where
  "node_count (Leaf _ _) = 1"
| "node_count (ValidationErr _ _) = 1"
| "node_count (Wrapped cause) = 1 + (case cause of None \<Rightarrow> 1 | Some e \<Rightarrow> node_count e)"
| "node_count (Joined causes) =
     1 + sum_list (map (\<lambda>c. case c of None \<Rightarrow> 1 | Some e \<Rightarrow> node_count e) causes)"
| "node_count (FailureErr _ _ cause) = 1 + (case cause of None \<Rightarrow> 1 | Some e \<Rightarrow> node_count e)"

definition entry_count :: "error \<Rightarrow> nat" where
  "entry_count c = (case c of None \<Rightarrow> 1 | Some e \<Rightarrow> node_count e)"

lemma entry_count_simps [simp]: "entry_count None = 1" "entry_count (Some e) = node_count e"
  by (simp_all add: entry_count_def)

lemma map_entry_count:
  "map (\<lambda>c. case c of None \<Rightarrow> Suc 0 | Some e \<Rightarrow> node_count e) cs = map entry_count cs"
  by (auto simp: entry_count_def split: option.split)

lemma node_count_children:
  "node_count (Wrapped cause) = 1 + entry_count cause"
  "node_count (Joined causes) = 1 + sum_list (map entry_count causes)"
  "node_count (FailureErr c code cause) = 1 + entry_count cause"
  by (simp_all add: map_entry_count split: option.split)

declare node_count.simps(3-5) [simp del] node_count_children [simp]

text \<open>The nodes of the graph.\<close>

fun error_nodes :: "go_err \<Rightarrow> go_err set" where
  "error_nodes (Leaf name also) = {Leaf name also}"
| "error_nodes (ValidationErr field problem) = {ValidationErr field problem}"
| "error_nodes (Wrapped cause) =
     insert (Wrapped cause) (case cause of None \<Rightarrow> {} | Some e \<Rightarrow> error_nodes e)"
| "error_nodes (Joined causes) =
     insert (Joined causes)
       (\<Union>c \<in> set causes. case c of None \<Rightarrow> {} | Some e \<Rightarrow> error_nodes e)"
| "error_nodes (FailureErr c code cause) =
     insert (FailureErr c code cause) (case cause of None \<Rightarrow> {} | Some e \<Rightarrow> error_nodes e)"

definition entry_nodes :: "error \<Rightarrow> go_err set" where
  "entry_nodes c = (case c of None \<Rightarrow> {} | Some e \<Rightarrow> error_nodes e)"

lemma entry_nodes_simps [simp]: "entry_nodes None = {}" "entry_nodes (Some e) = error_nodes e"
  by (simp_all add: entry_nodes_def)

lemma error_nodes_children:
  "error_nodes (Wrapped cause) = insert (Wrapped cause) (entry_nodes cause)"
  "error_nodes (Joined causes) = insert (Joined causes) (\<Union>c \<in> set causes. entry_nodes c)"
  "error_nodes (FailureErr c code cause) = insert (FailureErr c code cause) (entry_nodes cause)"
  by (simp_all add: entry_nodes_def)

declare error_nodes.simps(3-5) [simp del] error_nodes_children [simp]

end
