(* ===== verification/Go_Text.thy ===== *)
theory Go_Text
  imports Go_Prelude
begin

text \<open>
  The text conversions of the standard library the sources use: \<^verbatim>\<open>strconv.Itoa\<close>,
  \<^verbatim>\<open>strconv.Atoi\<close> and \<^verbatim>\<open>base64.RawURLEncoding\<close>, with their round trips. The decoder
  skips carriage returns and line feeds and ignores left-over bits, as the library does.
\<close>

section \<open>Decimal numbers\<close>

definition digit_char :: "nat \<Rightarrow> char" where
  "digit_char d = char_of (48 + d)"

definition char_digit :: "char \<Rightarrow> nat option" where
  "char_digit c = (let n = of_char c :: nat in if 48 \<le> n \<and> n \<le> 57 then Some (n - 48) else None)"

fun Itoa_nat :: "nat \<Rightarrow> string" where
  "Itoa_nat n = (if n < 10 then [digit_char n] else Itoa_nat (n div 10) @ [digit_char (n mod 10)])"

declare Itoa_nat.simps [simp del]

definition Itoa :: "int \<Rightarrow> string" where
  "Itoa i = (if i < 0 then CHR ''-'' # Itoa_nat (nat (- i)) else Itoa_nat (nat i))"

fun digits_value :: "nat \<Rightarrow> string \<Rightarrow> nat option" where
  "digits_value acc [] = Some acc"
| "digits_value acc (c # cs) =
     (case char_digit c of None \<Rightarrow> None | Some d \<Rightarrow> digits_value (acc * 10 + d) cs)"

text \<open>\<^verbatim>\<open>strconv.Atoi\<close>; None stands for a syntax or range error.\<close>

definition Atoi :: "string \<Rightarrow> int option" where
  "Atoi s =
     (let neg = (case s of c # _ \<Rightarrow> c = CHR ''-'' | [] \<Rightarrow> False);
          rest = (case s of c # cs \<Rightarrow> if c = CHR ''-'' \<or> c = CHR ''+'' then cs else s | [] \<Rightarrow> s)
      in if rest = [] then None
         else case digits_value 0 rest of None \<Rightarrow> None
           | Some n \<Rightarrow> let v = (if neg then - int n else int n)
                       in if - (2 ^ 63) \<le> v \<and> v < 2 ^ 63 then Some v else None)"

lemma char_digit_digit [simp]: "d < 10 \<Longrightarrow> char_digit (digit_char d) = Some d"
  by (simp add: char_digit_def digit_char_def Let_def)

lemma digits_value_append:
  "digits_value acc (xs @ ys) = (case digits_value acc xs of None \<Rightarrow> None | Some a \<Rightarrow> digits_value a ys)"
  by (induction xs arbitrary: acc) (auto split: option.split)

lemma digits_value_Itoa: "digits_value 0 (Itoa_nat n) = Some n"
proof (induction n rule: Itoa_nat.induct)
  case (1 n)
  then show ?case
    by (subst Itoa_nat.simps) (simp add: digits_value_append)
qed

lemma Itoa_nat_Nil [simp]: "Itoa_nat n \<noteq> []"
  by (subst Itoa_nat.simps) simp

lemma hd_Itoa_nat: "\<exists>d cs. d < 10 \<and> Itoa_nat n = digit_char d # cs"
proof (induction n rule: Itoa_nat.induct)
  case (1 n)
  show ?case
  proof (cases "n < 10")
    case True
    then show ?thesis by (subst Itoa_nat.simps) auto
  next
    case False
    with 1 obtain d cs where "d < 10" "Itoa_nat (n div 10) = digit_char d # cs" by auto
    with False show ?thesis by (subst Itoa_nat.simps) auto
  qed
qed

lemma digit_char_sign: "d < 10 \<Longrightarrow> digit_char d \<noteq> CHR ''-'' \<and> digit_char d \<noteq> CHR ''+''"
proof -
  assume "d < 10"
  then have "of_char (digit_char d) = 48 + d"
    by (simp add: digit_char_def)
  moreover have "of_char (CHR ''-'') = (45 :: nat)" "of_char (CHR ''+'') = (43 :: nat)"
    by code_simp+
  ultimately show ?thesis by auto
qed

lemma Atoi_Itoa:
  assumes "int n < 2 ^ 63"
  shows "Atoi (Itoa (int n)) = Some (int n)"
proof -
  obtain d cs where d: "d < 10" "Itoa_nat n = digit_char d # cs"
    using hd_Itoa_nat by blast
  then show ?thesis
    using digits_value_Itoa [of n] digit_char_sign [OF d(1)] assms by (simp add: Atoi_def Itoa_def Let_def)
qed

section \<open>Base 64\<close>

definition url_alphabet :: string where
  "url_alphabet = ''ABCDEFGHIJKLMNOPQRSTUVWXYZabcdefghijklmnopqrstuvwxyz0123456789-_''"

fun index_of :: "char \<Rightarrow> string \<Rightarrow> nat option" where
  "index_of c [] = None"
| "index_of c (x # xs) = (if x = c then Some 0 else map_option Suc (index_of c xs))"

definition sextet_char :: "nat \<Rightarrow> char" where
  "sextet_char n = url_alphabet ! n"

definition char_sextet :: "char \<Rightarrow> nat option" where
  "char_sextet c = index_of c url_alphabet"

fun encode_bytes :: "nat list \<Rightarrow> nat list" where
  "encode_bytes (a # b # c # rest) =
     (a div 4) # (a mod 4 * 16 + b div 16) # (b mod 16 * 4 + c div 64) # (c mod 64) # encode_bytes rest"
| "encode_bytes [a, b] = [a div 4, a mod 4 * 16 + b div 16, b mod 16 * 4]"
| "encode_bytes [a] = [a div 4, a mod 4 * 16]"
| "encode_bytes [] = []"

fun decode_sextets :: "nat list \<Rightarrow> nat list option" where
  "decode_sextets (w # x # y # z # rest) =
     map_option (\<lambda>bs. (w * 4 + x div 16) # (x mod 16 * 16 + y div 4) # (y mod 4 * 64 + z) # bs)
       (decode_sextets rest)"
| "decode_sextets [w, x, y] = Some [w * 4 + x div 16, x mod 16 * 16 + y div 4]"
| "decode_sextets [w, x] = Some [w * 4 + x div 16]"
| "decode_sextets [w] = None"
| "decode_sextets [] = Some []"

definition RawURL_EncodeToString :: "bytes \<Rightarrow> string" where
  "RawURL_EncodeToString src = map sextet_char (encode_bytes (map of_char src))"

definition RawURL_DecodeString :: "string \<Rightarrow> bytes option" where
  "RawURL_DecodeString s =
     (let kept = filter (\<lambda>c. c \<noteq> CHR 0x0A \<and> c \<noteq> CHR 0x0D) s
      in case those (map char_sextet kept) of None \<Rightarrow> None
         | Some ns \<Rightarrow> map_option (map char_of) (decode_sextets ns))"

lemma encode_bytes_bound: "\<forall>b \<in> set bs. b < 256 \<Longrightarrow> \<forall>n \<in> set (encode_bytes bs). n < 64"
  by (induction bs rule: encode_bytes.induct) auto

lemma div_mod_small:
  fixes m x y :: nat
  assumes "y < m"
  shows "(x * m + y) div m = x" "(x * m + y) mod m = y"
  using assms by simp_all

lemma sextet_arith:
  fixes a b c :: nat
  assumes "b < 256" "c < 256"
  shows "a div 4 * 4 + (a mod 4 * 16 + b div 16) div 16 = a"
    and "(a mod 4 * 16 + b div 16) mod 16 * 16 + (b mod 16 * 4 + c div 64) div 4 = b"
    and "(b mod 16 * 4 + c div 64) mod 4 * 64 + c mod 64 = c"
proof -
  have "b div 16 < 16" "c div 64 < 4"
    using assms by simp_all
  then show "a div 4 * 4 + (a mod 4 * 16 + b div 16) div 16 = a"
    "(a mod 4 * 16 + b div 16) mod 16 * 16 + (b mod 16 * 4 + c div 64) div 4 = b"
    "(b mod 16 * 4 + c div 64) mod 4 * 64 + c mod 64 = c"
    using div_mod_small [of "b div 16" 16] div_mod_small [of "c div 64" 4] by simp_all
qed

lemma decode_encode_bytes: "\<forall>b \<in> set bs. b < 256 \<Longrightarrow> decode_sextets (encode_bytes bs) = Some bs"
proof (induction bs rule: encode_bytes.induct)
  case (1 a b c rest)
  then show ?case using sextet_arith(1,2) [of b c a] sextet_arith(3) [of b c] by simp
next
  case (2 a b)
  then show ?case using sextet_arith(1,2) [of b 0 a] by simp
next
  case (3 a)
  then show ?case using sextet_arith(1) [of 0 0 a] by simp
qed simp

lemma sextet_chars:
  assumes "n < 64"
  shows "char_sextet (sextet_char n) = Some n" "sextet_char n \<noteq> CHR 0x0A" "sextet_char n \<noteq> CHR 0x0D"
proof -
  have "list_all (\<lambda>n. char_sextet (sextet_char n) = Some n \<and> sextet_char n \<noteq> CHR 0x0A \<and>
      sextet_char n \<noteq> CHR 0x0D) [0..<64]"
    by code_simp
  then have "\<forall>n \<in> {0..<64}. char_sextet (sextet_char n) = Some n \<and> sextet_char n \<noteq> CHR 0x0A \<and>
      sextet_char n \<noteq> CHR 0x0D"
    by (simp only: list_all_iff set_upt)
  then show "char_sextet (sextet_char n) = Some n" "sextet_char n \<noteq> CHR 0x0A" "sextet_char n \<noteq> CHR 0x0D"
    using assms by simp_all
qed

lemma those_map_Some: "(\<And>x. x \<in> set xs \<Longrightarrow> f x = Some (g x)) \<Longrightarrow> those (map f xs) = Some (map g xs)"
  by (induction xs) simp_all

lemma RawURL_roundtrip: "RawURL_DecodeString (RawURL_EncodeToString src) = Some src"
proof -
  let ?ns = "encode_bytes (map of_char src) :: nat list"
  have bytes: "\<forall>b \<in> set (map of_char src :: nat list). b < 256"
    by auto
  note bound = encode_bytes_bound [OF bytes]
  have kept: "filter (\<lambda>c. c \<noteq> CHR 0x0A \<and> c \<noteq> CHR 0x0D) (map sextet_char ?ns) = map sextet_char ?ns"
    using bound sextet_chars(2,3) by (auto simp: filter_id_conv)
  have "those (map char_sextet (map sextet_char ?ns)) = Some ?ns"
    using bound sextet_chars(1) those_map_Some [of ?ns "char_sextet \<circ> sextet_char" "\<lambda>n. n"] by simp
  then show ?thesis
    unfolding RawURL_DecodeString_def RawURL_EncodeToString_def kept Let_def
    by (simp add: decode_encode_bytes [OF bytes] comp_def)
qed

lemma RawURL_EncodeToString_Nil [simp]: "RawURL_EncodeToString src = [] \<longleftrightarrow> src = []"
  by (cases "map of_char src :: nat list" rule: encode_bytes.cases)
    (auto simp: RawURL_EncodeToString_def)

lemma length_encode_bytes: "length (encode_bytes bs) \<le> 2 * length bs"
  by (induction bs rule: encode_bytes.induct) auto

lemma length_RawURL_EncodeToString: "length (RawURL_EncodeToString src) \<le> 2 * length src"
  using length_encode_bytes [of "map of_char src"] by (simp add: RawURL_EncodeToString_def)

lemma length_Itoa_nat: "n < 10 ^ k \<Longrightarrow> 0 < k \<Longrightarrow> length (Itoa_nat n) \<le> k"
proof (induction k arbitrary: n)
  case (Suc k)
  show ?case
  proof (cases "n < 10")
    case True
    then show ?thesis by (subst Itoa_nat.simps) simp
  next
    case False
    have "n div 10 < 10 ^ k" using Suc.prems(1) by (simp add: div_less_iff_less_mult mult.commute)
    moreover from this False have "0 < k" by (cases k) auto
    ultimately have "length (Itoa_nat (n div 10)) \<le> k" using Suc.IH by simp
    with False show ?thesis by (subst Itoa_nat.simps) simp
  qed
qed simp

end
