(* ===== verification/Classification.thy ===== *)
theory Classification
  imports Go_Errors
begin

text \<open>
  The failure classification of src/management/classification.go: \<^verbatim>\<open>Failure\<close> and its
  validation, the rank of a classification, and \<^verbatim>\<open>ResolveFailure\<close>, the walk over at most 64
  entries of a wrapped and joined error graph. The lemmas show that on a graph of at most 64
  entries the walk computes the precedence the documentation states, whatever the order in
  which it meets the entries.
\<close>

section \<open>Model\<close>

definition MaxIdentityBytes :: nat where
  "MaxIdentityBytes = 256"

definition invalidIdentity :: "string \<Rightarrow> bool" where
  "invalidIdentity value \<longleftrightarrow> TrimSpace value = '''' \<or> length value > MaxIdentityBytes"

record FailureResolution =
  res_classification :: classification
  res_code :: string

fun classification_valid :: "classification \<Rightarrow> bool" where
  "classification_valid ClassificationRetryable = True"
| "classification_valid ClassificationPermanent = True"
| "classification_valid ClassificationMalformed = True"
| "classification_valid ClassificationCanceled = True"
| "classification_valid ClassificationInfrastructure = True"
| "classification_valid (OtherClassification _) = False"

fun classificationRank :: "classification \<Rightarrow> nat" where
  "classificationRank ClassificationInfrastructure = 5"
| "classificationRank ClassificationCanceled = 4"
| "classificationRank ClassificationMalformed = 3"
| "classificationRank ClassificationPermanent = 2"
| "classificationRank ClassificationRetryable = 1"
| "classificationRank (OtherClassification _) = 0"

definition NewFailure :: "classification \<Rightarrow> string \<Rightarrow> error \<Rightarrow> go_err" where
  "NewFailure classification code cause = FailureErr classification code cause"

definition Failure_Validate :: "classification \<Rightarrow> string \<Rightarrow> error" where
  "Failure_Validate classification code =
     (if \<not> classification_valid classification
      then Some (ValidationErr ''classification'' ''is unsupported'')
      else if invalidIdentity code
      then Some (ValidationErr ''code'' ''is required and must be bounded'')
      else None)"

abbreviation resolution :: "classification \<Rightarrow> string \<Rightarrow> FailureResolution" where
  "resolution c code \<equiv> \<lparr>res_classification = c, res_code = code\<rparr>"

text \<open>What one entry of the walk offers, the type switch of the loop body.\<close>

fun candidate :: "go_err \<Rightarrow> FailureResolution" where
  "candidate (FailureErr c code _) =
     (if Failure_Validate c code = None then resolution c code
      else resolution ClassificationRetryable '''')"
| "candidate (Joined _) = resolution ClassificationRetryable ''''"
| "candidate (Wrapped _) = resolution ClassificationRetryable ''''"
| "candidate (Leaf name also) =
     (if errors_Is (Leaf name also) ''context.DeadlineExceeded''
      then resolution ClassificationCanceled ''deadline_exceeded''
      else if errors_Is (Leaf name also) ''context.Canceled''
      then resolution ClassificationCanceled ''context_canceled''
      else resolution ClassificationRetryable '''')"
| "candidate (ValidationErr _ _) = resolution ClassificationRetryable ''''"

text \<open>The entries a visited node pushes, in the order they are appended to the stack.\<close>

fun unwrap_entries :: "go_err \<Rightarrow> error list" where
  "unwrap_entries (FailureErr _ _ cause) = [cause]"
| "unwrap_entries (Joined causes) = causes"
| "unwrap_entries (Wrapped cause) = [cause]"
| "unwrap_entries (Leaf _ _) = []"
| "unwrap_entries (ValidationErr _ _) = []"

definition replaces :: "FailureResolution \<Rightarrow> FailureResolution \<Rightarrow> bool" where
  "replaces cand res \<longleftrightarrow>
     (let candidateRank = classificationRank (res_classification cand);
          resolutionRank = classificationRank (res_classification res)
      in candidateRank > resolutionRank \<or>
         (candidateRank = resolutionRank \<and> res_code cand \<noteq> '''' \<and>
            (res_code res = '''' \<or> res_code cand < res_code res)))"

definition improve :: "FailureResolution \<Rightarrow> FailureResolution \<Rightarrow> FailureResolution" where
  "improve res cand = (if replaces cand res then cand else res)"

text \<open>
  The loop: the first argument counts the visits left, the stack is kept with its top first,
  so that a push of \<open>es\<close> by appending them in order puts the last of them on top.
\<close>

fun resolve_loop :: "nat \<Rightarrow> error list \<Rightarrow> FailureResolution \<Rightarrow> FailureResolution" where
  "resolve_loop 0 stack res = res"
| "resolve_loop (Suc visits) [] res = res"
| "resolve_loop (Suc visits) (None # stack) res = resolve_loop visits stack res"
| "resolve_loop (Suc visits) (Some current # stack) res =
     resolve_loop visits (rev (unwrap_entries current) @ stack) (improve res (candidate current))"

definition ResolveFailure :: "error \<Rightarrow> FailureResolution" where
  "ResolveFailure err = resolve_loop 64 [err] (resolution ClassificationRetryable '''')"

definition ClassifyFailure :: "error \<Rightarrow> classification" where
  "ClassifyFailure err = res_classification (ResolveFailure err)"

section \<open>Every resolution is a valid disposition\<close>

lemma Failure_Validate_None:
  "Failure_Validate c code = None \<longleftrightarrow> classification_valid c \<and> \<not> invalidIdentity code"
  by (simp add: Failure_Validate_def)

definition safe_resolution :: "FailureResolution \<Rightarrow> bool" where
  "safe_resolution r \<longleftrightarrow>
     classification_valid (res_classification r) \<and>
     (res_code r = '''' \<or> \<not> invalidIdentity (res_code r))"

lemma context_codes_valid:
  "\<not> invalidIdentity ''deadline_exceeded''" "\<not> invalidIdentity ''context_canceled''"
  by code_simp+

lemma safe_candidate: "safe_resolution (candidate e)"
  by (cases e) (auto simp: safe_resolution_def Failure_Validate_None context_codes_valid)

lemma safe_resolve_loop: "safe_resolution res \<Longrightarrow> safe_resolution (resolve_loop n stack res)"
  by (induction n stack res rule: resolve_loop.induct) (auto simp: improve_def safe_candidate)

lemma safe_ResolveFailure: "safe_resolution (ResolveFailure err)"
  unfolding ResolveFailure_def by (rule safe_resolve_loop) (simp add: safe_resolution_def)

section \<open>The walk computes the best candidate\<close>

lemma rank_inject:
  "classification_valid c \<Longrightarrow> classification_valid d \<Longrightarrow>
    classificationRank c = classificationRank d \<longleftrightarrow> c = d"
  by (cases c; cases d) auto

lemma replaces_irrefl: "\<not> replaces r r"
  by (simp add: replaces_def Let_def)

lemma replaces_trans: "replaces a b \<Longrightarrow> replaces b c \<Longrightarrow> replaces a c"
  by (auto simp: replaces_def Let_def)

lemma replaces_negtrans: "\<not> replaces a b \<Longrightarrow> \<not> replaces b c \<Longrightarrow> \<not> replaces a c"
  by (auto simp: replaces_def Let_def)

lemma replaces_total:
  assumes "safe_resolution a" and "safe_resolution b"
    and "\<not> replaces a b" and "\<not> replaces b a"
  shows "a = b"
proof -
  have "classificationRank (res_classification a) = classificationRank (res_classification b)"
    using assms(3,4) by (auto simp: replaces_def Let_def)
  moreover from this have "res_code a = res_code b"
    using assms(3,4) by (auto simp: replaces_def Let_def)
  ultimately show ?thesis
    using assms(1,2) by (auto simp: safe_resolution_def rank_inject)
qed

definition best_of :: "FailureResolution set \<Rightarrow> FailureResolution \<Rightarrow> bool" where
  "best_of S r \<longleftrightarrow> r \<in> S \<and> (\<forall>c \<in> S. \<not> replaces c r)"

lemma best_of_unique:
  "best_of S r \<Longrightarrow> best_of S r' \<Longrightarrow> \<forall>c \<in> S. safe_resolution c \<Longrightarrow> r = r'"
  by (auto simp: best_of_def intro: replaces_total)

lemma best_of_improve:
  assumes "best_of (insert (improve res c) S) r"
  shows "best_of (insert res (insert c S)) r"
proof (cases "replaces c res")
  case True
  then have "r \<in> insert c S" and max: "\<forall>d \<in> insert c S. \<not> replaces d r"
    using assms by (auto simp: best_of_def improve_def)
  moreover have "\<not> replaces res r"
    using True max replaces_trans by blast
  ultimately show ?thesis by (auto simp: best_of_def)
next
  case False
  then have "r \<in> insert res S" and max: "\<forall>d \<in> insert res S. \<not> replaces d r"
    using assms by (auto simp: best_of_def improve_def)
  moreover have "\<not> replaces c r"
    using False max replaces_negtrans by blast
  ultimately show ?thesis by (auto simp: best_of_def)
qed

definition stack_nodes :: "error list \<Rightarrow> go_err set" where
  "stack_nodes stack = (\<Union>c \<in> set stack. entry_nodes c)"

lemma stack_nodes_simps [simp]:
  "stack_nodes [] = {}" "stack_nodes (c # cs) = entry_nodes c \<union> stack_nodes cs"
  "stack_nodes (cs @ ds) = stack_nodes cs \<union> stack_nodes ds"
  "stack_nodes (rev cs) = stack_nodes cs"
  by (auto simp: stack_nodes_def)

lemma error_nodes_unwrap: "error_nodes e = insert e (stack_nodes (unwrap_entries e))"
  by (cases e) (auto simp: stack_nodes_def)

lemma node_count_unwrap:
  "node_count e = 1 + sum_list (map entry_count (unwrap_entries e))"
  by (cases e) auto

lemma resolve_loop_best:
  "sum_list (map entry_count stack) \<le> n \<Longrightarrow>
    best_of (insert res (candidate ` stack_nodes stack)) (resolve_loop n stack res)"
proof (induction n stack res rule: resolve_loop.induct)
  case (1 stack res)
  have nonzero: "entry_count c \<noteq> 0" for c
    by (cases c) (auto simp: node_count_unwrap)
  with 1 have "stack = []"
    by (cases stack) (auto simp: nonzero)
  then show ?case by (simp add: best_of_def replaces_irrefl)
next
  case (2 visits res)
  then show ?case by (simp add: best_of_def replaces_irrefl)
next
  case (3 visits stack res)
  then show ?case by simp
next
  case (4 visits current stack res)
  have "best_of (insert (improve res (candidate current))
      (candidate ` stack_nodes (rev (unwrap_entries current) @ stack)))
      (resolve_loop (Suc visits) (Some current # stack) res)"
    using 4 by (simp add: node_count_unwrap rev_map [symmetric])
  then have "best_of (insert res (insert (candidate current)
      (candidate ` stack_nodes (rev (unwrap_entries current) @ stack))))
      (resolve_loop (Suc visits) (Some current # stack) res)"
    by (rule best_of_improve)
  then show ?case
    by (simp add: error_nodes_unwrap [of current] image_Un)
qed

lemma ResolveFailure_best:
  "entry_count err \<le> 64 \<Longrightarrow>
    best_of (insert (resolution ClassificationRetryable '''') (candidate ` entry_nodes err))
      (ResolveFailure err)"
  using resolve_loop_best [of "[err]" 64] by (simp add: ResolveFailure_def)

text \<open>The documented precedence of dispositions, from the strongest down.\<close>

definition precedence :: "classification list" where
  "precedence = [ClassificationInfrastructure, ClassificationCanceled, ClassificationMalformed,
     ClassificationPermanent, ClassificationRetryable]"

lemma precedence_rank:
  assumes "c \<in> S" and "\<forall>d \<in> S. classificationRank d \<le> classificationRank c" and "c \<in> set precedence"
  shows "find (\<lambda>d. d \<in> S) precedence = Some c"
  using assms by (cases c) (auto simp: precedence_def dest: bspec)

text \<open>
  C33: on a graph of at most 64 entries the resolved classification is the first, in the order
  infrastructure, canceled, malformed, permanent, retryable, that a node of the graph carries,
  and retryable if none does. A code offered with the resolved classification is never lost, and
  the resolved one is the lexically least of them; the resolution is the neutral one or one that
  a node offers.
\<close>

theorem ResolveFailure_precedence:
  assumes "entry_count err \<le> 64"
  shows "find (\<lambda>c. c \<in> insert ClassificationRetryable (res_classification ` candidate ` entry_nodes err)) precedence =
           Some (ClassifyFailure err) \<and>
         (\<forall>e \<in> entry_nodes err.
            res_classification (candidate e) = ClassifyFailure err \<and> res_code (candidate e) \<noteq> '''' \<longrightarrow>
              res_code (ResolveFailure err) \<noteq> '''' \<and>
              res_code (ResolveFailure err) \<le> res_code (candidate e)) \<and>
         (ResolveFailure err = resolution ClassificationRetryable '''' \<or>
          ResolveFailure err \<in> candidate ` entry_nodes err)"
proof -
  let ?S = "insert (resolution ClassificationRetryable '''') (candidate ` entry_nodes err)"
  have best: "best_of ?S (ResolveFailure err)"
    using assms by (rule ResolveFailure_best)
  then have keep: "\<not> replaces (candidate e) (ResolveFailure err)" if "e \<in> entry_nodes err" for e
    using that by (simp add: best_of_def)
  have rank: "\<forall>d \<in> res_classification ` ?S. classificationRank d \<le> classificationRank (ClassifyFailure err)"
    using best by (fastforce simp: best_of_def replaces_def Let_def ClassifyFailure_def)
  have mem: "ClassifyFailure err \<in> res_classification ` ?S"
    using best by (auto simp: best_of_def ClassifyFailure_def)
  have "classification_valid (ClassifyFailure err)"
    using mem safe_candidate by (auto simp: safe_resolution_def)
  then have "ClassifyFailure err \<in> set precedence"
    by (cases "ClassifyFailure err") (auto simp: precedence_def)
  from precedence_rank [OF mem rank this] show ?thesis
    using best keep by (fastforce simp: best_of_def replaces_def Let_def ClassifyFailure_def)
qed

theorem ResolveFailure_precedence_witness:
  "entry_count (Some (Joined [Some (sentinel ''boom''),
       Some (FailureErr ClassificationPermanent ''bad_row'' None)])) \<le> 64 \<and>
   ClassifyFailure (Some (Joined [Some (sentinel ''boom''),
       Some (FailureErr ClassificationPermanent ''bad_row'' None)])) = ClassificationPermanent \<and>
   (\<exists>e \<in> entry_nodes (Some (Joined [Some (sentinel ''boom''),
       Some (FailureErr ClassificationPermanent ''bad_row'' None)])).
      ResolveFailure (Some (Joined [Some (sentinel ''boom''),
       Some (FailureErr ClassificationPermanent ''bad_row'' None)])) = candidate e)"
proof -
  let ?err = "Some (Joined [Some (sentinel ''boom''),
       Some (FailureErr ClassificationPermanent ''bad_row'' None)])"
  have small: "entry_count ?err \<le> 64" by simp
  have res: "ResolveFailure ?err = resolution ClassificationPermanent ''bad_row''"
    by code_simp
  show ?thesis
    using ResolveFailure_precedence [OF small] small res by (auto simp: ClassifyFailure_def)
qed

text \<open>
  The resolution of joined causes does not depend on the order in which they were joined.
\<close>

theorem ResolveFailure_order_independent:
  assumes "mset causes = mset causes'" and "node_count (Joined causes) \<le> 64"
  shows "ResolveFailure (Some (Joined causes)) = ResolveFailure (Some (Joined causes'))"
proof -
  let ?S = "\<lambda>cs. insert (resolution ClassificationRetryable '''') (candidate ` entry_nodes (Some (Joined cs)))"
  have same: "?S causes = ?S causes'"
    using mset_eq_setD [OF assms(1)] by simp
  have "sum_list (map entry_count causes) = sum_list (map entry_count causes')"
    using assms(1) by (metis mset_map sum_mset_sum_list)
  then have "best_of (?S causes') (ResolveFailure (Some (Joined causes')))"
    using assms(2) by (intro ResolveFailure_best) simp
  moreover have "best_of (?S causes) (ResolveFailure (Some (Joined causes)))"
    using assms(2) by (intro ResolveFailure_best) simp
  moreover have "\<forall>c \<in> ?S causes. safe_resolution c"
    by (auto simp: safe_candidate) (simp_all add: safe_resolution_def)
  ultimately show ?thesis
    using best_of_unique same by metis
qed

theorem ResolveFailure_order_independent_witness:
  "ResolveFailure (Some (Joined [Some Canceled, None, Some (sentinel ''boom'')])) =
   ResolveFailure (Some (Joined [Some (sentinel ''boom''), Some Canceled, None]))"
  by (rule ResolveFailure_order_independent) simp_all

end
