(* ===== verification/Ring.thy ===== *)
theory Ring
  imports Go_Errors
begin

text \<open>
  The in-memory worker of src/ring.go: a growing and shrinking ring buffer behind a mutex,
  with an atomic stop flag and an exit signal. The operations are written over the code's own
  fields (\<^verbatim>\<open>head\<close>, \<^verbatim>\<open>tail\<close>, \<^verbatim>\<open>count\<close> and the backing slice) and return \<^const>\<open>None\<close>
  where the Go run time would panic (a slice bound or an index out of range, a division by
  zero). They are shown never to panic and to refine a bounded FIFO list, through the locale of
  FIFO workers; the interleavings of concurrent calls are the step relation of the last part.
\<close>

section \<open>Errors of the worker\<close>

definition ErrQueueShutdown :: go_err where
  "ErrQueueShutdown = sentinel ''queue has been closed and released''"

definition ErrNoTaskInQueue :: go_err where
  "ErrNoTaskInQueue = sentinel ''golang-queue: no task in queue''"

definition ErrQueueHasBeenClosed :: go_err where
  "ErrQueueHasBeenClosed = sentinel ''golang-queue: queue has been closed''"

definition ErrMaxCapacity :: go_err where
  "ErrMaxCapacity = sentinel ''golang-queue: maximum size limit reached''"

section \<open>The ring buffer\<close>

record 't Ring =
  taskQueue :: "'t option list"
  runFunc :: "'t \<Rightarrow> error outcome"
  capacity :: int
  count :: nat
  head :: nat
  tail :: nat
  exitClosed :: bool
  stopFlag :: bool

definition go_copy :: "'a list \<Rightarrow> 'a list \<Rightarrow> 'a list" where
  "go_copy dst src = take (length dst) src @ drop (length src) dst"

definition resize :: "nat \<Rightarrow> 't Ring \<Rightarrow> 't Ring option" where
  "resize n q =
     (let nodes = replicate n None;
          len = length (taskQueue q);
          copied =
            (if head q < tail q then
               (if tail q \<le> len
                then Some (go_copy nodes (drop (head q) (take (tail q) (taskQueue q))))
                else None)
             else if head q \<le> len \<and> len - head q \<le> n \<and> tail q \<le> len then
               (let nodes1 = go_copy nodes (drop (head q) (taskQueue q))
                in Some (take (len - head q) nodes1 @
                         go_copy (drop (len - head q) nodes1) (take (tail q) (taskQueue q))))
             else None)
      in case copied of None \<Rightarrow> None
         | Some nodes' \<Rightarrow>
             if n = 0 then None
             else Some (q\<lparr>tail := count q mod n, head := 0, taskQueue := nodes'\<rparr>))"

definition signalExit :: "'t Ring \<Rightarrow> 't Ring" where
  "signalExit s = s\<lparr>exitClosed := True\<rparr>"

text \<open>The body of \<^verbatim>\<open>Queue\<close> after the stop flag was read as clear.\<close>

definition ring_append :: "'t \<Rightarrow> 't Ring \<Rightarrow> (error \<times> 't Ring) option" where
  "ring_append task s =
     (if capacity s > 0 \<and> int (count s) \<ge> capacity s then Some (Some ErrMaxCapacity, s)
      else
        (case (if count s = length (taskQueue s) then resize (count s * 2) s else Some s) of
           None \<Rightarrow> None
         | Some s1 \<Rightarrow>
             if tail s1 < length (taskQueue s1)
             then Some (None, s1\<lparr>taskQueue := (taskQueue s1)[tail s1 := Some task],
                                 tail := (tail s1 + 1) mod length (taskQueue s1),
                                 count := count s1 + 1\<rparr>)
             else None))"

definition Ring_Queue :: "'t \<Rightarrow> 't Ring \<Rightarrow> (error \<times> 't Ring) option" where
  "Ring_Queue task s =
     (if stopFlag s then Some (Some ErrQueueShutdown, s) else ring_append task s)"

text \<open>
  \<^verbatim>\<open>Request\<close> takes the head off, and then, having read the flag again, signals a drained
  shutdown and shrinks the buffer.
\<close>

definition ring_take :: "'t Ring \<Rightarrow> ('t option \<times> 't Ring) option" where
  "ring_take s =
     (if head s < length (taskQueue s)
      then Some (taskQueue s ! head s,
                 s\<lparr>taskQueue := (taskQueue s)[head s := None],
                   head := (head s + 1) mod length (taskQueue s),
                   count := count s - 1\<rparr>)
      else None)"

definition ring_settle :: "'t Ring \<Rightarrow> 't Ring option" where
  "ring_settle s =
     (let s1 = (if stopFlag s \<and> count s = 0 then signalExit s else s);
          n = length (taskQueue s1) div 2
      in if n \<ge> 2 \<and> count s1 \<le> n then resize n s1 else Some s1)"

definition Ring_Request :: "'t Ring \<Rightarrow> ('t option \<times> error \<times> 't Ring) option" where
  "Ring_Request s =
     (if stopFlag s \<and> count s = 0 then Some (None, Some ErrQueueHasBeenClosed, signalExit s)
      else if count s = 0 then Some (None, Some ErrNoTaskInQueue, s)
      else
        (case ring_take s of
           None \<Rightarrow> None
         | Some (data, s1) \<Rightarrow>
             (case ring_settle s1 of None \<Rightarrow> None | Some s2 \<Rightarrow> Some (data, None, s2))))"

definition Ring_stopIntake :: "'t Ring \<Rightarrow> bool \<times> 't Ring" where
  "Ring_stopIntake s =
     (if stopFlag s then (False, s)
      else let s1 = s\<lparr>stopFlag := True\<rparr> in (True, if count s1 = 0 then signalExit s1 else s1))"

text \<open>
  \<^verbatim>\<open>Shutdown\<close> up to its wait on the exit channel: whether it returns at once with an error,
  or has the exit signal to wait for.
\<close>

definition Ring_Shutdown :: "'t Ring \<Rightarrow> error \<times> 't Ring" where
  "Ring_Shutdown s =
     (case Ring_stopIntake s of
        (False, s1) \<Rightarrow> (Some ErrQueueShutdown, s1)
      | (True, s1) \<Rightarrow> (None, s1))"

definition Ring_Run :: "'t Ring \<Rightarrow> 't \<Rightarrow> error outcome" where
  "Ring_Run s task = runFunc s task"

text \<open>\<^verbatim>\<open>NewRing\<close> with the resolved queue size and handler; a negative size panics.\<close>

definition NewRing :: "int \<Rightarrow> ('t \<Rightarrow> error outcome) \<Rightarrow> 't Ring option" where
  "NewRing queueSize fn =
     (if queueSize < 0 then None
      else Some \<lparr>taskQueue = replicate 2 None, runFunc = fn, capacity = queueSize, count = 0,
                 head = 0, tail = 0, exitClosed = False, stopFlag = False\<rparr>)"

section \<open>The specification: a bounded FIFO list\<close>

record 't Fifo =
  pending :: "'t list"
  bound :: int
  stopped :: bool
  drained :: bool

definition fifo_queue :: "'t \<Rightarrow> 't Fifo \<Rightarrow> error \<times> 't Fifo" where
  "fifo_queue task f =
     (if stopped f then (Some ErrQueueShutdown, f)
      else if bound f > 0 \<and> int (length (pending f)) \<ge> bound f then (Some ErrMaxCapacity, f)
      else (None, f\<lparr>pending := pending f @ [task]\<rparr>))"

fun fifo_request :: "'t Fifo \<Rightarrow> 't option \<times> error \<times> 't Fifo" where
  "fifo_request f =
     (case pending f of
        [] \<Rightarrow> if stopped f then (None, Some ErrQueueHasBeenClosed, f\<lparr>drained := True\<rparr>)
              else (None, Some ErrNoTaskInQueue, f)
      | x # xs \<Rightarrow> (Some x, None, f\<lparr>pending := xs, drained := drained f \<or> (stopped f \<and> xs = [])\<rparr>))"

definition fifo_stop :: "'t Fifo \<Rightarrow> bool \<times> 't Fifo" where
  "fifo_stop f =
     (if stopped f then (False, f)
      else (True, f\<lparr>stopped := True, drained := drained f \<or> pending f = []\<rparr>))"

section \<open>Well-formed rings\<close>

definition ring_contents :: "'t Ring \<Rightarrow> 't list" where
  "ring_contents s = map the (take (count s) (rotate (head s) (taskQueue s)))"

definition ring_slots :: "'t Ring \<Rightarrow> 't list \<Rightarrow> bool" where
  "ring_slots s xs \<longleftrightarrow>
     length xs = count s \<and>
     rotate (head s) (taskQueue s) =
       map Some xs @ replicate (length (taskQueue s) - count s) None"

definition ring_shape :: "'t Ring \<Rightarrow> bool" where
  "ring_shape s \<longleftrightarrow>
     (let len = length (taskQueue s) in
      (\<exists>k. len = 2 ^ Suc k) \<and>
      head s < len \<and> count s \<le> len \<and> tail s = (head s + count s) mod len \<and>
      (len = 2 \<or> len \<le> 2 * count s) \<and>
      (capacity s > 0 \<longrightarrow> int (count s) \<le> capacity s))"

definition ring_wf :: "'t Ring \<Rightarrow> bool" where
  "ring_wf s \<longleftrightarrow> ring_shape s \<and> ring_slots s (ring_contents s)"

definition ring_ok :: "'t Ring \<Rightarrow> bool" where
  "ring_ok s \<longleftrightarrow> ring_wf s \<and> (exitClosed s \<longrightarrow> stopFlag s \<and> count s = 0)"

definition ring_abs :: "'t Ring \<Rightarrow> 't Fifo" where
  "ring_abs s = \<lparr>pending = ring_contents s, bound = capacity s, stopped = stopFlag s,
                 drained = exitClosed s\<rparr>"

lemma pow2_ge_2: "\<exists>k. n = 2 ^ Suc k \<Longrightarrow> 2 \<le> n" for n :: nat
  by (auto simp: Suc_le_eq)

lemma pow2_double: "\<exists>k. n = 2 ^ Suc k \<Longrightarrow> \<exists>k. n * 2 = 2 ^ Suc k" for n :: nat
  by (metis mult.commute power_Suc)

lemma pow2_half: "\<exists>k. n = 2 ^ Suc k \<Longrightarrow> n = 2 \<or> (2 \<le> n div 2 \<and> (\<exists>k. n div 2 = 2 ^ Suc k))" for n :: nat
proof (erule exE)
  fix k
  assume "n = 2 ^ Suc k"
  then show "n = 2 \<or> (2 \<le> n div 2 \<and> (\<exists>k. n div 2 = 2 ^ Suc k))"
    by (cases k) (auto simp: Suc_le_eq)
qed

lemma ring_slots_contents: "ring_slots s xs \<Longrightarrow> ring_contents s = xs"
  by (simp add: ring_slots_def ring_contents_def comp_def)

lemma ring_wfI: "ring_shape s \<Longrightarrow> ring_slots s xs \<Longrightarrow> ring_wf s \<and> ring_contents s = xs"
  by (auto simp: ring_wf_def dest: ring_slots_contents)

lemma ring_wf_length: "ring_wf s \<Longrightarrow> length (ring_contents s) = count s"
  by (simp add: ring_wf_def ring_slots_def)

lemma mod_once:
  "a < n \<Longrightarrow> b \<le> n \<Longrightarrow> (a + b) mod n = (if a + b < n then a + b else a + b - n)" for a b n :: nat
  by (auto simp: le_mod_geq not_less)

lemma rotate_update:
  assumes "i < length xs" and "h < length xs"
  shows "rotate h (xs[(h + i) mod length xs := v]) = (rotate h xs)[i := v]"
proof (rule nth_equalityI)
  fix j
  assume "j < length (rotate h (xs[(h + i) mod length xs := v]))"
  then have j: "j < length xs" by simp
  have "(h + j) mod length xs = (h + i) mod length xs \<longleftrightarrow> j = i"
    using assms j by (simp add: mod_once) arith
  moreover have "(h + i) mod length xs < length xs"
    using assms by (intro mod_less_divisor) linarith
  ultimately show "rotate h (xs[(h + i) mod length xs := v]) ! j = (rotate h xs)[i := v] ! j"
    using assms j by (auto simp: nth_rotate nth_list_update add.commute)
qed simp

section \<open>The buffer operations keep the shape and the order\<close>

lemma go_copy_replicate:
  "length src \<le> n \<Longrightarrow> go_copy (replicate n v) src = src @ replicate (n - length src) v"
  by (simp add: go_copy_def)

lemma resize_slots:
  assumes slots: "ring_slots s xs"
    and bounds: "head s < length (taskQueue s)" "count s \<le> length (taskQueue s)"
    and tail: "tail s = (head s + count s) mod length (taskQueue s)"
    and room: "count s \<le> n" "0 < n"
    and split: "head s < tail s \<or> length (taskQueue s) - head s \<le> count s"
  shows "resize n s =
    Some (s\<lparr>tail := count s mod n, head := 0,
            taskQueue := map Some xs @ replicate (n - count s) None\<rparr>)"
proof -
  let ?tq = "taskQueue s" and ?h = "head s" and ?c = "count s"
  let ?len = "length ?tq"
  have len_xs: "length xs = ?c"
    using slots by (simp add: ring_slots_def)
  have "take ?c (rotate ?h ?tq) = map Some xs"
    using slots by (simp add: ring_slots_def)
  then have live: "take ?c (drop ?h ?tq @ take ?h ?tq) = map Some xs"
    using bounds by (simp add: rotate_drop_take)
  have t: "tail s = (if ?h + ?c < ?len then ?h + ?c else ?h + ?c - ?len)"
    using bounds by (simp add: tail mod_once)
  show ?thesis
  proof (cases "?h < tail s")
    case True
    with t bounds have "tail s = ?h + ?c" and "tail s \<le> ?len"
      by (auto split: if_splits)
    moreover from this have "take ?c (drop ?h ?tq) = map Some xs"
      using live by simp
    ultimately show ?thesis
      using True room len_xs
      by (simp add: resize_def Let_def drop_take go_copy_replicate)
  next
    case False
    with split t bounds have wrap: "?len \<le> ?h + ?c" "tail s = ?h + ?c - ?len"
      by (auto split: if_splits)
    then have "?c - (?len - ?h) = tail s" and "tail s \<le> ?h"
      using bounds by auto
    then have parts: "drop ?h ?tq @ take (tail s) ?tq = map Some xs"
      using live wrap bounds by (simp add: min_absorb1)
    have "tail s \<le> ?len" "?len - ?h \<le> n" "tail s \<le> n - (?len - ?h)"
      using wrap bounds room by auto
    moreover have "n - (?len - ?h) - tail s = n - ?c"
      using wrap bounds by auto
    ultimately show ?thesis
      using False bounds room parts
      by (simp add: resize_def Let_def go_copy_replicate flip: append_assoc)
  qed
qed

lemma ring_slots_flat:
  assumes "length xs = c" and "c \<le> n"
  shows "ring_slots (s\<lparr>count := c, head := 0,
      taskQueue := map Some xs @ replicate (n - c) None\<rparr>) xs"
  using assms by (simp add: ring_slots_def)

lemma ring_shape_pos: "ring_shape s \<Longrightarrow> 2 \<le> length (taskQueue s)"
  by (simp add: ring_shape_def Let_def pow2_ge_2)

lemma grow_wf:
  assumes wf: "ring_wf s" and full: "count s = length (taskQueue s)"
  shows "resize (count s * 2) s =
    Some (s\<lparr>tail := count s, head := 0,
            taskQueue := map Some (ring_contents s) @ replicate (count s) None\<rparr>)"
proof -
  have shape: "ring_shape s" and slots: "ring_slots s (ring_contents s)"
    using wf by (simp_all add: ring_wf_def)
  have "resize (count s * 2) s =
    Some (s\<lparr>tail := count s mod (count s * 2), head := 0,
            taskQueue := map Some (ring_contents s) @ replicate (count s * 2 - count s) None\<rparr>)"
    using shape full ring_shape_pos [OF shape]
    by (intro resize_slots [OF slots]) (auto simp: ring_shape_def Let_def)
  moreover have "count s mod (count s * 2) = count s"
    using full ring_shape_pos [OF shape] by (intro mod_less) linarith
  ultimately show ?thesis by (simp add: mult_2_right)
qed

lemma put_slots:
  assumes "ring_slots s xs" and "head s < length (taskQueue s)"
    and "count s < length (taskQueue s)"
    and "tail s = (head s + count s) mod length (taskQueue s)"
  shows "ring_slots (s\<lparr>taskQueue := (taskQueue s)[tail s := Some task], tail := t,
      count := count s + 1\<rparr>) (xs @ [task])"
proof -
  have "rotate (head s) ((taskQueue s)[tail s := Some task]) =
      (map Some xs @ replicate (length (taskQueue s) - count s) None)[count s := Some task]"
    using assms by (simp add: rotate_update ring_slots_def)
  also have "\<dots> = map Some (xs @ [task]) @ replicate (length (taskQueue s) - (count s + 1)) None"
    using assms(1,3) by (simp add: ring_slots_def list_update_append Suc_diff_Suc [symmetric])
  finally show ?thesis
    using assms(1) by (simp add: ring_slots_def)
qed

lemma mod_bound: "h < n \<Longrightarrow> m mod n < n" for h m n :: nat
  by simp

lemma mod_unshift:
  fixes h c n :: nat
  assumes "0 < c"
  shows "(h + c) mod n = ((h + 1) mod n + (c - 1)) mod n"
proof -
  have "((h + 1) mod n + (c - 1)) mod n = (h + 1 + (c - 1)) mod n"
    by (rule mod_add_left_eq)
  then show ?thesis using assms by simp
qed

lemma ring_append_ok:
  assumes wf: "ring_wf s" and room: "\<not> (capacity s > 0 \<and> int (count s) \<ge> capacity s)"
  shows "\<exists>s'. ring_append task s = Some (None, s') \<and> ring_wf s' \<and>
    ring_contents s' = ring_contents s @ [task] \<and> capacity s' = capacity s \<and>
    stopFlag s' = stopFlag s \<and> exitClosed s' = exitClosed s \<and> count s' = count s + 1"
proof -
  have shape: "ring_shape s" and slots: "ring_slots s (ring_contents s)"
    using wf by (simp_all add: ring_wf_def)
  define s1 where "s1 = (if count s = length (taskQueue s)
    then s\<lparr>tail := count s, head := 0,
           taskQueue := map Some (ring_contents s) @ replicate (count s) None\<rparr> else s)"
  define s2 where "s2 = s1\<lparr>taskQueue := (taskQueue s1)[tail s1 := Some task],
    tail := (tail s1 + 1) mod length (taskQueue s1), count := count s1 + 1\<rparr>"
  have slots1: "ring_slots s1 (ring_contents s)"
    using slots by (simp add: s1_def ring_slots_def)
  have len: "length (ring_contents s) = count s"
    using slots by (simp add: ring_slots_def)
  have s1: "head s1 < length (taskQueue s1)" "count s1 = count s"
    "count s < length (taskQueue s1)" "\<exists>k. length (taskQueue s1) = 2 ^ Suc k"
    "tail s1 = (head s1 + count s1) mod length (taskQueue s1)"
    "length (taskQueue s1) = 2 \<or> length (taskQueue s1) \<le> 2 * (count s + 1)"
    using shape ring_shape_pos [OF shape] len pow2_double [of "length (taskQueue s)"]
    by (cases "count s = length (taskQueue s)";
        auto simp: s1_def ring_shape_def Let_def mult_2_right intro!: mod_less [symmetric])+
  have cap: "capacity s1 = capacity s" by (simp add: s1_def)
  have "(if count s = length (taskQueue s) then resize (count s * 2) s else Some s) = Some s1"
    using grow_wf [OF wf] by (simp add: s1_def)
  moreover have "tail s1 < length (taskQueue s1)"
    unfolding s1(5) using s1(1) by (rule mod_bound)
  ultimately have "ring_append task s = Some (None, s2)"
    using room by (simp add: ring_append_def s2_def)
  moreover have "ring_slots s2 (ring_contents s @ [task])"
    unfolding s2_def using slots1 s1 by (intro put_slots) simp_all
  moreover have "ring_shape s2"
    using s1 room cap by (simp add: ring_shape_def Let_def s2_def mod_Suc_eq) linarith
  ultimately show ?thesis
    using ring_wfI [of s2] by (auto simp: s2_def s1_def)
qed

lemma take_slots:
  assumes slots: "ring_slots s (x # xs)" and head: "head s < length (taskQueue s)"
  shows "taskQueue s ! head s = Some x"
    and "ring_slots (s\<lparr>taskQueue := (taskQueue s)[head s := None],
           head := (head s + 1) mod length (taskQueue s), count := count s - 1\<rparr>) xs"
proof -
  let ?n = "length (taskQueue s)" and ?rest = "replicate (length (taskQueue s) - count s) None"
  have rot: "rotate (head s) (taskQueue s) = Some x # map Some xs @ ?rest"
    and len: "count s = Suc (length xs)"
    using slots by (auto simp: ring_slots_def)
  have "count s \<le> ?n"
    using arg_cong [OF rot, of length] len by simp
  show "taskQueue s ! head s = Some x"
    using nth_rotate [of 0 "taskQueue s" "head s"] rot head by (cases "taskQueue s") simp_all
  have "rotate (head s) ((taskQueue s)[head s := None]) = None # map Some xs @ ?rest"
    using rotate_update [of 0 "taskQueue s" "head s" None] head rot
    by (cases "taskQueue s") simp_all
  then have "rotate (Suc (head s)) ((taskQueue s)[head s := None]) =
      map Some xs @ replicate (?n - (count s - 1)) None"
    using \<open>count s \<le> ?n\<close> len
    by (simp add: rotate_Suc replicate_append_same Suc_diff_le flip: replicate_Suc)
  then show "ring_slots (s\<lparr>taskQueue := (taskQueue s)[head s := None],
           head := (head s + 1) mod ?n, count := count s - 1\<rparr>) xs"
    using len rotate_conv_mod [of "Suc (head s)" "(taskQueue s)[head s := None]"]
    by (simp add: ring_slots_def)
qed

text \<open>The ring between the two halves of \<^verbatim>\<open>Request\<close>: taken from, not yet shrunk.\<close>

definition ring_between :: "'t Ring \<Rightarrow> bool" where
  "ring_between s \<longleftrightarrow>
     ring_slots s (ring_contents s) \<and> (\<exists>k. length (taskQueue s) = 2 ^ Suc k) \<and>
     head s < length (taskQueue s) \<and> count s < length (taskQueue s) \<and>
     tail s = (head s + count s) mod length (taskQueue s) \<and>
     (length (taskQueue s) = 2 \<or> length (taskQueue s) \<le> 2 * (count s + 1)) \<and>
     (capacity s > 0 \<longrightarrow> int (count s) \<le> capacity s)"

lemma ring_settle_ok:
  assumes between: "ring_between s" and xs: "xs = ring_contents s"
  shows "\<exists>s'. ring_settle s = Some s' \<and> ring_wf s' \<and> ring_contents s' = xs \<and>
    capacity s' = capacity s \<and> stopFlag s' = stopFlag s \<and> count s' = count s \<and>
    exitClosed s' = (exitClosed s \<or> (stopFlag s \<and> count s = 0))"
proof -
  have slots: "ring_slots s xs"
    and bounds: "\<exists>k. length (taskQueue s) = 2 ^ Suc k" "head s < length (taskQueue s)"
      "count s < length (taskQueue s)"
    and tail: "tail s = (head s + count s) mod length (taskQueue s)"
    and dense: "length (taskQueue s) = 2 \<or> length (taskQueue s) \<le> 2 * (count s + 1)"
    and cap: "capacity s > 0 \<longrightarrow> int (count s) \<le> capacity s"
    using between xs by (simp_all add: ring_between_def)
  define s1 where "s1 = (if stopFlag s \<and> count s = 0 then signalExit s else s)"
  define n where "n = length (taskQueue s1) div 2"
  have s1: "taskQueue s1 = taskQueue s" "head s1 = head s" "count s1 = count s"
    "tail s1 = tail s" "capacity s1 = capacity s" "stopFlag s1 = stopFlag s"
    "exitClosed s1 = (exitClosed s \<or> (stopFlag s \<and> count s = 0))"
    by (auto simp: s1_def signalExit_def)
  then have slots1: "ring_slots s1 xs"
    using slots by (simp add: ring_slots_def)
  show ?thesis
  proof (cases "n \<ge> 2 \<and> count s1 \<le> n")
    case True
    then have "count s1 > 0"
      using dense s1(1-3) by (auto simp: n_def)
    then have "head s1 < tail s1 \<or> length (taskQueue s1) - head s1 \<le> count s1"
      using bounds(2,3) tail s1(1-4) by (auto simp: mod_once)
    moreover define s2 where "s2 = s1\<lparr>tail := count s1 mod n, head := 0,
        taskQueue := map Some xs @ replicate (n - count s1) None\<rparr>"
    ultimately have "resize n s1 = Some s2"
      unfolding s2_def using True bounds(2,3) tail s1(1-4)
      by (intro resize_slots [OF slots1]) simp_all
    then have settle: "ring_settle s = Some s2"
      using True by (simp add: ring_settle_def s1_def [symmetric] n_def [symmetric] Let_def)
    have "length xs = count s"
      using slots by (simp add: ring_slots_def)
    moreover have "\<exists>k. n = 2 ^ Suc k"
      using True pow2_half [OF bounds(1)] s1(1) by (auto simp: n_def)
    ultimately have "ring_shape s2" and "ring_slots s2 xs"
      using True dense s1(1-6) cap by (auto simp: ring_shape_def ring_slots_def Let_def n_def s2_def)
    then have "ring_wf s2 \<and> ring_contents s2 = xs"
      by (rule ring_wfI)
    then show ?thesis
      using s1 settle by (auto simp: s2_def)
  next
    case False
    then have "ring_settle s = Some s1"
      by (auto simp: ring_settle_def s1_def [symmetric] n_def [symmetric] Let_def)
    moreover have "length (taskQueue s) = 2 \<or> length (taskQueue s) \<le> 2 * count s"
      using False pow2_half [OF bounds(1)] s1(1-3) by (auto simp: n_def)
    then have "ring_shape s1"
      using bounds tail cap s1(1-6) by (simp add: ring_shape_def Let_def)
    ultimately show ?thesis
      using slots1 ring_wfI s1 by blast
  qed
qed

lemma ring_take_ok:
  assumes wf: "ring_wf s" and "count s > 0"
  shows "\<exists>x s1. ring_take s = Some (Some x, s1) \<and> ring_contents s = x # ring_contents s1 \<and>
    ring_between s1 \<and> capacity s1 = capacity s \<and> stopFlag s1 = stopFlag s \<and>
    exitClosed s1 = exitClosed s \<and> count s1 = count s - 1"
proof -
  have shape: "ring_shape s" and slots: "ring_slots s (ring_contents s)"
    using wf by (simp_all add: ring_wf_def)
  then obtain x xs where xs: "ring_contents s = x # xs"
    using assms(2) by (cases "ring_contents s") (auto simp: ring_slots_def)
  define s1 where "s1 = s\<lparr>taskQueue := (taskQueue s)[head s := None],
    head := (head s + 1) mod length (taskQueue s), count := count s - 1\<rparr>"
  have head: "head s < length (taskQueue s)"
    using shape by (simp add: ring_shape_def Let_def)
  have take: "ring_take s = Some (Some x, s1)"
    using take_slots(1) [OF slots [unfolded xs] head] head by (simp add: ring_take_def s1_def)
  have slots1: "ring_slots s1 xs"
    unfolding s1_def by (rule take_slots(2) [OF slots [unfolded xs] head])
  have "tail s1 = (head s1 + count s1) mod length (taskQueue s1)"
    using shape assms(2) mod_unshift [of "count s" "head s" "length (taskQueue s)"]
    by (simp add: ring_shape_def Let_def s1_def)
  moreover have "head s1 < length (taskQueue s1)"
    using mod_bound [OF head, of "head s + 1"] by (simp add: s1_def)
  moreover have "\<exists>k. length (taskQueue s1) = 2 ^ Suc k" "count s1 < length (taskQueue s1)"
    "length (taskQueue s1) = 2 \<or> length (taskQueue s1) \<le> 2 * (count s1 + 1)"
    "capacity s1 > 0 \<longrightarrow> int (count s1) \<le> capacity s1"
    using shape assms(2) by (auto simp: ring_shape_def Let_def s1_def)
  ultimately have "ring_between s1"
    using slots1 ring_slots_contents [OF slots1] by (simp add: ring_between_def)
  then show ?thesis
    using take xs ring_slots_contents [OF slots1] by (auto simp: s1_def)
qed

section \<open>FIFO workers\<close>

text \<open>
  What a scheduler relies on when it queues to an in-memory worker, requests from it and stops
  its intake: no call panics, and each one does to the worker's abstraction what the bounded
  FIFO list does.
\<close>

datatype 't worker_call = CallQueue 't | CallRequest | CallStop

text \<open>A sequence of calls: the tasks admitted and the tasks handed out, in order.\<close>

fun run_calls ::
  "('t \<Rightarrow> 'r \<Rightarrow> (error \<times> 'r) option) \<Rightarrow> ('r \<Rightarrow> ('t option \<times> error \<times> 'r) option) \<Rightarrow>
   ('r \<Rightarrow> bool \<times> 'r) \<Rightarrow> 't worker_call list \<Rightarrow> 'r \<Rightarrow> ('t list \<times> 't list \<times> 'r) option"
where
  "run_calls enqueue request stop [] r = Some ([], [], r)"
| "run_calls enqueue request stop (CallQueue t # calls) r =
     (case enqueue t r of None \<Rightarrow> None
      | Some (err, r1) \<Rightarrow>
          (case run_calls enqueue request stop calls r1 of None \<Rightarrow> None
           | Some (admitted, handed, r2) \<Rightarrow>
               Some (if err = None then t # admitted else admitted, handed, r2)))"
| "run_calls enqueue request stop (CallRequest # calls) r =
     (case request r of None \<Rightarrow> None
      | Some (task, err, r1) \<Rightarrow>
          (case run_calls enqueue request stop calls r1 of None \<Rightarrow> None
           | Some (admitted, handed, r2) \<Rightarrow>
               Some (admitted, case task of None \<Rightarrow> handed | Some t \<Rightarrow> t # handed, r2)))"
| "run_calls enqueue request stop (CallStop # calls) r =
     run_calls enqueue request stop calls (snd (stop r))"

locale fifo_worker =
  fixes enqueue :: "'t \<Rightarrow> 'r \<Rightarrow> (error \<times> 'r) option"
    and request :: "'r \<Rightarrow> ('t option \<times> error \<times> 'r) option"
    and stop :: "'r \<Rightarrow> bool \<times> 'r"
    and fifo :: "'r \<Rightarrow> 't Fifo"
    and ok :: "'r \<Rightarrow> bool"
  assumes enqueue_refines: "ok r \<Longrightarrow>
      \<exists>r'. enqueue t r = Some (fst (fifo_queue t (fifo r)), r') \<and> ok r' \<and>
           fifo r' = snd (fifo_queue t (fifo r))"
    and request_refines: "ok r \<Longrightarrow>
      \<exists>r'. request r = Some (fst (fifo_request (fifo r)), fst (snd (fifo_request (fifo r))), r') \<and>
           ok r' \<and> fifo r' = snd (snd (fifo_request (fifo r)))"
    and stop_refines: "ok r \<Longrightarrow>
      fst (stop r) = fst (fifo_stop (fifo r)) \<and> ok (snd (stop r)) \<and>
      fifo (snd (stop r)) = snd (fifo_stop (fifo r))"
begin

lemma run_calls_fifo:
  "ok r \<Longrightarrow> \<exists>admitted handed r'. run_calls enqueue request stop calls r = Some (admitted, handed, r') \<and>
    ok r' \<and> pending (fifo r) @ admitted = handed @ pending (fifo r') \<and> bound (fifo r') = bound (fifo r)"
proof (induction calls arbitrary: r)
  case Nil
  then show ?case by simp
next
  case (Cons call calls)
  show ?case
  proof (cases call)
    case (CallQueue t)
    obtain r1 where r1: "enqueue t r = Some (fst (fifo_queue t (fifo r)), r1)" "ok r1"
      "fifo r1 = snd (fifo_queue t (fifo r))"
      using enqueue_refines [OF Cons.prems] by blast
    show ?thesis
      using Cons.IH [OF r1(2)] r1 CallQueue by (auto simp: fifo_queue_def split: if_splits)
  next
    case CallRequest
    obtain r1 where r1: "request r = Some (fst (fifo_request (fifo r)), fst (snd (fifo_request (fifo r))), r1)"
      "ok r1" "fifo r1 = snd (snd (fifo_request (fifo r)))"
      using request_refines [OF Cons.prems] by blast
    show ?thesis
      using Cons.IH [OF r1(2)] r1 CallRequest by (auto split: list.splits if_splits)
  next
    case CallStop
    show ?thesis
      using Cons.IH [of "snd (stop r)"] stop_refines [OF Cons.prems] CallStop
      by (auto simp: fifo_stop_def split: if_splits)
  qed
qed

end

section \<open>The ring is a FIFO worker\<close>

lemma Ring_Queue_refines:
  assumes "ring_ok s"
  shows "\<exists>s'. Ring_Queue t s = Some (fst (fifo_queue t (ring_abs s)), s') \<and> ring_ok s' \<and>
    ring_abs s' = snd (fifo_queue t (ring_abs s))"
proof (cases "stopFlag s \<or> (capacity s > 0 \<and> int (count s) \<ge> capacity s)")
  case True
  then show ?thesis
    using assms ring_wf_length [of s]
    by (auto simp: Ring_Queue_def ring_append_def fifo_queue_def ring_abs_def ring_ok_def)
next
  case False
  then obtain s' where "ring_append t s = Some (None, s')" "ring_wf s'"
    "ring_contents s' = ring_contents s @ [t]" "capacity s' = capacity s"
    "stopFlag s' = stopFlag s" "exitClosed s' = exitClosed s"
    using ring_append_ok [of s t] assms by (auto simp: ring_ok_def)
  then show ?thesis
    using assms ring_wf_length [of s] False
    by (auto simp: Ring_Queue_def fifo_queue_def ring_abs_def ring_ok_def)
qed

lemma Ring_Request_refines:
  assumes "ring_ok s"
  shows "\<exists>s'. Ring_Request s =
      Some (fst (fifo_request (ring_abs s)), fst (snd (fifo_request (ring_abs s))), s') \<and>
    ring_ok s' \<and> ring_abs s' = snd (snd (fifo_request (ring_abs s)))"
proof (cases "count s = 0")
  case True
  then have "ring_contents s = []"
    by (simp add: ring_contents_def)
  moreover have "ring_contents (signalExit s) = ring_contents s" "ring_wf (signalExit s) = ring_wf s"
    by (simp_all add: signalExit_def ring_contents_def ring_wf_def ring_shape_def ring_slots_def)
  ultimately show ?thesis
    using True assms
    by (auto simp: Ring_Request_def ring_abs_def ring_ok_def) (simp_all add: signalExit_def)
next
  case False
  then have pos: "count s > 0" and wf: "ring_wf s"
    using assms by (simp_all add: ring_ok_def)
  obtain x s1 where s1: "ring_take s = Some (Some x, s1)" "ring_contents s = x # ring_contents s1"
    "ring_between s1" "capacity s1 = capacity s" "stopFlag s1 = stopFlag s"
    "exitClosed s1 = exitClosed s" "count s1 = count s - 1"
    using ring_take_ok [OF wf pos] by blast
  obtain s2 where "ring_settle s1 = Some s2" "ring_wf s2" "ring_contents s2 = ring_contents s1"
    "capacity s2 = capacity s1" "stopFlag s2 = stopFlag s1" "count s2 = count s1"
    "exitClosed s2 = (exitClosed s1 \<or> (stopFlag s1 \<and> count s1 = 0))"
    using ring_settle_ok [OF s1(3) refl] by blast
  moreover from this s1 have "count s1 = 0 \<longleftrightarrow> ring_contents s1 = []"
    using ring_wf_length [of s2] by auto
  ultimately show ?thesis
    using False assms s1 by (auto simp: Ring_Request_def ring_abs_def ring_ok_def)
qed

lemma Ring_stopIntake_refines:
  assumes "ring_ok s"
  shows "fst (Ring_stopIntake s) = fst (fifo_stop (ring_abs s)) \<and> ring_ok (snd (Ring_stopIntake s)) \<and>
    ring_abs (snd (Ring_stopIntake s)) = snd (fifo_stop (ring_abs s))"
  using assms ring_wf_length [of s]
  by (auto simp: Ring_stopIntake_def fifo_stop_def ring_abs_def ring_ok_def signalExit_def Let_def
      ring_contents_def ring_wf_def ring_shape_def ring_slots_def)

interpretation ring: fifo_worker Ring_Queue Ring_Request Ring_stopIntake ring_abs ring_ok
  by unfold_locales
    (fact Ring_Queue_refines Ring_Request_refines Ring_stopIntake_refines)+

lemma NewRing_ok:
  "NewRing queueSize fn = Some s \<Longrightarrow>
    ring_ok s \<and> ring_contents s = [] \<and> capacity s = queueSize \<and> 0 \<le> queueSize"
  by (auto simp: NewRing_def ring_ok_def ring_wf_def ring_shape_def ring_slots_def ring_contents_def
      numeral_2_eq_2 intro!: exI [of _ 0] split: if_splits)

lemma ring_ok_bounds:
  "ring_ok s \<Longrightarrow> length (taskQueue s) \<le> max 2 (2 * count s) \<and> 2 \<le> length (taskQueue s) \<and>
     (capacity s > 0 \<longrightarrow> int (count s) \<le> capacity s) \<and> length (ring_contents s) = count s"
  using ring_shape_pos [of s] ring_wf_length [of s]
  by (auto simp: ring_ok_def ring_wf_def ring_shape_def Let_def)

text \<open>
  C1: no ring operation panics, and \<^verbatim>\<open>Queue\<close>, \<^verbatim>\<open>Request\<close> and \<^verbatim>\<open>stopIntake\<close> do to the
  abstraction exactly what the bounded FIFO list does, results and errors included.
\<close>

theorem Ring_refines_fifo:
  assumes "ring_ok s"
  shows "(\<exists>s'. Ring_Queue t s = Some (fst (fifo_queue t (ring_abs s)), s') \<and> ring_ok s' \<and>
             ring_abs s' = snd (fifo_queue t (ring_abs s))) \<and>
         (\<exists>s'. Ring_Request s = Some (fst (fifo_request (ring_abs s)),
                 fst (snd (fifo_request (ring_abs s))), s') \<and> ring_ok s' \<and>
             ring_abs s' = snd (snd (fifo_request (ring_abs s)))) \<and>
         fst (Ring_stopIntake s) = fst (fifo_stop (ring_abs s)) \<and>
         ring_ok (snd (Ring_stopIntake s)) \<and>
         ring_abs (snd (Ring_stopIntake s)) = snd (fifo_stop (ring_abs s))"
  using ring.enqueue_refines [OF assms] ring.request_refines [OF assms] ring.stop_refines [OF assms]
  by blast

theorem Ring_refines_fifo_witness:
  "ring_ok (the (NewRing 1 (\<lambda>_ :: nat. Returns None))) \<and>
   map_option fst (Ring_Queue (7 :: nat) (the (NewRing 1 (\<lambda>_. Returns None)))) = Some None"
proof -
  obtain s :: "nat Ring" where s: "NewRing 1 (\<lambda>_. Returns None) = Some s"
    by (simp add: NewRing_def)
  then have ok: "ring_ok s" by (simp add: NewRing_ok)
  show ?thesis
    using Ring_refines_fifo [OF ok, of 7] ok s NewRing_ok [OF s]
    by (auto simp: fifo_queue_def ring_abs_def NewRing_def)
qed

text \<open>
  Whatever calls are made on a new ring, none panics, the tasks handed out are the tasks
  admitted, in the order of admission and less the ones still buffered, the backing slice is
  at most twice the occupancy (and two slots), and a positive queue size is never exceeded.
\<close>

theorem Ring_run_fifo:
  assumes "NewRing queueSize fn = Some s"
  shows "\<exists>admitted handed s'.
    run_calls Ring_Queue Ring_Request Ring_stopIntake calls s = Some (admitted, handed, s') \<and>
    admitted = handed @ ring_contents s' \<and>
    length (taskQueue s') \<le> max 2 (2 * length (ring_contents s')) \<and>
    (queueSize > 0 \<longrightarrow> int (length (ring_contents s')) \<le> queueSize)"
proof -
  have new: "ring_ok s" "ring_contents s = []" "capacity s = queueSize"
    using NewRing_ok [OF assms] by simp_all
  obtain admitted handed s' where
    "run_calls Ring_Queue Ring_Request Ring_stopIntake calls s = Some (admitted, handed, s')"
    "ring_ok s'" "admitted = handed @ ring_contents s'" "capacity s' = queueSize"
    using ring.run_calls_fifo [OF new(1), of calls] new by (auto simp: ring_abs_def)
  then show ?thesis
    using ring_ok_bounds [of s'] by auto
qed

theorem Ring_run_fifo_witness:
  "\<exists>s. NewRing 2 (\<lambda>_. Returns None) = Some s \<and>
     (\<exists>admitted handed s'.
        run_calls Ring_Queue Ring_Request Ring_stopIntake
          [CallQueue (1 :: nat), CallQueue 2, CallQueue 3, CallRequest, CallStop, CallRequest] s =
          Some (admitted, handed, s') \<and>
        admitted = handed @ ring_contents s')"
proof -
  obtain s :: "nat Ring" where s: "NewRing 2 (\<lambda>_. Returns None) = Some s"
    by (simp add: NewRing_def)
  show ?thesis
    using Ring_run_fifo [OF s] s by blast
qed

end
