(* ===== verification/Ring_Concurrency.thy ===== *)
theory Ring_Concurrency
  imports Ring
begin

text \<open>
  Concurrent calls of the ring of src/ring.go. Threads are numbered; each runs one call of
  \<^verbatim>\<open>Queue\<close>, \<^verbatim>\<open>Request\<close> or \<^verbatim>\<open>stopIntake\<close> at a time, taking the mutex, reading the atomic
  stop flag and running the code under the mutex in separate steps, so that a
  compare-and-swap of the flag may fall between any two of them. The lists of admitted and
  handed-out tasks are history the model keeps for its statements.
\<close>

section \<open>Steps\<close>

datatype 't ring_pc =
    Idle
  | QueueLock 't | QueueLoad 't | QueueBody 't
  | RequestLock | RequestLoad | RequestCheck
  | StopLock | StopBody
  | Unlock

record 't ring_sys =
  rs_ring :: "'t Ring"
  rs_mutex :: "nat option"
  rs_pc :: "nat \<Rightarrow> 't ring_pc"
  rs_admitted :: "'t list"
  rs_handed :: "'t list"

abbreviation goto :: "nat \<Rightarrow> 't ring_pc \<Rightarrow> 't ring_sys \<Rightarrow> 't ring_sys" where
  "goto i p g \<equiv> g\<lparr>rs_pc := (rs_pc g)(i := p)\<rparr>"

inductive ring_step :: "'t ring_sys \<Rightarrow> 't ring_sys \<Rightarrow> bool" where
  call_queue: "rs_pc g i = Idle \<Longrightarrow> ring_step g (goto i (QueueLock t) g)"
| call_request: "rs_pc g i = Idle \<Longrightarrow> ring_step g (goto i RequestLock g)"
| call_stop_wins: "rs_pc g i = Idle \<Longrightarrow> \<not> stopFlag (rs_ring g) \<Longrightarrow>
    ring_step g (goto i StopLock (g\<lparr>rs_ring := (rs_ring g)\<lparr>stopFlag := True\<rparr>\<rparr>))"
| call_stop_loses: "rs_pc g i = Idle \<Longrightarrow> stopFlag (rs_ring g) \<Longrightarrow> ring_step g g"
| queue_lock: "rs_pc g i = QueueLock t \<Longrightarrow> rs_mutex g = None \<Longrightarrow>
    ring_step g (goto i (QueueLoad t) (g\<lparr>rs_mutex := Some i\<rparr>))"
| queue_load_stopped: "rs_pc g i = QueueLoad t \<Longrightarrow> stopFlag (rs_ring g) \<Longrightarrow>
    ring_step g (goto i Unlock g)"
| queue_load_running: "rs_pc g i = QueueLoad t \<Longrightarrow> \<not> stopFlag (rs_ring g) \<Longrightarrow>
    ring_step g (goto i (QueueBody t) g)"
| queue_body: "rs_pc g i = QueueBody t \<Longrightarrow> ring_append t (rs_ring g) = Some (err, r) \<Longrightarrow>
    ring_step g (goto i Unlock (g\<lparr>rs_ring := r,
      rs_admitted := (if err = None then rs_admitted g @ [t] else rs_admitted g)\<rparr>))"
| request_lock: "rs_pc g i = RequestLock \<Longrightarrow> rs_mutex g = None \<Longrightarrow>
    ring_step g (goto i RequestLoad (g\<lparr>rs_mutex := Some i\<rparr>))"
| request_closed: "rs_pc g i = RequestLoad \<Longrightarrow> stopFlag (rs_ring g) \<Longrightarrow> count (rs_ring g) = 0 \<Longrightarrow>
    ring_step g (goto i Unlock (g\<lparr>rs_ring := signalExit (rs_ring g)\<rparr>))"
| request_empty: "rs_pc g i = RequestLoad \<Longrightarrow> \<not> stopFlag (rs_ring g) \<Longrightarrow> count (rs_ring g) = 0 \<Longrightarrow>
    ring_step g (goto i Unlock g)"
| request_take: "rs_pc g i = RequestLoad \<Longrightarrow> count (rs_ring g) \<noteq> 0 \<Longrightarrow>
    ring_take (rs_ring g) = Some (data, r) \<Longrightarrow>
    ring_step g (goto i RequestCheck (g\<lparr>rs_ring := r,
      rs_handed := (case data of None \<Rightarrow> rs_handed g | Some t \<Rightarrow> rs_handed g @ [t])\<rparr>))"
| request_check: "rs_pc g i = RequestCheck \<Longrightarrow> ring_settle (rs_ring g) = Some r \<Longrightarrow>
    ring_step g (goto i Unlock (g\<lparr>rs_ring := r\<rparr>))"
| stop_lock: "rs_pc g i = StopLock \<Longrightarrow> rs_mutex g = None \<Longrightarrow>
    ring_step g (goto i StopBody (g\<lparr>rs_mutex := Some i\<rparr>))"
| stop_body: "rs_pc g i = StopBody \<Longrightarrow>
    ring_step g (goto i Unlock (g\<lparr>rs_ring :=
      (if count (rs_ring g) = 0 then signalExit (rs_ring g) else rs_ring g)\<rparr>))"
| unlock: "rs_pc g i = Unlock \<Longrightarrow> ring_step g (goto i Idle (g\<lparr>rs_mutex := None\<rparr>))"

definition ring_start :: "'t ring_sys \<Rightarrow> bool" where
  "ring_start g \<longleftrightarrow>
     (\<exists>queueSize fn. NewRing queueSize fn = Some (rs_ring g)) \<and> rs_mutex g = None \<and>
     rs_pc g = (\<lambda>_. Idle) \<and> rs_admitted g = [] \<and> rs_handed g = []"

section \<open>The invariant\<close>

fun holds_mutex :: "'t ring_pc \<Rightarrow> bool" where
  "holds_mutex (QueueLoad _) = True"
| "holds_mutex (QueueBody _) = True"
| "holds_mutex RequestLoad = True"
| "holds_mutex RequestCheck = True"
| "holds_mutex StopBody = True"
| "holds_mutex Unlock = True"
| "holds_mutex _ = False"

fun will_check_exit :: "'t ring_pc \<Rightarrow> bool" where
  "will_check_exit StopLock = True"
| "will_check_exit StopBody = True"
| "will_check_exit RequestCheck = True"
| "will_check_exit _ = False"

definition mutex_inv :: "'t ring_sys \<Rightarrow> bool" where
  "mutex_inv g \<longleftrightarrow> (\<forall>i. holds_mutex (rs_pc g i) \<longleftrightarrow> rs_mutex g = Some i)"

definition buffer_inv :: "'t ring_sys \<Rightarrow> bool" where
  "buffer_inv g \<longleftrightarrow>
     (if \<exists>i. rs_pc g i = RequestCheck then ring_between (rs_ring g) else ring_wf (rs_ring g)) \<and>
     rs_admitted g = rs_handed g @ ring_contents (rs_ring g)"

definition exit_inv :: "'t ring_sys \<Rightarrow> bool" where
  "exit_inv g \<longleftrightarrow>
     (exitClosed (rs_ring g) \<longrightarrow>
        stopFlag (rs_ring g) \<and> count (rs_ring g) = 0 \<and> (\<forall>i t. rs_pc g i \<noteq> QueueBody t)) \<and>
     (stopFlag (rs_ring g) \<and> count (rs_ring g) = 0 \<and> \<not> exitClosed (rs_ring g) \<longrightarrow>
        (\<exists>i. will_check_exit (rs_pc g i)))"

definition stop_inv :: "'t ring_sys \<Rightarrow> bool" where
  "stop_inv g \<longleftrightarrow> (\<forall>i. rs_pc g i = StopLock \<or> rs_pc g i = StopBody \<longrightarrow> stopFlag (rs_ring g))"

definition ring_sys_inv :: "'t ring_sys \<Rightarrow> bool" where
  "ring_sys_inv g \<longleftrightarrow> mutex_inv g \<and> buffer_inv g \<and> stop_inv g \<and> exit_inv g"

lemma append_total:
  assumes "ring_wf r"
  shows "ring_append t r \<noteq> None"
proof (cases "capacity r > 0 \<and> int (count r) \<ge> capacity r")
  case True
  then show ?thesis by (simp add: ring_append_def)
next
  case False
  from ring_append_ok [OF assms False, of t] show ?thesis by auto
qed

lemma append_facts:
  assumes "ring_wf r" and "ring_append t r = Some (err, r')"
  shows "ring_wf r'" and "ring_contents r' = (if err = None then ring_contents r @ [t] else ring_contents r)"
    and "stopFlag r' = stopFlag r" and "exitClosed r' = exitClosed r" and "count r \<le> count r'"
proof -
  have "r' = r \<and> err \<noteq> None \<or>
    err = None \<and> ring_wf r' \<and> ring_contents r' = ring_contents r @ [t] \<and> stopFlag r' = stopFlag r \<and>
    exitClosed r' = exitClosed r \<and> count r' = count r + 1"
  proof (cases "capacity r > 0 \<and> int (count r) \<ge> capacity r")
    case True
    then show ?thesis
      using assms(2) by (auto simp: ring_append_def)
  next
    case False
    then show ?thesis
      using ring_append_ok [OF assms(1) False, of t] assms(2) by auto
  qed
  then show "ring_wf r'" "ring_contents r' = (if err = None then ring_contents r @ [t] else ring_contents r)"
    "stopFlag r' = stopFlag r" "exitClosed r' = exitClosed r" "count r \<le> count r'"
    using assms(1) by auto
qed

lemma take_facts:
  assumes "ring_wf r" and "count r \<noteq> 0" and "ring_take r = Some (data, r')"
  shows "ring_between r'" and "\<exists>t. data = Some t \<and> ring_contents r = t # ring_contents r'"
    and "stopFlag r' = stopFlag r" and "exitClosed r' = exitClosed r"
  using ring_take_ok [OF assms(1)] assms(2,3) by auto

lemma settle_facts:
  assumes "ring_between r" and "ring_settle r = Some r'"
  shows "ring_wf r'" and "ring_contents r' = ring_contents r" and "stopFlag r' = stopFlag r"
    and "count r' = count r" and "exitClosed r' = (exitClosed r \<or> (stopFlag r \<and> count r = 0))"
  using ring_settle_ok [OF assms(1) refl] assms(2) by auto

lemma signalExit_facts [simp]:
  "ring_wf (signalExit r) = ring_wf r" "ring_between (signalExit r) = ring_between r"
  "ring_contents (signalExit r) = ring_contents r" "count (signalExit r) = count r"
  "stopFlag (signalExit r) = stopFlag r" "exitClosed (signalExit r)"
  by (simp_all add: signalExit_def ring_wf_def ring_between_def ring_shape_def ring_slots_def
      ring_contents_def)

lemma stopFlag_facts [simp]:
  "ring_wf (r\<lparr>stopFlag := b\<rparr>) = ring_wf r" "ring_between (r\<lparr>stopFlag := b\<rparr>) = ring_between r"
  "ring_contents (r\<lparr>stopFlag := b\<rparr>) = ring_contents r"
  by (simp_all add: ring_wf_def ring_between_def ring_shape_def ring_slots_def ring_contents_def)

lemma mutex_stay:
  "mutex_inv g \<Longrightarrow> rs_pc h = rs_pc g \<Longrightarrow> rs_mutex h = rs_mutex g \<Longrightarrow>
    holds_mutex p = holds_mutex (rs_pc g i) \<Longrightarrow> mutex_inv (goto i p h)"
  by (simp add: mutex_inv_def)

lemma mutex_acquire:
  "mutex_inv g \<Longrightarrow> rs_mutex g = None \<Longrightarrow> holds_mutex p \<Longrightarrow>
    mutex_inv (goto i p (g\<lparr>rs_mutex := Some i\<rparr>))"
  by (auto simp: mutex_inv_def)

lemma mutex_release:
  "mutex_inv g \<Longrightarrow> holds_mutex (rs_pc g i) \<Longrightarrow> \<not> holds_mutex p \<Longrightarrow>
    mutex_inv (goto i p (g\<lparr>rs_mutex := None\<rparr>))"
  by (simp add: mutex_inv_def)

lemma mutex_step: "ring_step g h \<Longrightarrow> mutex_inv g \<Longrightarrow> mutex_inv h"
proof (induction rule: ring_step.induct)
  case (queue_lock g i t)
  then show ?case by (intro mutex_acquire) simp_all
next
  case (request_lock g i)
  then show ?case by (intro mutex_acquire) simp_all
next
  case (stop_lock g i)
  then show ?case by (intro mutex_acquire) simp_all
next
  case (unlock g i)
  then show ?case by (intro mutex_release) simp_all
next
  case (call_stop_loses g i)
  then show ?case by simp
qed (rule mutex_stay, assumption, simp, simp, simp)+

lemma mutex_alone:
  "mutex_inv g \<Longrightarrow> holds_mutex (rs_pc g i) \<Longrightarrow> holds_mutex (rs_pc g j) \<Longrightarrow> i = j"
  by (simp add: mutex_inv_def)

lemma wf_unless_check:
  assumes "buffer_inv g" and "mutex_inv g" and "holds_mutex (rs_pc g i)" and "rs_pc g i \<noteq> RequestCheck"
  shows "ring_wf (rs_ring g)"
proof -
  have "rs_pc g j \<noteq> RequestCheck" for j
    using mutex_alone [OF assms(2,3), of j] assms(4) by auto
  then show ?thesis
    using assms(1) by (simp add: buffer_inv_def)
qed

lemma buffer_stay:
  assumes "buffer_inv g" and "rs_pc g i \<noteq> RequestCheck" and "p \<noteq> RequestCheck" and "rs_pc h = rs_pc g"
    and "ring_wf (rs_ring h) = ring_wf (rs_ring g)" and "ring_between (rs_ring h) = ring_between (rs_ring g)"
    and "ring_contents (rs_ring h) = ring_contents (rs_ring g)"
    and "rs_admitted h = rs_admitted g" and "rs_handed h = rs_handed g"
  shows "buffer_inv (goto i p h)"
proof -
  have "(\<exists>j. ((rs_pc g)(i := p)) j = RequestCheck) = (\<exists>j. rs_pc g j = RequestCheck)"
    using assms(2,3) by auto
  then show ?thesis
    using assms by (simp add: buffer_inv_def)
qed

lemma buffer_wf:
  assumes "mutex_inv g" and "holds_mutex (rs_pc g i)" and "p \<noteq> RequestCheck" and "rs_pc h = rs_pc g"
    and "ring_wf (rs_ring h)" and "rs_admitted h = rs_handed h @ ring_contents (rs_ring h)"
  shows "buffer_inv (goto i p h)"
proof -
  have "((rs_pc g)(i := p)) j \<noteq> RequestCheck" for j
    using mutex_alone [OF assms(1,2), of j] assms(3) by auto
  then show ?thesis
    using assms by (simp add: buffer_inv_def)
qed

lemma buffer_step: "ring_step g h \<Longrightarrow> buffer_inv g \<Longrightarrow> mutex_inv g \<Longrightarrow> buffer_inv h"
proof (induction rule: ring_step.induct)
  case (queue_body g i t err r)
  then have wf: "ring_wf (rs_ring g)"
    by (intro wf_unless_check [of g i]) simp_all
  with queue_body show ?case
    using append_facts [OF wf queue_body(2)]
    by (intro buffer_wf [of g i]) (simp_all add: buffer_inv_def)
next
  case (request_take g i data r)
  then have wf: "ring_wf (rs_ring g)"
    by (intro wf_unless_check [of g i]) simp_all
  from take_facts [OF wf request_take(2,3)] request_take show ?case
    by (auto simp: buffer_inv_def)
next
  case (request_check g i r)
  then have "ring_between (rs_ring g)" "rs_admitted g = rs_handed g @ ring_contents (rs_ring g)"
    by (auto simp: buffer_inv_def split: if_splits)
  with request_check settle_facts [OF this(1) request_check(2)] show ?case
    by (intro buffer_wf [of g i]) simp_all
next
  case (stop_body g i)
  then show ?case
    by (intro buffer_stay [of g i]) (simp_all split: if_split)
next
  case (call_stop_loses g i)
  then show ?case by simp
qed (rule buffer_stay, assumption, simp, simp, simp, simp, simp, simp, simp, simp)+

lemma stop_step: "ring_step g h \<Longrightarrow> ring_sys_inv g \<Longrightarrow> stop_inv h"
proof (induction rule: ring_step.induct)
  case (queue_body g i t err r)
  then have wf: "ring_wf (rs_ring g)"
    by (intro wf_unless_check [of g i]) (simp_all add: ring_sys_inv_def)
  show ?case
    using append_facts(3) [OF wf queue_body(2)] queue_body(1,3) by (simp add: stop_inv_def ring_sys_inv_def)
next
  case (request_take g i data r)
  then have wf: "ring_wf (rs_ring g)"
    by (intro wf_unless_check [of g i]) (simp_all add: ring_sys_inv_def)
  show ?case
    using take_facts(3) [OF wf request_take(2,3)] request_take(1,4)
    by (simp add: stop_inv_def ring_sys_inv_def)
next
  case (request_check g i r)
  then have "ring_between (rs_ring g)"
    by (auto simp: buffer_inv_def ring_sys_inv_def split: if_splits)
  from settle_facts(3) [OF this request_check(2)] show ?case
    using request_check(1,3) by (simp add: stop_inv_def ring_sys_inv_def)
qed (simp_all add: stop_inv_def ring_sys_inv_def)

lemma exit_stay:
  assumes "ring_sys_inv g" and "will_check_exit (rs_pc g i) \<longrightarrow> will_check_exit p" and "\<forall>t. p \<noteq> QueueBody t"
    and "rs_pc h = rs_pc g" and "rs_ring h = rs_ring g"
  shows "exit_inv (goto i p h)"
proof -
  have "will_check_exit (rs_pc g j) \<Longrightarrow> will_check_exit (((rs_pc g)(i := p)) j)" for j
    using assms(2) by auto
  then show ?thesis
    using assms unfolding exit_inv_def ring_sys_inv_def by simp metis
qed

lemma exit_closing:
  assumes "mutex_inv g" and "holds_mutex (rs_pc g i)" and "\<forall>t. p \<noteq> QueueBody t" and "rs_pc h = rs_pc g"
    and "exitClosed (rs_ring h)" and "stopFlag (rs_ring h)" and "count (rs_ring h) = 0"
  shows "exit_inv (goto i p h)"
proof -
  have "((rs_pc g)(i := p)) j \<noteq> QueueBody t" for j t
    using mutex_alone [OF assms(1,2), of j] assms(3) by auto
  then show ?thesis
    using assms by (simp add: exit_inv_def)
qed

lemma exit_busy:
  assumes "exit_inv g" and "\<not> exitClosed (rs_ring h)"
    and "\<not> stopFlag (rs_ring h) \<or> count (rs_ring h) \<noteq> 0 \<or> will_check_exit p"
  shows "exit_inv (goto i p h)"
  using assms by (auto simp: exit_inv_def)

lemma exit_append:
  assumes inv: "ring_sys_inv g" and pc: "rs_pc g i = QueueBody t"
    and r: "ring_append t (rs_ring g) = Some (err, r)"
  shows "\<not> exitClosed r" and "count r \<noteq> 0"
proof -
  have wf: "ring_wf (rs_ring g)"
    using inv pc by (intro wf_unless_check [of g i]) (simp_all add: ring_sys_inv_def)
  show "\<not> exitClosed r"
    using append_facts(4) [OF wf r] inv pc by (auto simp: ring_sys_inv_def exit_inv_def)
  show "count r \<noteq> 0"
    using r ring_append_ok [OF wf, of t]
    by (cases "capacity (rs_ring g) > 0 \<and> int (count (rs_ring g)) \<ge> capacity (rs_ring g)")
      (auto simp: ring_append_def)
qed

lemma exit_settle:
  assumes inv: "ring_sys_inv g" and pc: "rs_pc g i = RequestCheck"
    and r: "ring_settle (rs_ring g) = Some r"
  shows "exitClosed r = (stopFlag r \<and> count r = 0)"
proof -
  have "ring_between (rs_ring g)"
    using inv pc by (auto simp: buffer_inv_def ring_sys_inv_def split: if_splits)
  from settle_facts(3-5) [OF this r] show ?thesis
    using inv by (auto simp: ring_sys_inv_def exit_inv_def)
qed

lemma exit_step: "ring_step g h \<Longrightarrow> ring_sys_inv g \<Longrightarrow> exit_inv h"
proof (induction rule: ring_step.induct)
  case (call_stop_wins g i)
  then have "\<not> exitClosed (rs_ring g)"
    by (auto simp: ring_sys_inv_def exit_inv_def)
  with call_stop_wins show ?case
    by (intro exit_busy [of g]) (simp_all add: ring_sys_inv_def)
next
  case (queue_load_running g i t)
  then have "\<not> exitClosed (rs_ring g)"
    by (auto simp: ring_sys_inv_def exit_inv_def)
  with queue_load_running show ?case
    by (intro exit_busy [of g]) (simp_all add: ring_sys_inv_def)
next
  case (queue_body g i t err r)
  from exit_append [OF queue_body(3,1,2)] queue_body(3) show ?case
    by (intro exit_busy [of g]) (simp_all add: ring_sys_inv_def)
next
  case (request_closed g i)
  then show ?case
    by (intro exit_closing [of g i]) (simp_all add: ring_sys_inv_def)
next
  case (request_empty g i)
  then show ?case
    by (intro exit_stay [of g i]) simp_all
next
  case (request_take g i data r)
  then have wf: "ring_wf (rs_ring g)"
    by (intro wf_unless_check [of g i]) (simp_all add: ring_sys_inv_def)
  have "\<not> exitClosed (rs_ring g)"
    using request_take(2,4) by (auto simp: ring_sys_inv_def exit_inv_def)
  with take_facts [OF wf request_take(2,3)] request_take(4) show ?case
    by (intro exit_busy [of g]) (simp_all add: ring_sys_inv_def)
next
  case (request_check g i r)
  note r = exit_settle [OF request_check(3,1,2)]
  from request_check r show ?case
    by (cases "exitClosed r"; intro exit_closing [of g i] exit_busy [of g])
      (auto simp: ring_sys_inv_def)
next
  case (stop_body g i)
  then have "stopFlag (rs_ring g)" "count (rs_ring g) \<noteq> 0 \<Longrightarrow> \<not> exitClosed (rs_ring g)"
    by (auto simp: ring_sys_inv_def stop_inv_def exit_inv_def)
  with stop_body show ?case
    by (cases "count (rs_ring g) = 0"; intro exit_closing [of g i] exit_busy [of g])
      (simp_all add: ring_sys_inv_def)
next
  case (call_stop_loses g i)
  then show ?case by (simp add: ring_sys_inv_def)
qed (rule exit_stay, assumption, simp, simp, simp, simp)+

lemma ring_start_inv:
  assumes "ring_start g"
  shows "ring_sys_inv g"
proof -
  obtain queueSize fn where new: "NewRing queueSize fn = Some (rs_ring g)"
    using assms by (auto simp: ring_start_def)
  then have "\<not> stopFlag (rs_ring g)" "\<not> exitClosed (rs_ring g)"
    by (auto simp: NewRing_def split: if_splits dest!: sym [of _ "rs_ring g"])
  then show ?thesis
    using assms NewRing_ok [OF new]
    by (simp add: ring_start_def ring_sys_inv_def mutex_inv_def buffer_inv_def stop_inv_def
        exit_inv_def ring_ok_def)
qed

interpretation ring_conc: step_system ring_start ring_step ring_sys_inv
proof unfold_locales
  show "ring_start g \<Longrightarrow> ring_sys_inv g" for g :: "'a ring_sys"
    by (rule ring_start_inv)
  show "ring_sys_inv h" if "ring_sys_inv g" "ring_step g h" for g h :: "'a ring_sys"
    using that mutex_step [OF that(2)] buffer_step [OF that(2)] stop_step [OF that(2)]
      exit_step [OF that(2)] by (simp add: ring_sys_inv_def)
qed

lemma buffer_length: "buffer_inv g \<Longrightarrow> length (ring_contents (rs_ring g)) = count (rs_ring g)"
  by (auto simp: buffer_inv_def ring_wf_def ring_between_def ring_slots_def split: if_splits)

lemma closed_step:
  assumes inv: "ring_sys_inv g" and step: "ring_step g h" and closed: "exitClosed (rs_ring g)"
  shows "exitClosed (rs_ring h) \<and> rs_admitted h = rs_admitted g \<and> rs_handed h = rs_handed g"
  using step inv closed
proof (induction rule: ring_step.induct)
  case (request_check g i r)
  then have "ring_between (rs_ring g)"
    by (auto simp: buffer_inv_def ring_sys_inv_def split: if_splits)
  from settle_facts(5) [OF this request_check(2)] request_check(4) show ?case by simp
qed (auto simp: ring_sys_inv_def exit_inv_def)

section \<open>Properties\<close>

text \<open>
  C7: under any interleaving of Queue, Request and stopIntake calls by any number of threads
  no task is lost, duplicated or reordered (the admitted tasks are the handed-out ones followed
  by the buffered ones), a closed exit channel means that intake is stopped and every admitted
  task was handed out, and no thread ever reaches an index or slice expression that panics.
\<close>

theorem Ring_concurrent_safe:
  assumes "reachable_from ring_start ring_step g"
  shows "rs_admitted g = rs_handed g @ ring_contents (rs_ring g) \<and>
    (exitClosed (rs_ring g) \<longrightarrow> stopFlag (rs_ring g) \<and> rs_handed g = rs_admitted g) \<and>
    (\<forall>i t. rs_pc g i = QueueBody t \<longrightarrow> ring_append t (rs_ring g) \<noteq> None) \<and>
    (\<forall>i. rs_pc g i = RequestLoad \<and> count (rs_ring g) \<noteq> 0 \<longrightarrow> ring_take (rs_ring g) \<noteq> None) \<and>
    (\<forall>i. rs_pc g i = RequestCheck \<longrightarrow> ring_settle (rs_ring g) \<noteq> None)"
proof (intro conjI allI impI)
  have inv: "mutex_inv g" "buffer_inv g" "exit_inv g"
    using ring_conc.invar_reachable [OF assms] by (simp_all add: ring_sys_inv_def)
  then show buf: "rs_admitted g = rs_handed g @ ring_contents (rs_ring g)"
    by (simp add: buffer_inv_def)
  show "stopFlag (rs_ring g)" "rs_handed g = rs_admitted g" if "exitClosed (rs_ring g)"
    using that inv(3) buf buffer_length [OF inv(2)] by (auto simp: exit_inv_def)
  have wf: "ring_wf (rs_ring g)" if "holds_mutex (rs_pc g i)" "rs_pc g i \<noteq> RequestCheck" for i
    using wf_unless_check [OF inv(2,1) that] .
  show "ring_append t (rs_ring g) \<noteq> None" if "rs_pc g i = QueueBody t" for i t
    using wf [of i] that append_total by simp
  show "ring_take (rs_ring g) \<noteq> None" if "rs_pc g i = RequestLoad \<and> count (rs_ring g) \<noteq> 0" for i
    using wf [of i] that ring_take_ok [of "rs_ring g"] by fastforce
  show "ring_settle (rs_ring g) \<noteq> None" if "rs_pc g i = RequestCheck" for i
    using that ring_settle_ok [of "rs_ring g"] inv(2) by (auto simp: buffer_inv_def split: if_splits)
qed

text \<open>
  The exit channel is closed for good: from the moment it is closed, no further call admits
  or hands out a task, and every task ever admitted has been handed out.
\<close>

theorem Ring_exit_final:
  assumes "reachable_from ring_start ring_step g" and "exitClosed (rs_ring g)"
    and "ring_step\<^sup>*\<^sup>* g h"
  shows "exitClosed (rs_ring h) \<and> rs_admitted h = rs_admitted g \<and> rs_handed h = rs_admitted g"
proof -
  have inv: "ring_sys_inv g"
    using ring_conc.invar_reachable [OF assms(1)] .
  then have "rs_handed g = rs_admitted g"
    using assms(2) buffer_length [of g] by (auto simp: ring_sys_inv_def exit_inv_def buffer_inv_def)
  then show ?thesis
    using assms(2) closed_step inv
    by (intro ring_conc.stable_along [OF _ assms(3), of "\<lambda>x. exitClosed (rs_ring x) \<and>
      rs_admitted x = rs_admitted g \<and> rs_handed x = rs_admitted g"]) auto
qed

text \<open>
  C28: the drain signal is never missed: once intake was stopped and the buffer is empty, the
  exit channel is closed as soon as no call is in progress.
\<close>

theorem Ring_exit_not_missed:
  assumes "reachable_from ring_start ring_step g" and "stopFlag (rs_ring g)"
    and "ring_contents (rs_ring g) = []" and "\<forall>i. rs_pc g i = Idle"
  shows "exitClosed (rs_ring g)"
proof -
  have inv: "buffer_inv g" "exit_inv g"
    using ring_conc.invar_reachable [OF assms(1)] by (simp_all add: ring_sys_inv_def)
  then show ?thesis
    using assms(2-4) buffer_length [OF inv(1)] by (auto simp: exit_inv_def)
qed

section \<open>Concrete runs\<close>

definition new_sys :: "nat ring_sys" where
  "new_sys = \<lparr>rs_ring = the (NewRing 0 (\<lambda>_. Returns None)), rs_mutex = None, rs_pc = (\<lambda>_. Idle),
     rs_admitted = [], rs_handed = []\<rparr>"

definition stopped_sys :: "nat ring_sys" where
  "stopped_sys = new_sys\<lparr>rs_ring := signalExit ((rs_ring new_sys)\<lparr>stopFlag := True\<rparr>)\<rparr>"

lemma reach_new: "reachable_from ring_start ring_step new_sys"
  by (rule reachable_from.reach_start) (auto simp: ring_start_def new_sys_def NewRing_def)

definition queueing_sys :: "nat ring_sys" where
  "queueing_sys = new_sys\<lparr>rs_mutex := Some 1, rs_pc := (\<lambda>i. if i = 1 then QueueBody 7 else Idle)\<rparr>"

lemma reach_queueing: "reachable_from ring_start ring_step queueing_sys"
proof -
  let ?a = "goto 1 (QueueLock 7) new_sys"
  let ?b = "goto 1 (QueueLoad 7) (?a\<lparr>rs_mutex := Some 1\<rparr>)"
  have "ring_step new_sys ?a"
    by (rule call_queue) (simp add: new_sys_def)
  moreover have "ring_step ?a ?b"
    by (rule queue_lock) (simp_all add: new_sys_def)
  moreover have "ring_step ?b (goto 1 (QueueBody 7) ?b)"
    by (rule queue_load_running) (simp_all add: new_sys_def NewRing_def)
  moreover have "goto 1 (QueueBody 7) ?b = queueing_sys"
    by (auto simp: queueing_sys_def new_sys_def fun_eq_iff)
  ultimately show ?thesis
    using reach_new by (metis reachable_from.reach_step)
qed

lemma reach_stopped: "reachable_from ring_start ring_step stopped_sys"
proof -
  let ?r = "(rs_ring new_sys)\<lparr>stopFlag := True\<rparr>"
  let ?a = "goto 0 StopLock (new_sys\<lparr>rs_ring := ?r\<rparr>)"
  let ?b = "goto 0 StopBody (?a\<lparr>rs_mutex := Some 0\<rparr>)"
  let ?c = "goto 0 Unlock (?b\<lparr>rs_ring := signalExit ?r\<rparr>)"
  have count: "count ?r = 0"
    by (simp add: new_sys_def NewRing_def)
  have "ring_step new_sys ?a"
    by (rule call_stop_wins) (simp_all add: new_sys_def NewRing_def)
  with reach_new have a: "reachable_from ring_start ring_step ?a"
    by (rule reachable_from.reach_step)
  have "ring_step ?a ?b"
    by (rule stop_lock) (simp_all add: new_sys_def)
  with a have b: "reachable_from ring_start ring_step ?b"
    by (rule reachable_from.reach_step)
  have "ring_step ?b ?c"
    using stop_body [of ?b 0] count by simp
  with b have c: "reachable_from ring_start ring_step ?c"
    by (rule reachable_from.reach_step)
  have "ring_step ?c (goto 0 Idle (?c\<lparr>rs_mutex := None\<rparr>))"
    by (rule unlock) simp
  moreover have "goto 0 Idle (?c\<lparr>rs_mutex := None\<rparr>) = stopped_sys"
    by (simp add: stopped_sys_def new_sys_def fun_upd_idem)
  ultimately show ?thesis
    using reachable_from.reach_step [OF c] by simp
qed

lemma stopped_sys_simps:
  "stopFlag (rs_ring stopped_sys)" "exitClosed (rs_ring stopped_sys)"
  "ring_contents (rs_ring stopped_sys) = []" "rs_pc stopped_sys i = Idle"
  "rs_admitted stopped_sys = []"
  by (simp_all add: stopped_sys_def new_sys_def NewRing_def signalExit_def ring_contents_def)

theorem Ring_concurrent_safe_witness:
  "ring_append 7 (rs_ring queueing_sys) \<noteq> None \<and> rs_handed stopped_sys = []"
proof
  have "rs_pc queueing_sys 1 = QueueBody 7"
    by (simp add: queueing_sys_def)
  then show "ring_append 7 (rs_ring queueing_sys) \<noteq> None"
    using Ring_concurrent_safe [OF reach_queueing] by blast
  show "rs_handed stopped_sys = []"
    using Ring_concurrent_safe [OF reach_stopped] stopped_sys_simps by simp
qed

theorem Ring_exit_final_witness:
  "exitClosed (rs_ring stopped_sys) \<and>
   rs_admitted (goto 3 (QueueLock 9) stopped_sys) = rs_admitted stopped_sys"
proof -
  have "ring_step\<^sup>*\<^sup>* stopped_sys (goto 3 (QueueLock 9) stopped_sys)"
    by (rule r_into_rtranclp, rule call_queue) (rule stopped_sys_simps)
  from Ring_exit_final [OF reach_stopped stopped_sys_simps(2) this] show ?thesis
    by (simp add: stopped_sys_simps)
qed

theorem Ring_exit_not_missed_witness: "exitClosed (rs_ring stopped_sys)"
  using Ring_exit_not_missed [OF reach_stopped] stopped_sys_simps by blast

end
