(* ===== verification/Routine_Group.thy ===== *)
theory Routine_Group
  imports Go_Errors
begin

text \<open>
  The routine group of src/thread.go: a counter of owned goroutines and an idle channel that is
  replaced when a new generation starts and closed when the last goroutine ends. Channels live
  in a store (position = identity, value = closed or not), since a waiter keeps the channel of
  the generation it saw. A second close of a channel, which panics in Go, is None.
\<close>

section \<open>Operations\<close>

record routineGroup =
  rg_active :: int
  rg_idle :: nat
  rg_chans :: "bool list"

definition newRoutineGroup :: routineGroup where
  "newRoutineGroup = \<lparr>rg_active = 0, rg_idle = 0, rg_chans = [True]\<rparr>"

definition close_chan :: "nat \<Rightarrow> bool list \<Rightarrow> bool list option" where
  "close_chan c chans = (if c < length chans \<and> \<not> chans ! c then Some (chans[c := True]) else None)"

definition routineGroup_Run :: "routineGroup \<Rightarrow> routineGroup" where
  "routineGroup_Run g =
     (let g = (if rg_active g = 0
               then g\<lparr>rg_idle := length (rg_chans g), rg_chans := rg_chans g @ [False]\<rparr> else g)
      in g\<lparr>rg_active := rg_active g + 1\<rparr>)"

definition routineGroup_done :: "routineGroup \<Rightarrow> routineGroup option" where
  "routineGroup_done g =
     (let g = g\<lparr>rg_active := rg_active g - 1\<rparr>
      in if rg_active g = 0
         then map_option (\<lambda>chans. g\<lparr>rg_chans := chans\<rparr>) (close_chan (rg_idle g) (rg_chans g))
         else Some g)"

section \<open>Goroutines and waiters\<close>

text \<open>
  The routines launched so far are numbered 0, 1, ...; \<^verbatim>\<open>sy_finished\<close> are those whose
  deferred \<^verbatim>\<open>done\<close> ran. A waiter is one call of \<^verbatim>\<open>WaitContext\<close>: it snapshots the idle channel
  under the mutex (the number of routines launched by then is history), then selects between
  that channel and its context, which may end at any time.
\<close>

datatype wait_pc = WaitCalled | Selecting nat nat | WaitNil nat | WaitErr go_err

record rg_sys =
  sy_group :: routineGroup
  sy_launched :: nat
  sy_finished :: "nat set"
  sy_waiter :: "nat \<Rightarrow> wait_pc"

inductive rg_step :: "rg_sys \<Rightarrow> rg_sys \<Rightarrow> bool" where
  run: "rg_step y (y\<lparr>sy_group := routineGroup_Run (sy_group y), sy_launched := sy_launched y + 1\<rparr>)"
| finish: "i < sy_launched y \<Longrightarrow> i \<notin> sy_finished y \<Longrightarrow> routineGroup_done (sy_group y) = Some g \<Longrightarrow>
    rg_step y (y\<lparr>sy_group := g, sy_finished := insert i (sy_finished y)\<rparr>)"
| wait_nil_context: "sy_waiter y w = WaitCalled \<Longrightarrow>
    rg_step y (y\<lparr>sy_waiter := (sy_waiter y)(w := WaitErr Canceled)\<rparr>)"
| wait_snapshot: "sy_waiter y w = WaitCalled \<Longrightarrow>
    rg_step y (y\<lparr>sy_waiter := (sy_waiter y)(w := Selecting (rg_idle (sy_group y)) (sy_launched y))\<rparr>)"
| wait_idle: "sy_waiter y w = Selecting c n \<Longrightarrow> c < length (rg_chans (sy_group y)) \<Longrightarrow>
    rg_chans (sy_group y) ! c \<Longrightarrow> rg_step y (y\<lparr>sy_waiter := (sy_waiter y)(w := WaitNil n)\<rparr>)"
| wait_done: "sy_waiter y w = Selecting c n \<Longrightarrow> e \<in> {Canceled, DeadlineExceeded} \<Longrightarrow>
    rg_step y (y\<lparr>sy_waiter := (sy_waiter y)(w := WaitErr e)\<rparr>)"

inductive_cases rg_stepE: "rg_step y z"

definition rg_start :: "rg_sys \<Rightarrow> bool" where
  "rg_start y \<longleftrightarrow> y = \<lparr>sy_group = newRoutineGroup, sy_launched = 0, sy_finished = {},
     sy_waiter = (\<lambda>_. WaitCalled)\<rparr>"

definition group_inv :: "rg_sys \<Rightarrow> bool" where
  "group_inv y \<longleftrightarrow>
     sy_finished y \<subseteq> {..<sy_launched y} \<and>
     rg_active (sy_group y) = int (sy_launched y) - int (card (sy_finished y)) \<and>
     rg_idle (sy_group y) < length (rg_chans (sy_group y)) \<and>
     (rg_chans (sy_group y) ! rg_idle (sy_group y) \<longleftrightarrow> rg_active (sy_group y) = 0) \<and>
     (\<forall>c < length (rg_chans (sy_group y)). c \<noteq> rg_idle (sy_group y) \<longrightarrow> rg_chans (sy_group y) ! c)"

fun waiter_ok :: "rg_sys \<Rightarrow> wait_pc \<Rightarrow> bool" where
  "waiter_ok y (Selecting c n) \<longleftrightarrow> c < length (rg_chans (sy_group y)) \<and> n \<le> sy_launched y \<and>
     (c \<noteq> rg_idle (sy_group y) \<longrightarrow> {..<n} \<subseteq> sy_finished y)"
| "waiter_ok y (WaitNil n) \<longleftrightarrow> {..<n} \<subseteq> sy_finished y"
| "waiter_ok _ _ \<longleftrightarrow> True"

definition rg_inv :: "rg_sys \<Rightarrow> bool" where
  "rg_inv y \<longleftrightarrow> group_inv y \<and> (\<forall>w. waiter_ok y (sy_waiter y w))"

section \<open>The invariant\<close>

lemma active_zero_iff:
  assumes "group_inv y"
  shows "rg_active (sy_group y) = 0 \<longleftrightarrow> sy_finished y = {..<sy_launched y}"
proof -
  have "card (sy_finished y) = card {..<sy_launched y} \<longleftrightarrow> sy_finished y = {..<sy_launched y}"
    using assms card_subset_eq [of "{..<sy_launched y}" "sy_finished y"] by (auto simp: group_inv_def)
  then show ?thesis
    using assms by (auto simp: group_inv_def)
qed

lemma group_run:
  assumes "group_inv y"
  shows "group_inv (y\<lparr>sy_group := routineGroup_Run (sy_group y), sy_launched := sy_launched y + 1\<rparr>)"
proof -
  have "card (sy_finished y) \<le> sy_launched y"
    using assms card_mono [of "{..<sy_launched y}" "sy_finished y"] by (auto simp: group_inv_def)
  then show ?thesis
    using assms by (auto simp: group_inv_def routineGroup_Run_def Let_def nth_append less_Suc_eq)
qed

lemma group_finish:
  assumes "group_inv y" and "i < sy_launched y" and "i \<notin> sy_finished y"
  shows "\<exists>g. routineGroup_done (sy_group y) = Some g \<and>
    group_inv (y\<lparr>sy_group := g, sy_finished := insert i (sy_finished y)\<rparr>) \<and>
    length (rg_chans g) = length (rg_chans (sy_group y)) \<and> rg_idle g = rg_idle (sy_group y)"
proof -
  have "finite (sy_finished y)"
    using assms(1) finite_subset by (auto simp: group_inv_def)
  then have card: "card (insert i (sy_finished y)) = card (sy_finished y) + 1"
    using assms(3) by simp
  have "rg_active (sy_group y) \<noteq> 0"
    using active_zero_iff [OF assms(1)] assms(2,3) by auto
  then have open_idle: "\<not> rg_chans (sy_group y) ! rg_idle (sy_group y)"
    "rg_idle (sy_group y) < length (rg_chans (sy_group y))"
    using assms(1) by (auto simp: group_inv_def)
  show ?thesis
    using assms open_idle card
    by (cases "rg_active (sy_group y) = 1")
      (auto simp: group_inv_def routineGroup_done_def close_chan_def Let_def nth_list_update)
qed
lemma waiter_run:
  assumes "group_inv y" and "waiter_ok y p"
  shows "waiter_ok (y\<lparr>sy_group := routineGroup_Run (sy_group y), sy_launched := sy_launched y + 1\<rparr>) p"
proof (cases p)
  case (Selecting c n)
  then show ?thesis
    using assms active_zero_iff [OF assms(1)] by (auto simp: routineGroup_Run_def Let_def)
qed (use assms in auto)

lemma waiter_grow:
  assumes "waiter_ok y p" and "length (rg_chans g) = length (rg_chans (sy_group y))"
    and "rg_idle g = rg_idle (sy_group y)" and "sy_finished y \<subseteq> fin"
  shows "waiter_ok (y\<lparr>sy_group := g, sy_finished := fin\<rparr>) p"
  using assms by (cases p) auto

lemma waiter_ok_waiter [simp]: "waiter_ok (y\<lparr>sy_waiter := f\<rparr>) p = waiter_ok y p"
  by (cases p) simp_all

lemma group_inv_waiter [simp]: "group_inv (y\<lparr>sy_waiter := f\<rparr>) = group_inv y"
  by (simp add: group_inv_def)

lemma rg_inv_waiter: "rg_inv y \<Longrightarrow> waiter_ok y p \<Longrightarrow> rg_inv (y\<lparr>sy_waiter := (sy_waiter y)(w := p)\<rparr>)"
  by (simp add: rg_inv_def)

lemma closed_finished:
  assumes "rg_inv y" and "sy_waiter y w = Selecting c n" and "rg_chans (sy_group y) ! c"
  shows "{..<n} \<subseteq> sy_finished y"
proof -
  have ok: "group_inv y" "waiter_ok y (Selecting c n)"
    using assms(1) assms(2)[symmetric] by (auto simp: rg_inv_def)
  show ?thesis
  proof (cases "c = rg_idle (sy_group y)")
    case True
    then have "rg_active (sy_group y) = 0"
      using ok(1) assms(3) by (simp add: group_inv_def)
    then show ?thesis
      using active_zero_iff [OF ok(1)] ok(2) by simp
  next
    case False
    then show ?thesis using ok(2) by simp
  qed
qed

lemma rg_step_inv: "rg_step y z \<Longrightarrow> rg_inv y \<Longrightarrow> rg_inv z"
proof (induction rule: rg_step.induct)
  case (run y)
  then show ?case
    using group_run waiter_run by (simp add: rg_inv_def)
next
  case (finish i y g)
  then show ?case
    using group_finish [of y i] by (auto simp: rg_inv_def intro!: waiter_grow)
next
  case (wait_snapshot y w)
  then show ?case
    by (intro rg_inv_waiter) (auto simp: rg_inv_def group_inv_def)
next
  case (wait_idle y w c n)
  then show ?case
    using closed_finished by (intro rg_inv_waiter) auto
qed (auto intro!: rg_inv_waiter)

interpretation rg: step_system rg_start rg_step rg_inv
proof unfold_locales
  show "rg_start y \<Longrightarrow> rg_inv y" for y
    by (simp add: rg_start_def rg_inv_def group_inv_def newRoutineGroup_def)
qed (rule rg_step_inv)

section \<open>Properties\<close>

text \<open>
  C29: for every interleaving of Run, finishing routines and WaitContext calls, the idle channel
  is closed exactly while no launched routine is unfinished, the deferred \<^verbatim>\<open>done\<close> of a routine
  never closes a channel twice, and a WaitContext that returned nil returned after every routine
  launched before it looked at the group had finished.
\<close>

theorem routineGroup_wait_sound:
  assumes "reachable_from rg_start rg_step y"
  shows "(rg_chans (sy_group y) ! rg_idle (sy_group y) \<longleftrightarrow> sy_finished y = {..<sy_launched y}) \<and>
    (\<forall>i < sy_launched y. i \<notin> sy_finished y \<longrightarrow> routineGroup_done (sy_group y) \<noteq> None) \<and>
    (\<forall>w n. sy_waiter y w = WaitNil n \<longrightarrow> {..<n} \<subseteq> sy_finished y)"
proof -
  have inv: "group_inv y" "\<And>w. waiter_ok y (sy_waiter y w)"
    using rg.invar_reachable [OF assms] by (simp_all add: rg_inv_def)
  have "{..<n} \<subseteq> sy_finished y" if "sy_waiter y w = WaitNil n" for w n
    using inv(2) [of w] that by simp
  moreover have "rg_chans (sy_group y) ! rg_idle (sy_group y) \<longleftrightarrow> sy_finished y = {..<sy_launched y}"
    using active_zero_iff [OF inv(1)] inv(1) by (simp add: group_inv_def)
  ultimately show ?thesis
    using group_finish [OF inv(1)] by blast
qed

text \<open>
  C30: no waiter is left behind: whenever all launched routines have finished, every waiter that
  is still selecting, of whichever generation, holds a closed channel, and the step in which it
  returns nil is enabled.
\<close>

theorem routineGroup_wait_returns:
  assumes "reachable_from rg_start rg_step y" and "sy_waiter y w = Selecting c n"
    and "sy_finished y = {..<sy_launched y}"
  shows "rg_step y (y\<lparr>sy_waiter := (sy_waiter y)(w := WaitNil n)\<rparr>)"
proof (rule wait_idle [OF assms(2)])
  have inv: "group_inv y" "waiter_ok y (Selecting c n)"
    using rg.invar_reachable [OF assms(1)] assms(2)[symmetric] by (simp_all add: rg_inv_def)
  then show "c < length (rg_chans (sy_group y))" by simp
  then show "rg_chans (sy_group y) ! c"
    using inv(1) active_zero_iff [OF inv(1)] assms(3) by (auto simp: group_inv_def)
qed

section \<open>A concrete run\<close>

text \<open>One routine is launched, a waiter snapshots the group, the routine finishes.\<close>

definition waited_group :: rg_sys where
  "waited_group = \<lparr>sy_group = \<lparr>rg_active = 0, rg_idle = 1, rg_chans = [True, True]\<rparr>,
     sy_launched = 1, sy_finished = {0}, sy_waiter = (\<lambda>_. WaitCalled)(0 := Selecting 1 1)\<rparr>"

lemma reach_waited_group: "reachable_from rg_start rg_step waited_group"
proof -
  let ?y = "\<lparr>sy_group = newRoutineGroup, sy_launched = 0, sy_finished = {}, sy_waiter = (\<lambda>_. WaitCalled)\<rparr>"
  let ?g = "\<lparr>rg_active = 1, rg_idle = 1, rg_chans = [True, False]\<rparr>"
  have "reachable_from rg_start rg_step ?y"
    by (rule reach_start) (simp add: rg_start_def)
  from reach_step [OF this run] have a: "reachable_from rg_start rg_step (?y\<lparr>sy_group := ?g, sy_launched := 1\<rparr>)"
    by (simp add: routineGroup_Run_def newRoutineGroup_def Let_def)
  have "reachable_from rg_start rg_step
      (?y\<lparr>sy_group := ?g, sy_launched := 1, sy_waiter := (\<lambda>_. WaitCalled)(0 := Selecting 1 1)\<rparr>)"
    using reach_step [OF a wait_snapshot, of 0] by simp
  from reach_step [OF this finish, of 0] show ?thesis
    by (simp add: routineGroup_done_def close_chan_def Let_def waited_group_def)
qed

theorem routineGroup_wait_sound_witness:
  "rg_chans (sy_group waited_group) ! rg_idle (sy_group waited_group)"
  using routineGroup_wait_sound [OF reach_waited_group] by (simp add: waited_group_def lessThan_Suc)

theorem routineGroup_wait_returns_witness:
  "rg_step waited_group (waited_group\<lparr>sy_waiter := (sy_waiter waited_group)(0 := WaitNil 1)\<rparr>)"
  by (rule routineGroup_wait_returns [OF reach_waited_group, of 0 1 1])
    (simp_all add: waited_group_def lessThan_Suc)

end
