(* ===== verification/Job.thy ===== *)
theory Job
  imports Go_Errors
begin

text \<open>
  The execution envelope of src/job: metadata and its bounds (metadata.go), the options that
  overlay the defaults (option.go) and the message with its validation, settlement callbacks
  and bounded decoding (job.go).

  A \<^verbatim>\<open>map[string]string\<close> is the list of its entries in the order one iteration visits them,
  without repeated keys; nil is \<^const>\<open>None\<close>. A float64 is a rational or one of the three special
  values. Callbacks act on an arbitrary world \<open>'w\<close>: they return an error or panic, and leave
  the world as they want. encoding/json is a parameter of the functions that call it.
\<close>

section \<open>Metadata\<close>

type_synonym string_map = "(string \<times> string) list option"

definition map_entries :: "string_map \<Rightarrow> (string \<times> string) list" where
  "map_entries m = (case m of None \<Rightarrow> [] | Some kvs \<Rightarrow> kvs)"

fun map_put :: "string \<Rightarrow> string \<Rightarrow> (string \<times> string) list \<Rightarrow> (string \<times> string) list" where
  "map_put k v [] = [(k, v)]"
| "map_put k v ((k', v') # kvs) = (if k' = k then (k, v) # kvs else (k', v') # map_put k v kvs)"

definition copy_map :: "string_map \<Rightarrow> string_map" where
  "copy_map m = map_option (\<lambda>kvs. fold (\<lambda>(k, v) clone. map_put k v clone) kvs []) m"

definition MaxMetadataValueBytes :: nat where "MaxMetadataValueBytes = 256"
definition MaxMetadataTags :: nat where "MaxMetadataTags = 32"
definition MaxCorrelationFields :: nat where "MaxCorrelationFields = 3"
definition MaxCorrelationFieldBytes :: nat where "MaxCorrelationFieldBytes = 64"
definition MaxCorrelationValueBytes :: nat where "MaxCorrelationValueBytes = 1024"
definition MaxTraceContextFields :: nat where "MaxTraceContextFields = 16"
definition MaxTraceContextFieldBytes :: nat where "MaxTraceContextFieldBytes = 64"
definition MaxTraceContextBytes :: nat where "MaxTraceContextBytes = 8192"

lemmas metadata_limits =
  MaxMetadataValueBytes_def MaxMetadataTags_def MaxCorrelationFields_def MaxCorrelationFieldBytes_def
  MaxCorrelationValueBytes_def MaxTraceContextFields_def MaxTraceContextFieldBytes_def
  MaxTraceContextBytes_def

record Metadata =
  md_OriginalID :: string
  md_PayloadSchemaVersion :: string
  md_ContentType :: string
  md_EnqueuedAt :: "go_time option"
  md_RetryPolicy :: string
  md_HandlerType :: string
  md_JobType :: string
  md_Tags :: string_map
  md_TraceID :: string
  md_TenantID :: string
  md_ProducerVersion :: string
  md_Correlation :: string_map
  md_TraceContext :: string_map

abbreviation ErrInvalidMessage :: go_err where
  "ErrInvalidMessage \<equiv> sentinel ''job.ErrInvalidMessage''"

definition invalid_message :: error where
  "invalid_message = Some (Wrapped (Some ErrInvalidMessage))"

definition metadata_values :: "Metadata \<Rightarrow> string list" where
  "metadata_values m =
     [md_OriginalID m, md_PayloadSchemaVersion m, md_ContentType m, md_RetryPolicy m, md_HandlerType m,
      md_JobType m, md_TraceID m, md_TenantID m, md_ProducerVersion m]"

fun trace_context_loop :: "nat \<Rightarrow> (string \<times> string) list \<Rightarrow> error" where
  "trace_context_loop traceContextBytes [] = None"
| "trace_context_loop traceContextBytes ((key, v) # kvs) =
     (let traceContextBytes = traceContextBytes + (length key + length v)
      in if TrimSpace key = '''' \<or> TrimSpace v = '''' \<or>
            length key > MaxTraceContextFieldBytes \<or> traceContextBytes > MaxTraceContextBytes
         then invalid_message
         else trace_context_loop traceContextBytes kvs)"

definition Metadata_Validate :: "Metadata \<Rightarrow> error" where
  "Metadata_Validate m =
     (if \<exists>v \<in> set (metadata_values m). v \<noteq> '''' \<and> (TrimSpace v = '''' \<or> length v > MaxMetadataValueBytes)
      then invalid_message
      else if (case md_EnqueuedAt m of None \<Rightarrow> False | Some t \<Rightarrow> IsZero t) then invalid_message
      else if length (map_entries (md_Tags m)) > MaxMetadataTags then invalid_message
      else if \<exists>(key, v) \<in> set (map_entries (md_Tags m)). TrimSpace key = '''' \<or> TrimSpace v = '''' \<or>
                length key > MaxMetadataValueBytes \<or> length v > MaxMetadataValueBytes
      then invalid_message
      else if length (map_entries (md_Correlation m)) > MaxCorrelationFields then invalid_message
      else if \<exists>(key, v) \<in> set (map_entries (md_Correlation m)). TrimSpace key = '''' \<or> TrimSpace v = '''' \<or>
                length key > MaxCorrelationFieldBytes \<or> length v > MaxCorrelationValueBytes
      then invalid_message
      else if length (map_entries (md_TraceContext m)) > MaxTraceContextFields then invalid_message
      else trace_context_loop 0 (map_entries (md_TraceContext m)))"

definition cloneMetadata :: "Metadata option \<Rightarrow> Metadata option" where
  "cloneMetadata metadata =
     map_option (\<lambda>m. m\<lparr>md_Tags := copy_map (md_Tags m), md_Correlation := copy_map (md_Correlation m),
                        md_TraceContext := copy_map (md_TraceContext m)\<rparr>) metadata"

section \<open>Options\<close>

definition Millisecond :: duration where "Millisecond = 1000000"
definition Second :: duration where "Second = 1000000000"
definition Minute :: duration where "Minute = 60000000000"

lemmas duration_units = Millisecond_def Second_def Minute_def

record Options =
  retryCount :: int
  retryDelay :: duration
  retryFactor :: float64
  retryMin :: duration
  retryMax :: duration
  jitter :: bool
  timeout :: duration
  opt_metadata :: "Metadata option"

definition newDefaultOptions :: Options where
  "newDefaultOptions = \<lparr>retryCount = 0, retryDelay = 0, retryFactor = Finite 2,
     retryMin = 100 * Millisecond, retryMax = 10 * Second, jitter = False, timeout = 60 * Minute,
     opt_metadata = None\<rparr>"

record AllowOption =
  allow_RetryCount :: "int option"
  allow_RetryDelay :: "duration option"
  allow_RetryFactor :: "float64 option"
  allow_RetryMin :: "duration option"
  allow_RetryMax :: "duration option"
  allow_Jitter :: "bool option"
  allow_Timeout :: "duration option"
  allow_Metadata :: "Metadata option"

text \<open>\<^verbatim>\<open>if p != nil && *p != current { current = *p }\<close>\<close>

definition overlay :: "('a \<Rightarrow> 'a \<Rightarrow> bool) \<Rightarrow> 'a option \<Rightarrow> 'a \<Rightarrow> 'a" where
  "overlay differs p current =
     (case p of None \<Rightarrow> current | Some v \<Rightarrow> if differs v current then v else current)"

definition NewOptions :: "AllowOption list \<Rightarrow> Options" where
  "NewOptions opts =
     (let o' = newDefaultOptions in
      case opts of [] \<Rightarrow> o'
      | a # _ \<Rightarrow> o'\<lparr>retryCount := overlay (\<noteq>) (allow_RetryCount a) (retryCount o'),
          retryDelay := overlay (\<noteq>) (allow_RetryDelay a) (retryDelay o'),
          timeout := overlay (\<noteq>) (allow_Timeout a) (timeout o'),
          retryFactor := overlay float_neq (allow_RetryFactor a) (retryFactor o'),
          retryMin := overlay (\<noteq>) (allow_RetryMin a) (retryMin o'),
          retryMax := overlay (\<noteq>) (allow_RetryMax a) (retryMax o'),
          jitter := overlay (\<noteq>) (allow_Jitter a) (jitter o'),
          opt_metadata := cloneMetadata (allow_Metadata a)\<rparr>)"

section \<open>Messages\<close>

text \<open>
  A callback on the world; the context a handler receives is part of the world. The type
  parameter of a message is that world.
\<close>

type_synonym 'w callback = "'w \<Rightarrow> error outcome \<times> 'w"

definition callback_nil :: "'w callback" where
  "callback_nil w = (Returns None, w)"

record 'w Message =
  msg_Task :: "'w callback option"
  msg_ack :: "'w callback option"
  msg_nack :: "'w callback option"
  msg_nackFailure :: "(error \<Rightarrow> 'w callback) option"
  msg_Timeout :: duration
  msg_Body :: bytes
  msg_RetryCount :: int
  msg_RetryDelay :: duration
  msg_RetryFactor :: float64
  msg_RetryMin :: duration
  msg_RetryMax :: duration
  msg_Jitter :: bool
  msg_Metadata :: "Metadata option"

definition DefaultMaxMessageBytes :: int where "DefaultMaxMessageBytes = 1024 * 1024"
definition MaxRetryCount :: int where "MaxRetryCount = 100"

abbreviation ErrInvalidMessageLimit :: go_err where
  "ErrInvalidMessageLimit \<equiv> sentinel ''job.ErrInvalidMessageLimit''"

abbreviation ErrMessageTooLarge :: go_err where
  "ErrMessageTooLarge \<equiv> sentinel ''job.ErrMessageTooLarge''"

definition SetAcknowledgement :: "'w callback option \<Rightarrow> 'w callback option \<Rightarrow> 'w Message \<Rightarrow> 'w Message" where
  "SetAcknowledgement ack nack m = m\<lparr>msg_ack := ack, msg_nack := nack, msg_nackFailure := None\<rparr>"

definition SetFailureAcknowledgement ::
  "'w callback option \<Rightarrow> (error \<Rightarrow> 'w callback) option \<Rightarrow> 'w Message \<Rightarrow> 'w Message" where
  "SetFailureAcknowledgement ack nack m = m\<lparr>msg_ack := ack, msg_nack := None, msg_nackFailure := nack\<rparr>"

definition AcknowledgementRequired :: "'w Message \<Rightarrow> bool" where
  "AcknowledgementRequired m \<longleftrightarrow> msg_ack m \<noteq> None \<or> msg_nack m \<noteq> None \<or> msg_nackFailure m \<noteq> None"

definition Ack :: "'w Message \<Rightarrow> 'w callback" where
  "Ack m = (case msg_ack m of None \<Rightarrow> callback_nil | Some ack \<Rightarrow> ack)"

definition Nack :: "'w Message \<Rightarrow> 'w callback" where
  "Nack m =
     (case msg_nack m of Some nack \<Rightarrow> nack
      | None \<Rightarrow> (case msg_nackFailure m of Some nackFailure \<Rightarrow> nackFailure None | None \<Rightarrow> callback_nil))"

definition NackFailure :: "'w Message \<Rightarrow> error \<Rightarrow> 'w callback" where
  "NackFailure m err =
     (case msg_nackFailure m of None \<Rightarrow> Nack m | Some nackFailure \<Rightarrow> nackFailure err)"

definition Message_Validate :: "'w Message \<Rightarrow> error" where
  "Message_Validate m =
     (case (case msg_Metadata m of None \<Rightarrow> None | Some md \<Rightarrow> Metadata_Validate md) of
        Some err \<Rightarrow> Some err
      | None \<Rightarrow>
          if msg_Timeout m \<le> 0 then invalid_message
          else if msg_RetryCount m < 0 \<or> msg_RetryCount m > MaxRetryCount then invalid_message
          else if msg_RetryDelay m < 0 then invalid_message
          else if msg_RetryCount m = 0 \<or> msg_RetryDelay m > 0 then None
          else if float_special (msg_RetryFactor m) \<or> float_less (msg_RetryFactor m) 1 then invalid_message
          else if msg_RetryMin m \<le> 0 then invalid_message
          else if msg_RetryMax m < msg_RetryMin m then invalid_message
          else None)"

definition Payload :: "'w Message \<Rightarrow> bytes" where
  "Payload m = msg_Body m"

definition CorrelationMetadata :: "'w Message option \<Rightarrow> string_map" where
  "CorrelationMetadata m =
     (case m of None \<Rightarrow> None
      | Some m \<Rightarrow> (case msg_Metadata m of None \<Rightarrow> None | Some md \<Rightarrow> copy_map (md_Correlation md)))"

definition TraceContextMetadata :: "'w Message option \<Rightarrow> string_map" where
  "TraceContextMetadata m =
     (case m of None \<Rightarrow> None
      | Some m \<Rightarrow> (case msg_Metadata m of None \<Rightarrow> None | Some md \<Rightarrow> copy_map (md_TraceContext md)))"

definition Message_Bytes :: "('w Message \<Rightarrow> go_err + bytes) \<Rightarrow> 'w Message \<Rightarrow> bytes option" where
  "Message_Bytes marshalJSON m = (case marshalJSON m of Inl err \<Rightarrow> None | Inr b \<Rightarrow> Some b)"

definition NewMessage :: "bytes \<Rightarrow> AllowOption list \<Rightarrow> 'w Message" where
  "NewMessage body opts =
     (let o' = NewOptions opts in
      \<lparr>msg_Task = None, msg_ack = None, msg_nack = None, msg_nackFailure = None,
       msg_Timeout = timeout o', msg_Body = body, msg_RetryCount = retryCount o',
       msg_RetryDelay = retryDelay o', msg_RetryFactor = retryFactor o', msg_RetryMin = retryMin o',
       msg_RetryMax = retryMax o', msg_Jitter = jitter o', msg_Metadata = opt_metadata o'\<rparr>)"

definition NewTask :: "'w callback option \<Rightarrow> AllowOption list \<Rightarrow> 'w Message" where
  "NewTask task opts =
     (let o' = NewOptions opts in
      \<lparr>msg_Task = task, msg_ack = None, msg_nack = None, msg_nackFailure = None,
       msg_Timeout = timeout o', msg_Body = [], msg_RetryCount = retryCount o',
       msg_RetryDelay = retryDelay o', msg_RetryFactor = retryFactor o', msg_RetryMin = retryMin o',
       msg_RetryMax = retryMax o', msg_Jitter = jitter o', msg_Metadata = opt_metadata o'\<rparr>)"

definition Encode :: "('w Message option \<Rightarrow> go_err + bytes) \<Rightarrow> 'w Message option \<Rightarrow> bytes option" where
  "Encode marshalJSON m = (case marshalJSON m of Inl err \<Rightarrow> None | Inr b \<Rightarrow> Some b)"

definition DecodeE :: "(bytes \<Rightarrow> go_err + 'w Message) \<Rightarrow> bytes \<Rightarrow> int \<Rightarrow> go_err + 'w Message" where
  "DecodeE unmarshal b maxBytes =
     (if maxBytes \<le> 0 then Inl ErrInvalidMessageLimit
      else if int (length b) > maxBytes then Inl (Wrapped (Some ErrMessageTooLarge))
      else case unmarshal b of
          Inl err \<Rightarrow> Inl (Wrapped (Some err))
        | Inr msg \<Rightarrow> (case Message_Validate msg of Some err \<Rightarrow> Inl err | None \<Rightarrow> Inr msg))"

definition Decode :: "(bytes \<Rightarrow> go_err + 'w Message) \<Rightarrow> bytes \<Rightarrow> 'w Message option" where
  "Decode unmarshal b =
     (case DecodeE unmarshal b DefaultMaxMessageBytes of Inl err \<Rightarrow> None | Inr msg \<Rightarrow> Some msg)"

section \<open>What the validations accept\<close>

definition text_bounded :: "nat \<Rightarrow> string \<Rightarrow> bool" where
  "text_bounded n v \<longleftrightarrow> TrimSpace v \<noteq> '''' \<and> length v \<le> n"

definition entries_bounded :: "nat \<Rightarrow> nat \<Rightarrow> (string \<times> string) list \<Rightarrow> bool" where
  "entries_bounded nk nv kvs \<longleftrightarrow> (\<forall>(k, v) \<in> set kvs. text_bounded nk k \<and> text_bounded nv v)"

definition carrier_bytes :: "(string \<times> string) list \<Rightarrow> nat" where
  "carrier_bytes kvs = sum_list (map (\<lambda>(k, v). length k + length v) kvs)"

definition metadata_bounded :: "Metadata \<Rightarrow> bool" where
  "metadata_bounded m \<longleftrightarrow>
     (\<forall>v \<in> set (metadata_values m). v = '''' \<or> text_bounded 256 v) \<and>
     (\<forall>t. md_EnqueuedAt m = Some t \<longrightarrow> nanos t \<noteq> 0) \<and>
     length (map_entries (md_Tags m)) \<le> 32 \<and> entries_bounded 256 256 (map_entries (md_Tags m)) \<and>
     length (map_entries (md_Correlation m)) \<le> 3 \<and>
     entries_bounded 64 1024 (map_entries (md_Correlation m)) \<and>
     length (map_entries (md_TraceContext m)) \<le> 16 \<and>
     entries_bounded 64 8192 (map_entries (md_TraceContext m)) \<and>
     carrier_bytes (map_entries (md_TraceContext m)) \<le> 8192"

definition retry_bounded :: "'w Message \<Rightarrow> bool" where
  "retry_bounded m \<longleftrightarrow>
     0 < msg_Timeout m \<and> 0 \<le> msg_RetryCount m \<and> msg_RetryCount m \<le> 100 \<and> 0 \<le> msg_RetryDelay m \<and>
     (msg_RetryCount m > 0 \<and> msg_RetryDelay m = 0 \<longrightarrow>
        (\<exists>f. msg_RetryFactor m = Finite f \<and> 1 \<le> f) \<and> 0 < msg_RetryMin m \<and>
        msg_RetryMin m \<le> msg_RetryMax m)"

text \<open>Two metadata values that differ at most in the order their maps are iterated in.\<close>

definition same_map :: "string_map \<Rightarrow> string_map \<Rightarrow> bool" where
  "same_map m m' \<longleftrightarrow> mset (map_entries m) = mset (map_entries m')"

definition same_metadata :: "Metadata \<Rightarrow> Metadata \<Rightarrow> bool" where
  "same_metadata m m' \<longleftrightarrow>
     metadata_values m = metadata_values m' \<and> md_EnqueuedAt m = md_EnqueuedAt m' \<and>
     same_map (md_Tags m) (md_Tags m') \<and> same_map (md_Correlation m) (md_Correlation m') \<and>
     same_map (md_TraceContext m) (md_TraceContext m')"

lemma carrier_bytes_simps [simp]:
  "carrier_bytes [] = 0" "carrier_bytes ((k, v) # kvs) = length k + length v + carrier_bytes kvs"
  by (simp_all add: carrier_bytes_def)

lemma entries_bounded_simps [simp]:
  "entries_bounded nk nv []"
  "entries_bounded nk nv ((k, v) # kvs) \<longleftrightarrow> text_bounded nk k \<and> text_bounded nv v \<and> entries_bounded nk nv kvs"
  by (auto simp: entries_bounded_def)

lemma trace_context_loop_iff:
  "trace_context_loop n kvs =
     (if (n \<le> 8192 \<or> kvs = []) \<and> entries_bounded 64 8192 kvs \<and> (kvs \<noteq> [] \<longrightarrow> n + carrier_bytes kvs \<le> 8192)
      then None else invalid_message)"
  by (induction n kvs rule: trace_context_loop.induct)
    (auto simp: Let_def text_bounded_def metadata_limits)

lemma entries_bounded_not:
  "\<not> entries_bounded nk nv kvs \<longleftrightarrow>
     (\<exists>(key, v) \<in> set kvs. TrimSpace key = '''' \<or> TrimSpace v = '''' \<or> length key > nk \<or> length v > nv)"
  by (fastforce simp: entries_bounded_def text_bounded_def)

lemma trace_context_verdict:
  "trace_context_loop 0 kvs =
     (if entries_bounded 64 8192 kvs \<and> carrier_bytes kvs \<le> 8192 then None else invalid_message)"
  by (auto simp: trace_context_loop_iff)

lemma Metadata_Validate_verdict:
  "Metadata_Validate m = (if metadata_bounded m then None else invalid_message)"
proof -
  define blank where "blank \<longleftrightarrow>
    (\<exists>v \<in> set (metadata_values m). v \<noteq> '''' \<and> (TrimSpace v = '''' \<or> length v > 256))"
  have vals: "(\<forall>v \<in> set (metadata_values m). v = '''' \<or> text_bounded 256 v) \<longleftrightarrow> \<not> blank"
    by (auto simp: text_bounded_def not_less blank_def)
  have time: "(\<forall>t. md_EnqueuedAt m = Some t \<longrightarrow> nanos t \<noteq> 0) \<longleftrightarrow>
      \<not> (case md_EnqueuedAt m of None \<Rightarrow> False | Some t \<Rightarrow> IsZero t)"
    by (simp add: IsZero_def split: option.split)
  show ?thesis
    unfolding Metadata_Validate_def metadata_bounded_def metadata_limits blank_def [symmetric] vals time
      trace_context_verdict entries_bounded_not [symmetric]
    by (simp add: not_less)
qed

lemma Message_Validate_verdict:
  "Message_Validate m =
     (if (\<forall>md. msg_Metadata m = Some md \<longrightarrow> metadata_bounded md) \<and> retry_bounded m
      then None else invalid_message)"
proof -
  have float: "(float_special f \<or> float_less f 1) \<longleftrightarrow>
      \<not> (\<exists>x. f = Finite x \<and> 1 \<le> x)" for f
    by (cases f) (auto simp: float_special_def)
  have some: "invalid_message \<noteq> None"
    by (simp add: invalid_message_def)
  show ?thesis
    unfolding Message_Validate_def float
    by (cases "msg_Metadata m"; simp add: Metadata_Validate_verdict retry_bounded_def MaxRetryCount_def)
      (auto simp: invalid_message_def)
qed

lemma same_map_facts:
  assumes "same_map m m'"
  shows "length (map_entries m) = length (map_entries m')"
    and "entries_bounded nk nv (map_entries m) = entries_bounded nk nv (map_entries m')"
    and "carrier_bytes (map_entries m) = carrier_bytes (map_entries m')"
proof -
  have mset: "mset (map_entries m) = mset (map_entries m')"
    using assms by (simp add: same_map_def)
  then show "length (map_entries m) = length (map_entries m')"
    by (rule mset_eq_length)
  show "entries_bounded nk nv (map_entries m) = entries_bounded nk nv (map_entries m')"
    using mset_eq_setD [OF mset] by (simp add: entries_bounded_def)
  show "carrier_bytes (map_entries m) = carrier_bytes (map_entries m')"
    unfolding carrier_bytes_def sum_mset_sum_list [symmetric] mset_map mset ..
qed

lemma map_put_fresh: "k \<notin> fst ` set kvs \<Longrightarrow> map_put k v kvs = kvs @ [(k, v)]"
  by (induction kvs) auto

lemma fold_map_put:
  "distinct (map fst (acc @ kvs)) \<Longrightarrow> fold (\<lambda>(k, v) clone. map_put k v clone) kvs acc = acc @ kvs"
proof (induction kvs arbitrary: acc)
  case (Cons kv kvs)
  obtain k v where kv: "kv = (k, v)" by (cases kv)
  have "map_put k v acc = acc @ [(k, v)]"
    using Cons.prems kv by (intro map_put_fresh) auto
  then show ?case
    using Cons.IH [of "acc @ [(k, v)]"] Cons.prems kv by simp
qed simp

definition map_keys_distinct :: "string_map \<Rightarrow> bool" where
  "map_keys_distinct m \<longleftrightarrow> distinct (map fst (map_entries m))"

lemma copy_map_id: "map_keys_distinct m \<Longrightarrow> copy_map m = m"
  using fold_map_put [of "[]"] by (cases m) (simp_all add: copy_map_def map_keys_distinct_def map_entries_def)

definition metadata_maps_wf :: "Metadata \<Rightarrow> bool" where
  "metadata_maps_wf m \<longleftrightarrow> map_keys_distinct (md_Tags m) \<and> map_keys_distinct (md_Correlation m) \<and>
     map_keys_distinct (md_TraceContext m)"

lemma cloneMetadata_id: "(\<And>m. md = Some m \<Longrightarrow> metadata_maps_wf m) \<Longrightarrow> cloneMetadata md = md"
  by (cases md) (simp_all add: cloneMetadata_def metadata_maps_wf_def copy_map_id)

lemma overlay_neq: "overlay (\<noteq>) p current = (case p of None \<Rightarrow> current | Some v \<Rightarrow> v)"
  by (simp add: overlay_def split: option.split)

lemma overlay_bool: "overlay (\<lambda>x y. x = (\<not> y)) p current = (case p of None \<Rightarrow> current | Some v \<Rightarrow> v)"
  by (auto simp: overlay_def split: option.split)

lemma overlay_float: "overlay float_neq p (Finite x) = (case p of None \<Rightarrow> Finite x | Some v \<Rightarrow> v)"
  by (auto simp: overlay_def split: option.split elim: float_neq.elims)

section \<open>Properties\<close>

text \<open>
  the verdict of Metadata.Validate does not depend on the order in which Go happens to
  iterate the tag, correlation and trace-context maps, although the code stops at the first
  offending entry and adds up the carrier size as it goes; and it accepts exactly the metadata
  whose every bound holds, the total size of the trace context included.
\<close>

theorem Metadata_Validate_order_independent:
  assumes "same_metadata m m'"
  shows "Metadata_Validate m = Metadata_Validate m' \<and>
    Metadata_Validate m = (if metadata_bounded m then None else invalid_message)"
  using assms same_map_facts [of "md_Tags m" "md_Tags m'"]
    same_map_facts [of "md_Correlation m" "md_Correlation m'"]
    same_map_facts [of "md_TraceContext m" "md_TraceContext m'"]
  by (simp add: Metadata_Validate_verdict metadata_bounded_def same_metadata_def)

text \<open>
  DecodeE returns a message exactly when the limit is positive, the input is no longer than
  the limit, the JSON decoder accepts it and the decoded message is within its bounds: a positive
  timeout, between 0 and 100 retries, a usable backoff where one is needed, bounded metadata.
\<close>

theorem DecodeE_accepts:
  "DecodeE unmarshal b maxBytes = Inr m \<longleftrightarrow>
     0 < maxBytes \<and> int (length b) \<le> maxBytes \<and> unmarshal b = Inr m \<and> retry_bounded m \<and>
     (\<forall>md. msg_Metadata m = Some md \<longrightarrow> metadata_bounded md)"
  by (auto simp: DecodeE_def Message_Validate_verdict invalid_message_def split: sum.split if_splits)

text \<open>
  NewOptions, and the messages built from it, use the first option only; every field
  that option sets is taken over and every other field has its documented default; the metadata
  copy is equal to the original. Without options the message is valid.
\<close>

theorem NewMessage_options:
  assumes "\<And>md. allow_Metadata a = Some md \<Longrightarrow> metadata_maps_wf md"
  shows "NewMessage body (a # rest) =
    \<lparr>msg_Task = None, msg_ack = None, msg_nack = None, msg_nackFailure = None,
     msg_Timeout = (case allow_Timeout a of None \<Rightarrow> 3600000000000 | Some t \<Rightarrow> t),
     msg_Body = body,
     msg_RetryCount = (case allow_RetryCount a of None \<Rightarrow> 0 | Some n \<Rightarrow> n),
     msg_RetryDelay = (case allow_RetryDelay a of None \<Rightarrow> 0 | Some d \<Rightarrow> d),
     msg_RetryFactor = (case allow_RetryFactor a of None \<Rightarrow> Finite 2 | Some f \<Rightarrow> f),
     msg_RetryMin = (case allow_RetryMin a of None \<Rightarrow> 100000000 | Some d \<Rightarrow> d),
     msg_RetryMax = (case allow_RetryMax a of None \<Rightarrow> 10000000000 | Some d \<Rightarrow> d),
     msg_Jitter = (case allow_Jitter a of None \<Rightarrow> False | Some j \<Rightarrow> j),
     msg_Metadata = allow_Metadata a\<rparr> \<and>
   NewTask task (a # rest) = (NewMessage [] (a # rest))\<lparr>msg_Task := task\<rparr> \<and>
   Message_Validate (NewMessage body [] :: 'w Message) = None"
  using cloneMetadata_id [OF assms]
  by (simp add: NewMessage_def NewTask_def NewOptions_def newDefaultOptions_def duration_units overlay_neq
      overlay_bool overlay_float Let_def Message_Validate_verdict retry_bounded_def cong: option.case_cong)

text \<open>
  Settlement goes through the callbacks attached last: after SetFailureAcknowledgement a
  rejection carries the handler's error to the new callback and never reaches an older plain
  nack; after SetAcknowledgement it reaches the plain nack and never an older failure callback;
  a missing callback settles without effect and without error.
\<close>

lemma settlement_last_setter:
  "Ack (SetFailureAcknowledgement ack nackf m) w = (case ack of None \<Rightarrow> (Returns None, w) | Some f \<Rightarrow> f w) \<and>
   NackFailure (SetFailureAcknowledgement ack nackf m) err w =
     (case nackf of None \<Rightarrow> (Returns None, w) | Some f \<Rightarrow> f err w) \<and>
   Nack (SetFailureAcknowledgement ack nackf m) w =
     (case nackf of None \<Rightarrow> (Returns None, w) | Some f \<Rightarrow> f None w) \<and>
   Ack (SetAcknowledgement ack nack m) w = (case ack of None \<Rightarrow> (Returns None, w) | Some f \<Rightarrow> f w) \<and>
   NackFailure (SetAcknowledgement ack nack m) err w =
     (case nack of None \<Rightarrow> (Returns None, w) | Some f \<Rightarrow> f w) \<and>
   (AcknowledgementRequired (SetAcknowledgement ack nack m) \<longleftrightarrow> ack \<noteq> None \<or> nack \<noteq> None) \<and>
   (AcknowledgementRequired (SetFailureAcknowledgement ack nackf m) \<longleftrightarrow> ack \<noteq> None \<or> nackf \<noteq> None)"
  by (simp add: Ack_def Nack_def NackFailure_def SetAcknowledgement_def SetFailureAcknowledgement_def
      AcknowledgementRequired_def callback_nil_def split: option.split)

section \<open>Concrete inputs\<close>

definition sample_metadata :: "(string \<times> string) list \<Rightarrow> Metadata" where
  "sample_metadata tags = \<lparr>md_OriginalID = ''order-7'', md_PayloadSchemaVersion = '''', md_ContentType = '''',
     md_EnqueuedAt = None, md_RetryPolicy = '''', md_HandlerType = '''', md_JobType = '''',
     md_Tags = Some tags, md_TraceID = '''', md_TenantID = '''', md_ProducerVersion = '''',
     md_Correlation = None, md_TraceContext = None\<rparr>"

definition sample_option :: AllowOption where
  "sample_option = \<lparr>allow_RetryCount = Some 3, allow_RetryDelay = None, allow_RetryFactor = None,
     allow_RetryMin = None, allow_RetryMax = None, allow_Jitter = None, allow_Timeout = Some 5,
     allow_Metadata = Some (sample_metadata [(''a'', ''x''), (''b'', ''y'')])\<rparr>"

theorem Metadata_Validate_order_independent_witness:
  "Metadata_Validate (sample_metadata [(''a'', ''x''), (''b'', ''y'')]) =
   Metadata_Validate (sample_metadata [(''b'', ''y''), (''a'', ''x'')])"
  using Metadata_Validate_order_independent
    [of "sample_metadata [(''a'', ''x''), (''b'', ''y'')]" "sample_metadata [(''b'', ''y''), (''a'', ''x'')]"]
  by (simp add: same_metadata_def same_map_def map_entries_def sample_metadata_def metadata_values_def
      add_mset_commute)

theorem DecodeE_accepts_witness:
  "DecodeE (\<lambda>b. Inr (NewMessage b [] :: nat Message)) ''{}'' 10 = Inr (NewMessage ''{}'' [])"
  unfolding DecodeE_accepts
  by (simp add: NewMessage_def NewOptions_def newDefaultOptions_def duration_units retry_bounded_def Let_def)

theorem NewMessage_options_witness:
  "msg_RetryCount (NewMessage ''payload'' [sample_option, sample_option\<lparr>allow_RetryCount := Some 9\<rparr>] :: nat Message) = 3"
proof -
  have "metadata_maps_wf md" if "allow_Metadata sample_option = Some md" for md
    using that by (auto simp: sample_option_def sample_metadata_def metadata_maps_wf_def
        map_keys_distinct_def map_entries_def)
  then show ?thesis
    by (subst NewMessage_options [THEN conjunct1]) (simp_all add: sample_option_def)
qed

end
