(* ===== verification/Protocol.thy ===== *)
theory Protocol
  imports Go_Prelude
begin

text \<open>
  Protocol versions and capability negotiation, src/management/protocol.go. A Go map is
  iterated in an unspecified order: the iteration is the parameter \<open>iter\<close>, and what the
  language promises about it is \<open>map_range\<close>.
\<close>

section \<open>Versions\<close>

datatype ProtocolVersion = ProtocolVersion (Major: "16 word") (Minor: "16 word")

definition zero_version :: ProtocolVersion where
  "zero_version = ProtocolVersion 0 0"

record ProtocolRange =
  Minimum :: ProtocolVersion
  Maximum :: ProtocolVersion

definition compareVersion :: "ProtocolVersion \<Rightarrow> ProtocolVersion \<Rightarrow> int" where
  "compareVersion left right =
     (if Major left < Major right then -1
      else if Major left > Major right then 1
      else if Minor left < Minor right then -1
      else if Minor left > Minor right then 1
      else 0)"

datatype CompatibilityState =
    CompatibilityCompatible
  | CompatibilityWorkerOlder
  | CompatibilityWorkerNewer
  | CompatibilityUnknown

definition classifyCompatibility :: "ProtocolRange \<Rightarrow> ProtocolVersion \<Rightarrow> CompatibilityState" where
  "classifyCompatibility supported worker =
     (if compareVersion (Minimum supported) (Maximum supported) > 0 \<or> worker = zero_version
      then CompatibilityUnknown
      else if compareVersion worker (Minimum supported) < 0 then CompatibilityWorkerOlder
      else if compareVersion worker (Maximum supported) > 0 then CompatibilityWorkerNewer
      else CompatibilityCompatible)"

instantiation ProtocolVersion :: linorder
begin

definition less_eq_ProtocolVersion :: "ProtocolVersion \<Rightarrow> ProtocolVersion \<Rightarrow> bool" where
  "less_eq_ProtocolVersion v w \<longleftrightarrow> Major v < Major w \<or> Major v = Major w \<and> Minor v \<le> Minor w"

definition less_ProtocolVersion :: "ProtocolVersion \<Rightarrow> ProtocolVersion \<Rightarrow> bool" where
  "less_ProtocolVersion v w \<longleftrightarrow> Major v < Major w \<or> Major v = Major w \<and> Minor v < Minor w"

instance
  by standard (auto simp: less_eq_ProtocolVersion_def less_ProtocolVersion_def ProtocolVersion.expand)

end

lemma compareVersion_order:
  "compareVersion v w < 0 \<longleftrightarrow> v < w" "compareVersion v w > 0 \<longleftrightarrow> w < v" "compareVersion v w = 0 \<longleftrightarrow> v = w"
  by (auto simp: compareVersion_def less_ProtocolVersion_def ProtocolVersion.expand)

section \<open>Capabilities\<close>

type_synonym Capability = string

definition CapabilityWorkerStatus :: Capability where "CapabilityWorkerStatus = ''worker_status''"
definition CapabilityQueueStatus :: Capability where "CapabilityQueueStatus = ''queue_status''"
definition CapabilityPause :: Capability where "CapabilityPause = ''pause''"
definition CapabilityResume :: Capability where "CapabilityResume = ''resume''"
definition CapabilityDrain :: Capability where "CapabilityDrain = ''drain''"
definition CapabilityTerminate :: Capability where "CapabilityTerminate = ''terminate''"
definition CapabilityFailures :: Capability where "CapabilityFailures = ''failures''"
definition CapabilityDeadLetters :: Capability where "CapabilityDeadLetters = ''dead_letters''"
definition CapabilityRetry :: Capability where "CapabilityRetry = ''retry''"
definition CapabilityBulkRetry :: Capability where "CapabilityBulkRetry = ''bulk_retry''"
definition CapabilityDelete :: Capability where "CapabilityDelete = ''delete''"
definition CapabilityPurge :: Capability where "CapabilityPurge = ''purge''"
definition CapabilityReplay :: Capability where "CapabilityReplay = ''replay''"
definition CapabilityRetentionCount :: Capability where "CapabilityRetentionCount = ''retention_count''"
definition CapabilityRetentionTime :: Capability where "CapabilityRetentionTime = ''retention_time''"
definition CapabilityRetentionBytes :: Capability where "CapabilityRetentionBytes = ''retention_bytes''"

record Compatibility =
  comp_State :: CompatibilityState
  comp_Enabled :: "Capability list"
  comp_WorkerOnly :: "Capability list"
  comp_ControlPlaneOnly :: "Capability list"

definition capabilitySet :: "Capability list \<Rightarrow> Capability set" where
  "capabilitySet capabilities = fold insert capabilities {}"

definition negotiate_worker ::
  "CompatibilityState \<Rightarrow> Capability set \<Rightarrow> Capability \<Rightarrow> Compatibility \<Rightarrow> Compatibility" where
  "negotiate_worker state controlPlaneSet capability result =
     (if capability \<in> controlPlaneSet
      then (if state = CompatibilityCompatible
            then result\<lparr>comp_Enabled := comp_Enabled result @ [capability]\<rparr> else result)
      else result\<lparr>comp_WorkerOnly := comp_WorkerOnly result @ [capability]\<rparr>)"

definition negotiate_control :: "Capability set \<Rightarrow> Capability \<Rightarrow> Compatibility \<Rightarrow> Compatibility" where
  "negotiate_control workerSet capability result =
     (if capability \<notin> workerSet
      then result\<lparr>comp_ControlPlaneOnly := comp_ControlPlaneOnly result @ [capability]\<rparr> else result)"

definition Negotiate ::
  "(Capability set \<Rightarrow> Capability list) \<Rightarrow> ProtocolRange \<Rightarrow> ProtocolVersion \<Rightarrow>
    Capability list \<Rightarrow> Capability list \<Rightarrow> Compatibility" where
  "Negotiate iter supported worker workerCapabilities controlPlaneCapabilities =
     (let state = classifyCompatibility supported worker;
          workerSet = capabilitySet workerCapabilities;
          controlPlaneSet = capabilitySet controlPlaneCapabilities;
          result = \<lparr>comp_State = state, comp_Enabled = [], comp_WorkerOnly = [],
                    comp_ControlPlaneOnly = []\<rparr>;
          result = fold (negotiate_worker state controlPlaneSet) (iter workerSet) result;
          result = fold (negotiate_control workerSet) (iter controlPlaneSet) result
      in result\<lparr>comp_Enabled := sort (comp_Enabled result), comp_WorkerOnly := sort (comp_WorkerOnly result),
                comp_ControlPlaneOnly := sort (comp_ControlPlaneOnly result)\<rparr>)"

definition map_range :: "(Capability set \<Rightarrow> Capability list) \<Rightarrow> bool" where
  "map_range iter \<longleftrightarrow> (\<forall>S. finite S \<longrightarrow> distinct (iter S) \<and> set (iter S) = S)"

lemma capabilitySet_set [simp]: "capabilitySet xs = set xs"
  by (simp add: capabilitySet_def union_set_fold [symmetric])

lemma fold_negotiate_worker:
  "fold (negotiate_worker state S) xs result =
     result\<lparr>comp_Enabled := comp_Enabled result @
              (if state = CompatibilityCompatible then filter (\<lambda>c. c \<in> S) xs else []),
            comp_WorkerOnly := comp_WorkerOnly result @ filter (\<lambda>c. c \<notin> S) xs\<rparr>"
  by (induction xs arbitrary: result) (simp_all add: negotiate_worker_def)

lemma fold_negotiate_control:
  "fold (negotiate_control S) xs result =
     result\<lparr>comp_ControlPlaneOnly := comp_ControlPlaneOnly result @ filter (\<lambda>c. c \<notin> S) xs\<rparr>"
  by (induction xs arbitrary: result) (simp_all add: negotiate_control_def)

lemma sort_filter_range:
  assumes "map_range iter" and "finite S"
  shows "sort (filter P (iter S)) = sorted_list_of_set {c \<in> S. P c}"
proof -
  have "sorted_list_of_set (set (filter P (iter S))) = sort (remdups (filter P (iter S)))"
    by (rule sorted_list_of_set_sort_remdups)
  then show ?thesis
    using assms by (simp add: map_range_def distinct_remdups_id)
qed

text \<open>
  Negotiate gives the same answer for every iteration order of the two capability
  sets: the state compares the worker's version with the supported range (lexicographically,
  major first), the enabled capabilities are the sorted, duplicate-free intersection for
  a compatible worker and empty otherwise, and the one-sided lists are the sorted differences.
\<close>

theorem Negotiate_deterministic:
  assumes "map_range iter"
  shows "Negotiate iter supported worker ws cs =
    \<lparr>comp_State =
       (if Maximum supported < Minimum supported \<or> worker = zero_version then CompatibilityUnknown
        else if worker < Minimum supported then CompatibilityWorkerOlder
        else if worker > Maximum supported then CompatibilityWorkerNewer
        else CompatibilityCompatible),
     comp_Enabled =
       (if Minimum supported \<le> worker \<and> worker \<le> Maximum supported \<and> worker \<noteq> zero_version
        then sorted_list_of_set (set ws \<inter> set cs) else []),
     comp_WorkerOnly = sorted_list_of_set (set ws - set cs),
     comp_ControlPlaneOnly = sorted_list_of_set (set cs - set ws)\<rparr>"
proof -
  have state: "classifyCompatibility supported worker = CompatibilityCompatible \<longleftrightarrow>
      Minimum supported \<le> worker \<and> worker \<le> Maximum supported \<and> worker \<noteq> zero_version"
    by (auto simp: classifyCompatibility_def compareVersion_order)
  show ?thesis
    unfolding Negotiate_def Let_def fold_negotiate_worker fold_negotiate_control state
    by (simp add: sort_filter_range [OF assms] Int_def set_diff_eq classifyCompatibility_def
        compareVersion_order)
qed

theorem Negotiate_deterministic_witness:
  "comp_Enabled (Negotiate sorted_list_of_set
      \<lparr>Minimum = ProtocolVersion 1 0, Maximum = ProtocolVersion 2 0\<rparr> (ProtocolVersion 1 7)
      [''retry'', ''pause'', ''retry''] [''pause'', ''purge'', ''retry'']) = [''pause'', ''retry'']"
proof -
  have "map_range sorted_list_of_set"
    by (simp add: map_range_def)
  then show ?thesis
    by (simp add: Negotiate_deterministic less_eq_ProtocolVersion_def zero_version_def insert_commute)
qed

end
