(* ===== verification/Control.thy ===== *)
theory Control
  imports Classification Protocol
begin

text \<open>
  The command envelope and its result, src/management/control.go, and the sentinels of
  src/management/errors.go. A Go string type with constants is a datatype with one more
  constructor for every other string, the empty string included.
\<close>

section \<open>Enumerations\<close>

definition MaxReasonBytes :: nat where "MaxReasonBytes = 1024"
definition MaxBulkSelection :: "32 word" where "MaxBulkSelection = 1000"

datatype CommandAction =
    CommandPause | CommandResume | CommandDrain | CommandTerminate | CommandRetry | CommandBulkRetry
  | CommandDelete | CommandPurge | CommandReplay | OtherAction string

datatype TargetKind =
    TargetQueue | TargetWorker | TargetWorkerGroup | TargetFailure | TargetDeadLetter | OtherTarget string

datatype Target = Target (target_Kind: TargetKind) (target_Name: string)

datatype ReplayPolicy = ReplayRejectDuplicate | ReplayReplaceDuplicate | OtherPolicy string

datatype CommandResultStatus =
    CommandAcknowledged | CommandRejected | CommandFailed | CommandUnsupported | CommandTimedOut
  | CommandPartial | CommandUnknown | OtherStatus string

fun action_valid :: "CommandAction \<Rightarrow> bool" where
  "action_valid (OtherAction _) \<longleftrightarrow> False"
| "action_valid _ \<longleftrightarrow> True"

fun action_supports :: "CommandAction \<Rightarrow> TargetKind \<Rightarrow> bool" where
  "action_supports CommandPause t \<longleftrightarrow> t = TargetQueue \<or> t = TargetWorkerGroup"
| "action_supports CommandResume t \<longleftrightarrow> t = TargetQueue \<or> t = TargetWorkerGroup"
| "action_supports CommandDrain t \<longleftrightarrow> t = TargetWorker \<or> t = TargetWorkerGroup"
| "action_supports CommandTerminate t \<longleftrightarrow> t = TargetWorker \<or> t = TargetWorkerGroup"
| "action_supports CommandRetry t \<longleftrightarrow> t = TargetFailure \<or> t = TargetDeadLetter"
| "action_supports CommandBulkRetry t \<longleftrightarrow> t = TargetFailure \<or> t = TargetDeadLetter"
| "action_supports CommandDelete t \<longleftrightarrow> t = TargetFailure \<or> t = TargetDeadLetter"
| "action_supports CommandReplay t \<longleftrightarrow> t = TargetFailure \<or> t = TargetDeadLetter"
| "action_supports CommandPurge t \<longleftrightarrow> t = TargetQueue \<or> t = TargetFailure \<or> t = TargetDeadLetter"
| "action_supports (OtherAction _) t \<longleftrightarrow> False"

fun target_valid :: "TargetKind \<Rightarrow> bool" where
  "target_valid (OtherTarget _) \<longleftrightarrow> False"
| "target_valid _ \<longleftrightarrow> True"

fun policy_valid :: "ReplayPolicy \<Rightarrow> bool" where
  "policy_valid (OtherPolicy _) \<longleftrightarrow> False"
| "policy_valid _ \<longleftrightarrow> True"

fun status_valid :: "CommandResultStatus \<Rightarrow> bool" where
  "status_valid (OtherStatus _) \<longleftrightarrow> False"
| "status_valid _ \<longleftrightarrow> True"

fun requiresFailureCode :: "CommandResultStatus \<Rightarrow> bool" where
  "requiresFailureCode CommandAcknowledged \<longleftrightarrow> False"
| "requiresFailureCode CommandUnknown \<longleftrightarrow> False"
| "requiresFailureCode _ \<longleftrightarrow> True"

section \<open>Commands\<close>

record ReplayOptions =
  Destination :: string
  IdempotencyPolicy :: ReplayPolicy

record Command =
  cmd_ID :: string
  cmd_IdempotencyKey :: string
  cmd_Actor :: string
  cmd_Reason :: string
  cmd_Protocol :: ProtocolVersion
  cmd_Action :: CommandAction
  cmd_Target :: Target
  cmd_RequestedAt :: go_time
  cmd_Deadline :: go_time
  cmd_Confirmed :: bool
  cmd_Selection :: "32 word option"
  cmd_Replay :: "ReplayOptions option"

definition invalid :: "string \<Rightarrow> string \<Rightarrow> error" where
  "invalid field problem = Some (ValidationErr field problem)"

definition validate_action :: "Command \<Rightarrow> error" where
  "validate_action c =
     (case cmd_Action c of
        CommandPurge \<Rightarrow>
          if \<not> cmd_Confirmed c then invalid ''confirmed'' ''is required for purge'' else None
      | CommandBulkRetry \<Rightarrow>
          if \<not> cmd_Confirmed c then invalid ''confirmed'' ''is required for bulk retry''
          else (case cmd_Selection c of
              None \<Rightarrow> invalid ''selection'' ''is required''
            | Some limit \<Rightarrow>
                if limit = 0 \<or> limit > MaxBulkSelection
                then invalid ''selection.limit'' ''must be within the bulk limit'' else None)
      | CommandReplay \<Rightarrow>
          if \<not> cmd_Confirmed c then invalid ''confirmed'' ''is required for replay''
          else (case cmd_Replay c of
              None \<Rightarrow> invalid ''replay'' ''is required''
            | Some replay \<Rightarrow>
                if invalidIdentity (Destination replay)
                then invalid ''replay.destination'' ''is required and must be bounded''
                else if \<not> policy_valid (IdempotencyPolicy replay)
                then invalid ''replay.idempotency_policy'' ''is unsupported'' else None)
      | _ \<Rightarrow> None)"

definition Command_Validate :: "Command \<Rightarrow> error" where
  "Command_Validate c =
     (if invalidIdentity (cmd_ID c) then invalid ''id'' ''is required and must be bounded''
      else if invalidIdentity (cmd_IdempotencyKey c)
      then invalid ''idempotency_key'' ''is required and must be bounded''
      else if invalidIdentity (cmd_Actor c) then invalid ''actor'' ''is required and must be bounded''
      else if TrimSpace (cmd_Reason c) = '''' \<or> length (cmd_Reason c) > MaxReasonBytes
      then invalid ''reason'' ''is required and must be bounded''
      else if cmd_Protocol c = zero_version then invalid ''protocol'' ''is required''
      else if \<not> action_valid (cmd_Action c) then invalid ''action'' ''is unsupported''
      else if \<not> target_valid (target_Kind (cmd_Target c)) then invalid ''target.kind'' ''is unsupported''
      else if invalidIdentity (target_Name (cmd_Target c))
      then invalid ''target.name'' ''is required and must be bounded''
      else if IsZero (cmd_RequestedAt c) then invalid ''requested_at'' ''is required''
      else if \<not> After (cmd_Deadline c) (cmd_RequestedAt c)
      then invalid ''deadline'' ''must follow requested_at''
      else if \<not> action_supports (cmd_Action c) (target_Kind (cmd_Target c))
      then invalid ''target.kind'' ''is unsupported for the action''
      else validate_action c)"

record CommandResult =
  result_CommandID :: string
  result_IdempotencyKey :: string
  result_WorkerID :: string
  result_Protocol :: ProtocolVersion
  result_Status :: CommandResultStatus
  result_FailureCode :: string
  result_CompletedAt :: go_time

definition CommandResult_Validate :: "CommandResult \<Rightarrow> error" where
  "CommandResult_Validate r =
     (if invalidIdentity (result_CommandID r) then invalid ''command_id'' ''is required and must be bounded''
      else if invalidIdentity (result_IdempotencyKey r)
      then invalid ''idempotency_key'' ''is required and must be bounded''
      else if invalidIdentity (result_WorkerID r)
      then invalid ''worker_id'' ''is required and must be bounded''
      else if result_Protocol r = zero_version then invalid ''protocol'' ''is required''
      else if \<not> status_valid (result_Status r) then invalid ''status'' ''is unsupported''
      else if IsZero (result_CompletedAt r) then invalid ''completed_at'' ''is required''
      else if requiresFailureCode (result_Status r) \<and> invalidIdentity (result_FailureCode r)
      then invalid ''failure_code'' ''is required and must be bounded''
      else None)"

abbreviation ErrUnsupportedCapability :: go_err where
  "ErrUnsupportedCapability \<equiv> sentinel ''management.ErrUnsupportedCapability''"

abbreviation ErrRecordNotFound :: go_err where
  "ErrRecordNotFound \<equiv> sentinel ''management.ErrRecordNotFound''"

abbreviation ErrManagementUnavailable :: go_err where
  "ErrManagementUnavailable \<equiv> sentinel ''management.ErrManagementUnavailable''"

abbreviation ErrMalformedCursor :: go_err where
  "ErrMalformedCursor \<equiv> sentinel ''management.ErrMalformedCursor''"

abbreviation ErrStaleRecord :: go_err where
  "ErrStaleRecord \<equiv> sentinel ''management.ErrStaleRecord''"

abbreviation ErrMutationConflict :: go_err where
  "ErrMutationConflict \<equiv> sentinel ''management.ErrMutationConflict''"

abbreviation ErrPartialMutation :: go_err where
  "ErrPartialMutation \<equiv> sentinel ''management.ErrPartialMutation''"

abbreviation ErrUnknownMutation :: go_err where
  "ErrUnknownMutation \<equiv> sentinel ''management.ErrUnknownMutation''"

abbreviation ErrInvalidFilter :: go_err where
  "ErrInvalidFilter \<equiv> sentinel ''management.ErrInvalidFilter''"


section \<open>Properties\<close>

lemma invalid_neq_None [simp]: "invalid f p \<noteq> None" "None \<noteq> invalid f p"
  by (simp_all add: invalid_def)

lemma action_supports_pairs:
  "action_supports a t \<longleftrightarrow>
     (a, t) \<in> {CommandPause, CommandResume} \<times> {TargetQueue, TargetWorkerGroup} \<union>
       {CommandDrain, CommandTerminate} \<times> {TargetWorker, TargetWorkerGroup} \<union>
       {CommandRetry, CommandBulkRetry, CommandDelete, CommandReplay, CommandPurge} \<times>
         {TargetFailure, TargetDeadLetter} \<union> {(CommandPurge, TargetQueue)}"
  by (cases a) auto

lemma action_supports_valid: "action_supports a t \<Longrightarrow> action_valid a \<and> target_valid t"
  by (cases a; cases t) auto

lemma policy_valid_iff: "policy_valid p \<longleftrightarrow> p \<in> {ReplayRejectDuplicate, ReplayReplaceDuplicate}"
  by (cases p) auto

lemma validate_action_accepts:
  "validate_action c = None \<longleftrightarrow>
     (cmd_Action c \<in> {CommandPurge, CommandBulkRetry, CommandReplay} \<longrightarrow> cmd_Confirmed c) \<and>
     (cmd_Action c = CommandBulkRetry \<longrightarrow>
        (\<exists>limit. cmd_Selection c = Some limit \<and> 1 \<le> unat limit \<and> unat limit \<le> 1000)) \<and>
     (cmd_Action c = CommandReplay \<longrightarrow>
        (\<exists>r. cmd_Replay c = Some r \<and> \<not> invalidIdentity (Destination r) \<and>
             IdempotencyPolicy r \<in> {ReplayRejectDuplicate, ReplayReplaceDuplicate}))"
proof -
  have limit: "(n = 0 \<or> n > MaxBulkSelection) \<longleftrightarrow> \<not> (1 \<le> unat n \<and> unat n \<le> 1000)" for n :: "32 word"
    by (auto simp: MaxBulkSelection_def word_le_nat_alt word_less_nat_alt not_less unat_eq_zero
        Suc_le_eq unat_gt_0)
  show ?thesis
    unfolding validate_action_def limit
    by (cases "cmd_Action c"; cases "cmd_Selection c"; cases "cmd_Replay c")
      (auto simp: invalid_def policy_valid_iff)
qed

text \<open>
  A command passes Validate exactly when its identities and its reason are bounded,
  its protocol is set, its deadline follows its request, its action may address its kind of
  target, every destructive action (purge, bulk retry, replay) is confirmed, a bulk retry
  selects between 1 and 1000 records, and a replay names a destination and a duplicate policy.
\<close>

theorem Command_Validate_accepts:
  "Command_Validate c = None \<longleftrightarrow>
     (\<forall>s \<in> {cmd_ID c, cmd_IdempotencyKey c, cmd_Actor c, target_Name (cmd_Target c)}. \<not> invalidIdentity s) \<and>
     TrimSpace (cmd_Reason c) \<noteq> '''' \<and> length (cmd_Reason c) \<le> 1024 \<and> cmd_Protocol c \<noteq> zero_version \<and>
     nanos (cmd_RequestedAt c) \<noteq> 0 \<and> nanos (cmd_RequestedAt c) < nanos (cmd_Deadline c) \<and>
     (cmd_Action c, target_Kind (cmd_Target c)) \<in>
       {CommandPause, CommandResume} \<times> {TargetQueue, TargetWorkerGroup} \<union>
       {CommandDrain, CommandTerminate} \<times> {TargetWorker, TargetWorkerGroup} \<union>
       {CommandRetry, CommandBulkRetry, CommandDelete, CommandReplay, CommandPurge} \<times>
         {TargetFailure, TargetDeadLetter} \<union> {(CommandPurge, TargetQueue)} \<and>
     (cmd_Action c \<in> {CommandPurge, CommandBulkRetry, CommandReplay} \<longrightarrow> cmd_Confirmed c) \<and>
     (cmd_Action c = CommandBulkRetry \<longrightarrow>
        (\<exists>limit. cmd_Selection c = Some limit \<and> 1 \<le> unat limit \<and> unat limit \<le> 1000)) \<and>
     (cmd_Action c = CommandReplay \<longrightarrow>
        (\<exists>r. cmd_Replay c = Some r \<and> \<not> invalidIdentity (Destination r) \<and>
             IdempotencyPolicy r \<in> {ReplayRejectDuplicate, ReplayReplaceDuplicate}))"
  unfolding Command_Validate_def action_supports_pairs [symmetric] validate_action_accepts [symmetric]
  using action_supports_valid [of "cmd_Action c" "target_Kind (cmd_Target c)"]
  by (auto simp: IsZero_def After_def MaxReasonBytes_def)

definition sample_command :: Command where
  "sample_command = \<lparr>cmd_ID = ''c1'', cmd_IdempotencyKey = ''k1'', cmd_Actor = ''ops'', cmd_Reason = ''incident'',
     cmd_Protocol = ProtocolVersion 1 0, cmd_Action = CommandBulkRetry,
     cmd_Target = Target TargetDeadLetter ''orders'', cmd_RequestedAt = GoTime 5 0,
     cmd_Deadline = GoTime 9 0, cmd_Confirmed = True, cmd_Selection = Some 1000, cmd_Replay = None\<rparr>"

theorem Command_Validate_accepts_witness:
  "Command_Validate sample_command = None \<and>
   Command_Validate (sample_command\<lparr>cmd_Confirmed := False\<rparr>) \<noteq> None \<and>
   Command_Validate (sample_command\<lparr>cmd_Selection := Some 1001\<rparr>) \<noteq> None"
  unfolding Command_Validate_accepts
  by (simp add: sample_command_def zero_version_def invalidIdentity_def) code_simp

end
