(* ===== verification/Status.thy ===== *)
theory Status
  imports Control Go_Text
begin

text \<open>
  Worker and queue observations and their validation, src/management/status.go.
\<close>

section \<open>Limits and enumerations\<close>

definition MaxQueuesPerWorker :: nat where "MaxQueuesPerWorker = 256"
definition MaxCapabilitiesPerWorker :: nat where "MaxCapabilitiesPerWorker = 64"
definition MaxWorkerConcurrency :: "32 word" where "MaxWorkerConcurrency = 1000000"
definition MaxStatusPageSize :: nat where "MaxStatusPageSize = 200"
definition MaxCursorBytes :: nat where "MaxCursorBytes = 1024"

datatype WorkerState = WorkerRunning | WorkerPaused | WorkerDraining | WorkerStopped | OtherWorkerState string

datatype DrainState =
    DrainNotRequested | DrainRequested | DrainInProgress | DrainCompleted | DrainTimedOut
  | OtherDrainState string

fun worker_state_valid :: "WorkerState \<Rightarrow> bool" where
  "worker_state_valid (OtherWorkerState _) \<longleftrightarrow> False"
| "worker_state_valid _ \<longleftrightarrow> True"

fun drain_state_valid :: "DrainState \<Rightarrow> bool" where
  "drain_state_valid (OtherDrainState _) \<longleftrightarrow> False"
| "drain_state_valid _ \<longleftrightarrow> True"

section \<open>Observations\<close>

record WorkerStatus =
  ws_ID :: string
  ws_Version :: string
  ws_StartedAt :: go_time
  ws_HeartbeatAt :: go_time
  ws_Queues :: "string list"
  ws_Concurrency :: "32 word"
  ws_State :: WorkerState
  ws_CurrentJobs :: "32 word"
  ws_DrainStatus :: DrainState
  ws_Backend :: string
  ws_Protocol :: ProtocolVersion
  ws_Capabilities :: "Capability list"

record StatusMetadata =
  sm_ID :: string
  sm_Version :: string
  sm_Concurrency :: "32 word"
  sm_Protocol :: ProtocolVersion

definition StatusMetadata_Validate :: "StatusMetadata \<Rightarrow> error" where
  "StatusMetadata_Validate m =
     (if invalidIdentity (sm_ID m) then invalid ''id'' ''is required and must be bounded''
      else if invalidIdentity (sm_Version m) then invalid ''version'' ''is required and must be bounded''
      else if sm_Concurrency m = 0 \<or> sm_Concurrency m > MaxWorkerConcurrency
      then invalid ''concurrency'' ''must be within the worker limit''
      else if sm_Protocol m = zero_version then invalid ''protocol'' ''is required''
      else None)"

record 'a Measurement =
  Value :: 'a
  Supported :: bool

definition unsupported :: "'a \<Rightarrow> 'a Measurement" where
  "unsupported v = \<lparr>Value = v, Supported = False\<rparr>"

record QueueMetrics =
  qm_Depth :: "int Measurement"
  qm_Lag :: "int Measurement"
  qm_Pending :: "int Measurement"
  qm_OldestAge :: "duration Measurement"
  qm_Throughput :: "float64 Measurement"
  qm_Runtime :: "duration Measurement"
  qm_Succeeded :: "64 word Measurement"
  qm_Failed :: "64 word Measurement"
  qm_Retried :: "64 word Measurement"
  qm_Reclaimed :: "64 word Measurement"
  qm_DeadLettered :: "64 word Measurement"
  qm_SettlementErrors :: "64 word Measurement"

record QueueStatus =
  qs_Backend :: string
  qs_Queue :: string
  qs_ObservedAt :: go_time
  qs_Metrics :: QueueMetrics

record StatusPageRequest =
  spr_Cursor :: string
  spr_Limit :: "32 word"

definition StatusPageRequest_Validate :: "StatusPageRequest \<Rightarrow> error" where
  "StatusPageRequest_Validate r =
     (if spr_Limit r = 0 \<or> unat (spr_Limit r) > MaxStatusPageSize
      then invalid ''limit'' ''must be within the page limit''
      else if length (spr_Cursor r) > MaxCursorBytes then invalid ''cursor'' ''exceeds the cursor limit''
      else None)"

text \<open>The first index of a list whose element fails a test, as the loops over labels report it.\<close>

fun invalid_index :: "('a \<Rightarrow> bool) \<Rightarrow> nat \<Rightarrow> 'a list \<Rightarrow> nat option" where
  "invalid_index bad index [] = None"
| "invalid_index bad index (x # xs) = (if bad x then Some index else invalid_index bad (index + 1) xs)"

definition invalid_labels :: "string \<Rightarrow> string list \<Rightarrow> error" where
  "invalid_labels field labels =
     (case invalid_index invalidIdentity 0 labels of
        None \<Rightarrow> None
      | Some index \<Rightarrow> invalid (field @ ''['' @ Itoa (int index) @ '']'') ''is invalid'')"

definition WorkerStatus_Validate :: "WorkerStatus \<Rightarrow> error" where
  "WorkerStatus_Validate s =
     (if invalidIdentity (ws_ID s) then invalid ''id'' ''is required and must be bounded''
      else if invalidIdentity (ws_Version s) then invalid ''version'' ''is required and must be bounded''
      else if IsZero (ws_StartedAt s) then invalid ''started_at'' ''is required''
      else if IsZero (ws_HeartbeatAt s) then invalid ''heartbeat_at'' ''is required''
      else if Before (ws_HeartbeatAt s) (ws_StartedAt s)
      then invalid ''heartbeat_at'' ''cannot precede started_at''
      else if length (ws_Queues s) > MaxQueuesPerWorker then invalid ''queues'' ''exceeds the worker queue limit''
      else if invalid_labels ''queues'' (ws_Queues s) \<noteq> None then invalid_labels ''queues'' (ws_Queues s)
      else if ws_Concurrency s = 0 \<or> ws_Concurrency s > MaxWorkerConcurrency
      then invalid ''concurrency'' ''must be within the worker limit''
      else if ws_CurrentJobs s > ws_Concurrency s then invalid ''current_jobs'' ''cannot exceed concurrency''
      else if \<not> worker_state_valid (ws_State s) then invalid ''state'' ''is unsupported''
      else if \<not> drain_state_valid (ws_DrainStatus s) then invalid ''drain_status'' ''is unsupported''
      else if invalidIdentity (ws_Backend s) then invalid ''backend'' ''is required and must be bounded''
      else if ws_Protocol s = zero_version then invalid ''protocol'' ''is required''
      else if length (ws_Capabilities s) > MaxCapabilitiesPerWorker
      then invalid ''capabilities'' ''exceeds the worker capability limit''
      else invalid_labels ''capabilities'' (ws_Capabilities s))"

definition negative_measure :: "int Measurement \<Rightarrow> bool" where
  "negative_measure m \<longleftrightarrow> Supported m \<and> Value m < 0"

definition QueueStatus_Validate :: "QueueStatus \<Rightarrow> error" where
  "QueueStatus_Validate s =
     (let m = qs_Metrics s in
      if invalidIdentity (qs_Backend s) then invalid ''backend'' ''is required and must be bounded''
      else if invalidIdentity (qs_Queue s) then invalid ''queue'' ''is required and must be bounded''
      else if IsZero (qs_ObservedAt s) then invalid ''observed_at'' ''is required''
      else if negative_measure (qm_Depth m) then invalid ''metrics.depth'' ''cannot be negative''
      else if negative_measure (qm_Lag m) then invalid ''metrics.lag'' ''cannot be negative''
      else if negative_measure (qm_Pending m) then invalid ''metrics.pending'' ''cannot be negative''
      else if negative_measure (qm_OldestAge m) then invalid ''metrics.oldest_age'' ''cannot be negative''
      else if Supported (qm_Throughput m) \<and>
              (float_less (Value (qm_Throughput m)) 0 \<or> float_special (Value (qm_Throughput m)))
      then invalid ''metrics.throughput'' ''must be finite and non-negative''
      else if negative_measure (qm_Runtime m) then invalid ''metrics.runtime'' ''cannot be negative''
      else None)"

section \<open>Pages\<close>

text \<open>
  The loop over the items of a page: the field of the item's \<^verbatim>\<open>ValidationError\<close> is prefixed
  with the index. Another kind of error would leave the pointer \<^verbatim>\<open>errors.As\<close> fills nil, and
  reading its field would panic: None.
\<close>

fun validate_items :: "('a \<Rightarrow> error) \<Rightarrow> nat \<Rightarrow> 'a list \<Rightarrow> error option" where
  "validate_items validate index [] = Some None"
| "validate_items validate index (item # items) =
     (case validate item of
        None \<Rightarrow> validate_items validate (index + 1) items
      | Some (ValidationErr field problem) \<Rightarrow>
          Some (invalid (''items['' @ Itoa (int index) @ ''].'' @ field) problem)
      | Some _ \<Rightarrow> None)"

definition validate_page :: "('a \<Rightarrow> error) \<Rightarrow> nat \<Rightarrow> 'a list \<Rightarrow> string \<Rightarrow> error option" where
  "validate_page validate limit items nextCursor =
     (if length items > limit then Some (invalid ''items'' ''exceeds the page limit'')
      else case validate_items validate 0 items of
          None \<Rightarrow> None
        | Some (Some err) \<Rightarrow> Some (Some err)
        | Some None \<Rightarrow>
            if length nextCursor > MaxCursorBytes
            then Some (invalid ''next_cursor'' ''exceeds the cursor limit'') else Some None)"

record WorkerStatusPage =
  wsp_Items :: "WorkerStatus list"
  wsp_NextCursor :: string

record QueueStatusPage =
  qsp_Items :: "QueueStatus list"
  qsp_NextCursor :: string

definition WorkerStatusPage_Validate :: "WorkerStatusPage \<Rightarrow> error option" where
  "WorkerStatusPage_Validate p =
     validate_page WorkerStatus_Validate MaxStatusPageSize (wsp_Items p) (wsp_NextCursor p)"

definition QueueStatusPage_Validate :: "QueueStatusPage \<Rightarrow> error option" where
  "QueueStatusPage_Validate p =
     validate_page QueueStatus_Validate MaxStatusPageSize (qsp_Items p) (qsp_NextCursor p)"

section \<open>Validators\<close>

text \<open>
  What a page relies on in the validator of its items: it reports nothing but
  \<^verbatim>\<open>ValidationError\<close>. The page check then never panics, and accepts exactly the bounded
  pages of valid items.
\<close>

locale item_validator =
  fixes validate :: "'a \<Rightarrow> error"
  assumes only_validation_errors: "validate x = Some e \<Longrightarrow> \<exists>f p. e = ValidationErr f p"
begin

lemma validate_items_total:
  "\<exists>err. validate_items validate index items = Some err \<and>
     (err = None \<longleftrightarrow> (\<forall>x \<in> set items. validate x = None))"
proof (induction items arbitrary: index)
  case (Cons x xs)
  show ?case
  proof (cases "validate x")
    case None
    then show ?thesis using Cons [of "index + 1"] by simp
  next
    case (Some e)
    then show ?thesis using only_validation_errors [OF Some] by (auto simp: invalid_def)
  qed
qed simp

lemma validate_page_accepts:
  "validate_page validate limit items nextCursor \<noteq> None \<and>
   (validate_page validate limit items nextCursor = Some None \<longleftrightarrow>
      length items \<le> limit \<and> (\<forall>x \<in> set items. validate x = None) \<and> length nextCursor \<le> 1024)"
  using validate_items_total [of 0 items]
  by (auto simp: validate_page_def MaxCursorBytes_def invalid_def split: option.split)

end

lemma invalid_Some [simp]: "invalid f p = Some e \<longleftrightarrow> e = ValidationErr f p"
  by (auto simp: invalid_def)

lemma invalid_labels_shape: "invalid_labels f ls = Some e \<Longrightarrow> \<exists>f p. e = ValidationErr f p"
  by (auto simp: invalid_labels_def split: option.splits)

lemma WorkerStatus_Validate_shape: "WorkerStatus_Validate s = Some e \<Longrightarrow> \<exists>f p. e = ValidationErr f p"
  by (auto simp: WorkerStatus_Validate_def dest: invalid_labels_shape split: if_splits)

lemma QueueStatus_Validate_shape: "QueueStatus_Validate s = Some e \<Longrightarrow> \<exists>f p. e = ValidationErr f p"
  by (auto simp: QueueStatus_Validate_def Let_def split: if_splits)

interpretation worker_item: item_validator WorkerStatus_Validate
  by unfold_locales (rule WorkerStatus_Validate_shape)

interpretation queue_item: item_validator QueueStatus_Validate
  by unfold_locales (rule QueueStatus_Validate_shape)

end
