(* ===== verification/Reader.thy ===== *)
theory Reader
  imports Status "HOL-Library.Product_Lexorder"
begin

text \<open>
  The status reader of src/management/reader.go: it asks every provider, validates and sorts
  the observations and returns one page with an offset cursor. The answers of the providers
  to the calls of one request are a parameter: an error or an observation each, in the order
  of the calls; only the answers up to the first failing one are looked at.
\<close>

section \<open>Pages of a sorted list\<close>

definition MaxStatusProviders :: nat where "MaxStatusProviders = 1000"

abbreviation ErrInvalidStatusProviders :: go_err where
  "ErrInvalidStatusProviders \<equiv> sentinel ''management.ErrInvalidStatusProviders''"

abbreviation ErrInvalidStatusCursor :: go_err where
  "ErrInvalidStatusCursor \<equiv> sentinel ''management.ErrInvalidStatusCursor''"

abbreviation ErrInvalidStatusProviderOutput :: go_err where
  "ErrInvalidStatusProviderOutput \<equiv> sentinel ''management.ErrInvalidStatusProviderOutput''"

definition statusPageStart :: "StatusPageRequest \<Rightarrow> go_err + int" where
  "statusPageStart request =
     (case StatusPageRequest_Validate request of
        Some err \<Rightarrow> Inl err
      | None \<Rightarrow>
          if spr_Cursor request = '''' then Inr 0
          else case RawURL_DecodeString (spr_Cursor request) of
              None \<Rightarrow> Inl ErrInvalidStatusCursor
            | Some decoded \<Rightarrow>
                (case Atoi decoded of
                   None \<Rightarrow> Inl ErrInvalidStatusCursor
                 | Some offset \<Rightarrow>
                     if offset < 0 \<or> offset > int MaxStatusProviders then Inl ErrInvalidStatusCursor
                     else Inr offset))"

fun page_end :: "nat \<Rightarrow> nat \<Rightarrow> nat \<Rightarrow> nat" where
  "page_end len 0 stop = stop"
| "page_end len (Suc remaining) stop = (if stop < len then page_end len remaining (stop + 1) else stop)"

definition statusPage :: "'a list \<Rightarrow> int \<Rightarrow> 32 word \<Rightarrow> go_err + 'a list \<times> string" where
  "statusPage items start limit =
     (if start < 0 \<or> start > int (length items) then Inl ErrInvalidStatusCursor
      else let stop = page_end (length items) (unat limit) (nat start);
               page = take (stop - nat start) (drop (nat start) items)
           in if stop = length items then Inr (page, '''')
              else Inr (page, RawURL_EncodeToString (Itoa (int stop))))"

section \<open>The reader\<close>

text \<open>\<^verbatim>\<open>nilStatusProvider\<close> by reflection: whether a provider is nil or a typed nil.\<close>

datatype 'p provider_value = NilInterface | TypedNil | Provider 'p

definition nilStatusProvider :: "'p provider_value \<Rightarrow> bool" where
  "nilStatusProvider provider \<longleftrightarrow> (case provider of Provider _ \<Rightarrow> False | _ \<Rightarrow> True)"

record ('w, 'q) ProviderStatusReader =
  psr_workers :: "'w provider_value list"
  psr_queues :: "'q provider_value list"

definition NewStatusReader ::
  "'w provider_value list \<Rightarrow> 'q provider_value list \<Rightarrow> go_err + ('w, 'q) ProviderStatusReader" where
  "NewStatusReader workers queues =
     (if (length workers = 0 \<and> length queues = 0) \<or> length workers > MaxStatusProviders \<or>
         length queues > MaxStatusProviders then Inl ErrInvalidStatusProviders
      else if list_ex nilStatusProvider workers then Inl ErrInvalidStatusProviders
      else if list_ex nilStatusProvider queues then Inl ErrInvalidStatusProviders
      else Inr \<lparr>psr_workers = workers, psr_queues = queues\<rparr>)"

fun collect_observations :: "('a \<Rightarrow> error) \<Rightarrow> (go_err + 'a) list \<Rightarrow> 'a list \<Rightarrow> go_err + 'a list" where
  "collect_observations validate [] items = Inr items"
| "collect_observations validate (Inl err # answers) items = Inl err"
| "collect_observations validate (Inr item # answers) items =
     (if validate item \<noteq> None then Inl ErrInvalidStatusProviderOutput
      else collect_observations validate answers (items @ [item]))"

fun adjacent_equal :: "('a \<Rightarrow> 'k) \<Rightarrow> 'a list \<Rightarrow> bool" where
  "adjacent_equal key (x # y # rest) \<longleftrightarrow> key x = key y \<or> adjacent_equal key (y # rest)"
| "adjacent_equal key _ \<longleftrightarrow> False"

definition ListWorkers ::
  "(go_err + WorkerStatus) list \<Rightarrow> StatusPageRequest \<Rightarrow> go_err + WorkerStatusPage" where
  "ListWorkers answers request =
     (case statusPageStart request of Inl err \<Rightarrow> Inl err
      | Inr start \<Rightarrow>
        (case collect_observations WorkerStatus_Validate answers [] of Inl err \<Rightarrow> Inl err
         | Inr items \<Rightarrow>
           (let items = sort_key ws_ID items
            in if adjacent_equal ws_ID items then Inl ErrInvalidStatusProviderOutput
               else case statusPage items start (spr_Limit request) of Inl err \<Rightarrow> Inl err
                 | Inr (pageItems, next) \<Rightarrow> Inr \<lparr>wsp_Items = pageItems, wsp_NextCursor = next\<rparr>)))"

definition queue_key :: "QueueStatus \<Rightarrow> string \<times> string" where
  "queue_key s = (qs_Queue s, qs_Backend s)"

definition ListQueues ::
  "(go_err + QueueStatus) list \<Rightarrow> StatusPageRequest \<Rightarrow> go_err + QueueStatusPage" where
  "ListQueues answers request =
     (case statusPageStart request of Inl err \<Rightarrow> Inl err
      | Inr start \<Rightarrow>
        (case collect_observations QueueStatus_Validate answers [] of Inl err \<Rightarrow> Inl err
         | Inr items \<Rightarrow>
           (let items = sort_key queue_key items
            in if adjacent_equal queue_key items then Inl ErrInvalidStatusProviderOutput
               else case statusPage items start (spr_Limit request) of Inl err \<Rightarrow> Inl err
                 | Inr (pageItems, next) \<Rightarrow> Inr \<lparr>qsp_Items = pageItems, qsp_NextCursor = next\<rparr>)))"

section \<open>Walking the pages\<close>

lemma page_end_min: "e \<le> len \<Longrightarrow> page_end len n e = min (e + n) len"
  by (induction n arbitrary: e) auto

lemma statusPage_eq:
  assumes "k \<le> length items"
  shows "statusPage items (int k) limit =
    Inr (take (unat limit) (drop k items),
         if k + unat limit \<ge> length items then '''' else RawURL_EncodeToString (Itoa (int (k + unat limit))))"
  using assms by (auto simp: statusPage_def Let_def page_end_min min_def)

lemma length_cursor: "k \<le> 1000 \<Longrightarrow> length (RawURL_EncodeToString (Itoa (int k))) \<le> 1024"
  using length_Itoa_nat [of k 4] length_RawURL_EncodeToString [of "Itoa (int k)"] by (simp add: Itoa_def)

lemma cursor_start:
  assumes "k \<le> 1000" and "limit \<noteq> 0" and "unat limit \<le> 200"
  shows "statusPageStart \<lparr>spr_Cursor = RawURL_EncodeToString (Itoa (int k)), spr_Limit = limit\<rparr> = Inr (int k)"
proof -
  let ?c = "RawURL_EncodeToString (Itoa (int k))"
  have "length ?c \<le> 1024"
    using length_cursor [OF assms(1)] .
  moreover have "?c \<noteq> ''''" by (simp add: Itoa_def)
  moreover have "Atoi (Itoa (int k)) = Some (int k)"
    using assms(1) by (intro Atoi_Itoa) simp
  ultimately show ?thesis
    using assms by (simp add: statusPageStart_def StatusPageRequest_Validate_def MaxStatusPageSize_def
        MaxCursorBytes_def RawURL_roundtrip MaxStatusProviders_def)
qed

lemma first_start:
  assumes "limit \<noteq> 0" and "unat limit \<le> 200"
  shows "statusPageStart \<lparr>spr_Cursor = '''', spr_Limit = limit\<rparr> = Inr 0"
  using assms by (simp add: statusPageStart_def StatusPageRequest_Validate_def MaxStatusPageSize_def
      MaxCursorBytes_def)

text \<open>A client that follows the cursors until it gets an empty one.\<close>

fun walk :: "nat \<Rightarrow> (string \<Rightarrow> go_err + 'a list \<times> string) \<Rightarrow> string \<Rightarrow> (go_err + 'a list) option" where
  "walk 0 fetch cursor = None"
| "walk (Suc fuel) fetch cursor =
     (case fetch cursor of
        Inl err \<Rightarrow> Some (Inl err)
      | Inr (items, next) \<Rightarrow>
          if next = '''' then Some (Inr items)
          else (case walk fuel fetch next of
              None \<Rightarrow> None | Some (Inl err) \<Rightarrow> Some (Inl err) | Some (Inr rest) \<Rightarrow> Some (Inr (items @ rest))))"

definition read_page ::
  "('a \<Rightarrow> error) \<Rightarrow> ('a \<Rightarrow> 'k :: linorder) \<Rightarrow> (go_err + 'a) list \<Rightarrow> StatusPageRequest \<Rightarrow>
    go_err + 'a list \<times> string" where
  "read_page validate key answers request =
     (case statusPageStart request of Inl err \<Rightarrow> Inl err
      | Inr start \<Rightarrow>
        (case collect_observations validate answers [] of Inl err \<Rightarrow> Inl err
         | Inr items \<Rightarrow>
           if adjacent_equal key (sort_key key items) then Inl ErrInvalidStatusProviderOutput
           else statusPage (sort_key key items) start (spr_Limit request)))"

lemma collect_valid:
  "\<forall>x \<in> set obs. validate x = None \<Longrightarrow> collect_observations validate (map Inr obs) acc = Inr (acc @ obs)"
  by (induction obs arbitrary: acc) auto

lemma collect_members:
  "collect_observations validate answers acc = Inr items \<Longrightarrow> \<forall>x \<in> set acc. validate x = None \<Longrightarrow>
    \<forall>x \<in> set items. validate x = None"
  by (induction validate answers acc rule: collect_observations.induct) (auto split: if_splits)

lemma collect_length:
  "collect_observations validate answers acc = Inr items \<Longrightarrow> length items = length acc + length answers"
  by (induction validate answers acc rule: collect_observations.induct) (auto split: if_splits)

lemma adjacent_equal_sorted: "sorted (map key xs) \<Longrightarrow> adjacent_equal key xs \<longleftrightarrow> \<not> distinct (map key xs)"
  for key :: "'a \<Rightarrow> 'k :: linorder"
proof (induction key xs rule: adjacent_equal.induct)
  case (1 key x y rest)
  then show ?case by (auto simp: less_le_not_le)
qed auto

text \<open>
  What both listings share: a page is read as \<^const>\<open>read_page\<close> says, from observations whose
  validator reports validation errors only.
\<close>

locale status_listing = item_validator validate
  for validate :: "'a \<Rightarrow> error" +
  fixes key :: "'a \<Rightarrow> 'k :: linorder"
    and fetch :: "(go_err + 'a) list \<Rightarrow> StatusPageRequest \<Rightarrow> go_err + 'a list \<times> string"
  assumes fetch_page: "fetch answers request = read_page validate key answers request"
begin

lemma fetch_valid_page:
  assumes "fetch answers request = Inr (items, next)" and "length answers \<le> 1000"
  shows "validate_page validate 200 items next = Some None"
proof -
  obtain start all where start: "statusPageStart request = Inr start"
    and all: "collect_observations validate answers [] = Inr all"
    and page: "statusPage (sort_key key all) start (spr_Limit request) = Inr (items, next)"
    using assms(1) by (auto simp: fetch_page read_page_def split: sum.splits if_splits)
  have limit: "unat (spr_Limit request) \<le> 200"
    using start by (auto simp: statusPageStart_def StatusPageRequest_Validate_def MaxStatusPageSize_def
        split: option.splits if_splits)
  have bounds: "0 \<le> start" "nat start \<le> length all"
    using page by (auto simp: statusPage_def split: if_splits)
  have eq: "items = take (unat (spr_Limit request)) (drop (nat start) (sort_key key all))"
    "next = (if nat start + unat (spr_Limit request) \<ge> length all then ''''
       else RawURL_EncodeToString (Itoa (int (nat start + unat (spr_Limit request)))))"
    using page bounds statusPage_eq [of "nat start" "sort_key key all" "spr_Limit request"] by auto
  have "length all \<le> length answers"
    using collect_length [OF all] by simp
  then have "length next \<le> 1024"
    using eq(2) assms(2) length_cursor [of "nat start + unat (spr_Limit request)"] by auto
  moreover have "\<forall>x \<in> set items. validate x = None"
    using collect_members [OF all] eq(1) by (auto dest!: in_set_takeD in_set_dropD)
  ultimately show ?thesis
    using validate_page_accepts eq(1) limit by simp
qed

lemma fetch_at:
  assumes "\<forall>x \<in> set obs. validate x = None" and "distinct (map key obs)"
    and "statusPageStart request = Inr (int k)" and "k \<le> length obs"
  shows "fetch (map Inr obs) request = statusPage (sort_key key obs) (int k) (spr_Limit request)"
proof -
  have "distinct (map key (sort_key key obs))"
    using assms(2) by (simp add: distinct_map)
  then show ?thesis
    using assms(1,3,4) adjacent_equal_sorted [of key "sort_key key obs"] collect_valid [of obs validate "[]"]
    by (simp add: fetch_page read_page_def)
qed

lemma walk_from:
  assumes valid: "\<forall>x \<in> set obs. validate x = None" and dist: "distinct (map key obs)"
    and len: "length obs \<le> 1000" and limit: "limit \<noteq> 0" "unat limit \<le> 200"
    and start: "statusPageStart \<lparr>spr_Cursor = c, spr_Limit = limit\<rparr> = Inr (int k)" "k \<le> length obs"
    and fuel: "length obs - k < fuel"
  shows "walk fuel (\<lambda>c. fetch (map Inr obs) \<lparr>spr_Cursor = c, spr_Limit = limit\<rparr>) c =
    Some (Inr (drop k (sort_key key obs)))"
  using start fuel
proof (induction fuel arbitrary: c k)
  case (Suc fuel)
  let ?n = "unat limit" and ?all = "sort_key key obs"
  have n: "0 < ?n" using limit(1) by (simp add: unat_gt_0)
  note page = fetch_at [OF valid dist Suc.prems(1,2)] statusPage_eq [of k ?all limit]
  show ?case
  proof (cases "k + ?n \<ge> length obs")
    case True
    then show ?thesis using page Suc.prems(2) by simp
  next
    case False
    then have "walk fuel (\<lambda>c. fetch (map Inr obs) \<lparr>spr_Cursor = c, spr_Limit = limit\<rparr>)
        (RawURL_EncodeToString (Itoa (int (k + ?n)))) = Some (Inr (drop (k + ?n) ?all))"
      using Suc.prems n len limit by (intro Suc.IH cursor_start) auto
    moreover have "RawURL_EncodeToString (Itoa (int (k + ?n))) \<noteq> ''''" by (simp add: Itoa_def)
    ultimately show ?thesis
      using page Suc.prems(2) False append_take_drop_id [of ?n "drop k ?all"] by (simp add: add.commute)
  qed
qed simp

lemmas walk_all = walk_from [where k = 0, simplified]

end

definition worker_fetch ::
  "(go_err + WorkerStatus) list \<Rightarrow> StatusPageRequest \<Rightarrow> go_err + WorkerStatus list \<times> string" where
  "worker_fetch answers request =
     map_sum id (\<lambda>p. (wsp_Items p, wsp_NextCursor p)) (ListWorkers answers request)"

definition queue_fetch ::
  "(go_err + QueueStatus) list \<Rightarrow> StatusPageRequest \<Rightarrow> go_err + QueueStatus list \<times> string" where
  "queue_fetch answers request =
     map_sum id (\<lambda>p. (qsp_Items p, qsp_NextCursor p)) (ListQueues answers request)"

interpretation worker_listing: status_listing WorkerStatus_Validate ws_ID worker_fetch
  by unfold_locales (auto simp: worker_fetch_def ListWorkers_def read_page_def Let_def split: sum.splits)

interpretation queue_listing: status_listing QueueStatus_Validate queue_key queue_fetch
  by unfold_locales (auto simp: queue_fetch_def ListQueues_def read_page_def Let_def split: sum.splits)

section \<open>Properties\<close>

text \<open>
  C34: for a page size between 1 and 200 and at most 1000 providers whose observations stay the
  same, valid and without a repeated identity, a client that follows the cursors of ListWorkers
  and of ListQueues gets every observation exactly once, in the order of the identities, and gets
  to the end: no cursor the reader hands out is one it rejects.
\<close>

theorem status_walk_complete:
  assumes "limit \<noteq> 0" and "unat limit \<le> 200"
    and "\<forall>x \<in> set workers. WorkerStatus_Validate x = None" and "distinct (map ws_ID workers)"
    and "length workers \<le> 1000"
    and "\<forall>x \<in> set queues. QueueStatus_Validate x = None" and "distinct (map queue_key queues)"
    and "length queues \<le> 1000" and "length workers < fuel" and "length queues < fuel"
  shows "walk fuel
      (\<lambda>c. worker_fetch (map Inr workers) \<lparr>spr_Cursor = c, spr_Limit = limit\<rparr>) '''' =
      Some (Inr (sort_key ws_ID workers)) \<and>
    walk fuel
      (\<lambda>c. queue_fetch (map Inr queues) \<lparr>spr_Cursor = c, spr_Limit = limit\<rparr>) '''' =
      Some (Inr (sort_key queue_key queues))"
  using worker_listing.walk_all [OF assms(3-5,1,2) first_start [OF assms(1,2)] assms(9)]
    queue_listing.walk_all [OF assms(6-8,1,2) first_start [OF assms(1,2)] assms(10)] by blast

text \<open>
  Whatever the providers answer, every page ListWorkers or ListQueues returns passes the
  page validation of its own contract, which never panics on it.
\<close>

theorem status_pages_valid:
  assumes "length wanswers \<le> 1000" and "length qanswers \<le> 1000"
  shows "(\<forall>page. ListWorkers wanswers request = Inr page \<longrightarrow> WorkerStatusPage_Validate page = Some None) \<and>
    (\<forall>page. ListQueues qanswers request = Inr page \<longrightarrow> QueueStatusPage_Validate page = Some None)"
  using worker_listing.fetch_valid_page [OF _ assms(1), of request]
    queue_listing.fetch_valid_page [OF _ assms(2), of request]
  by (auto simp: worker_fetch_def queue_fetch_def WorkerStatusPage_Validate_def QueueStatusPage_Validate_def
      MaxStatusPageSize_def)

section \<open>Concrete inputs\<close>

definition sample_worker :: "string \<Rightarrow> WorkerStatus" where
  "sample_worker id' = \<lparr>ws_ID = id', ws_Version = ''v1'', ws_StartedAt = GoTime 1 0, ws_HeartbeatAt = GoTime 2 0,
     ws_Queues = [''q''], ws_Concurrency = 4, ws_State = WorkerRunning, ws_CurrentJobs = 1,
     ws_DrainStatus = DrainNotRequested, ws_Backend = ''ring'', ws_Protocol = ProtocolVersion 1 0,
     ws_Capabilities = []\<rparr>"

lemma sample_worker_valid:
  "\<forall>x \<in> set [sample_worker ''b'', sample_worker ''c'', sample_worker ''a'']. WorkerStatus_Validate x = None"
  by (simp add: WorkerStatus_Validate_def sample_worker_def invalidIdentity_def MaxIdentityBytes_def IsZero_def
      Before_def invalid_labels_def MaxQueuesPerWorker_def MaxWorkerConcurrency_def
      MaxCapabilitiesPerWorker_def zero_version_def)

theorem status_walk_complete_witness:
  "walk 4 (\<lambda>c. worker_fetch (map Inr [sample_worker ''b'', sample_worker ''c'', sample_worker ''a''])
      \<lparr>spr_Cursor = c, spr_Limit = 2\<rparr>) '''' =
     Some (Inr [sample_worker ''a'', sample_worker ''b'', sample_worker ''c''])"
proof -
  have "sort_key ws_ID [sample_worker ''b'', sample_worker ''c'', sample_worker ''a''] =
      [sample_worker ''a'', sample_worker ''b'', sample_worker ''c'']"
    by (simp add: sample_worker_def)
  then show ?thesis
    using status_walk_complete [OF _ _ sample_worker_valid, of 2 "[]" 4]
    by (simp add: sample_worker_def del: walk.simps)
qed

theorem status_pages_valid_witness:
  "ListWorkers [Inr (sample_worker ''b''), Inr (sample_worker ''a'')] \<lparr>spr_Cursor = '''', spr_Limit = 1\<rparr> =
     Inr \<lparr>wsp_Items = [sample_worker ''a''], wsp_NextCursor = ''MQ''\<rparr> \<and>
   WorkerStatusPage_Validate \<lparr>wsp_Items = [sample_worker ''a''], wsp_NextCursor = ''MQ''\<rparr> = Some None"
proof -
  have page: "ListWorkers [Inr (sample_worker ''b''), Inr (sample_worker ''a'')] \<lparr>spr_Cursor = '''', spr_Limit = 1\<rparr> =
     Inr \<lparr>wsp_Items = [sample_worker ''a''], wsp_NextCursor = ''MQ''\<rparr>"
    by code_simp
  then show ?thesis
    using status_pages_valid [of "[Inr (sample_worker ''b''), Inr (sample_worker ''a'')]" "[]"] by simp
qed

end
