(* ===== verification/Records.thy ===== *)
theory Records
  imports Status Job
begin

text \<open>
  Failure and dead-letter records, src/management/records.go. Two loops iterate over map
  literals and stop at the first offending entry, so the field an error names depends on the
  iteration order: both orders are parameters, arbitrary rearrangements of the entries.
\<close>

section \<open>Payloads\<close>

definition CurrentEnvelopeVersion :: "16 word" where "CurrentEnvelopeVersion = 1"
definition MaxAdministrativePayloadBytes :: nat where "MaxAdministrativePayloadBytes = 2 ^ 20"
definition MaxFailureSummaryBytes :: nat where "MaxFailureSummaryBytes = 1024"
definition MaxRecordTags :: nat where "MaxRecordTags = 32"
definition MaxPageSize :: "32 word" where "MaxPageSize = 200"
definition MaxSearchBytes :: nat where "MaxSearchBytes = 256"

datatype RecordKind = RecordFailure | RecordDeadLetter | OtherRecordKind string

datatype PayloadVisibility = PayloadHidden | PayloadRedacted | PayloadRevealed | OtherVisibility string

fun kind_valid :: "RecordKind \<Rightarrow> bool" where
  "kind_valid (OtherRecordKind _) \<longleftrightarrow> False"
| "kind_valid _ \<longleftrightarrow> True"

fun visibility_valid :: "PayloadVisibility \<Rightarrow> bool" where
  "visibility_valid (OtherVisibility _) \<longleftrightarrow> False"
| "visibility_valid _ \<longleftrightarrow> True"

record Payload =
  pl_Visibility :: PayloadVisibility
  pl_ContentType :: string
  pl_Size :: int
  pl_Data :: bytes

definition Payload_validate :: "Payload \<Rightarrow> error" where
  "Payload_validate p =
     (if \<not> visibility_valid (pl_Visibility p) then invalid ''payload.visibility'' ''is unsupported''
      else if pl_Size p < 0 then invalid ''payload.size'' ''cannot be negative''
      else if pl_ContentType p \<noteq> '''' \<and> invalidIdentity (pl_ContentType p)
      then invalid ''payload.content_type'' ''must be bounded''
      else if pl_Visibility p \<noteq> PayloadRevealed \<and> length (pl_Data p) \<noteq> 0
      then invalid ''payload.data'' ''must be hidden''
      else if length (pl_Data p) > MaxAdministrativePayloadBytes
      then invalid ''payload.data'' ''exceeds the inspection limit''
      else if int (length (pl_Data p)) > pl_Size p
      then invalid ''payload.size'' ''cannot be smaller than revealed data''
      else None)"

section \<open>Records\<close>

record JobRecord =
  jr_Kind :: RecordKind
  jr_ID :: string
  jr_Backend :: string
  jr_Queue :: string
  jr_OccurredAt :: go_time
  jr_Attempts :: "32 word"
  jr_FailureCode :: string
  jr_Payload :: Payload
  jr_EnvelopeVersion :: "16 word"
  jr_PayloadSchemaVersion :: string
  jr_OriginalID :: string
  jr_Topic :: string
  jr_Stream :: string
  jr_RoutingKey :: string
  jr_ConsumerGroup :: string
  jr_SourceRecordID :: string
  jr_EnqueuedAt :: "go_time option"
  jr_FirstDeliveryAt :: "go_time option"
  jr_LastDeliveryAt :: "go_time option"
  jr_DeadLetteredAt :: "go_time option"
  jr_RetryPolicy :: string
  jr_Classification :: classification
  jr_FailureSummary :: string
  jr_Diagnostics :: Payload
  jr_HandlerType :: string
  jr_JobType :: string
  jr_Tags :: string_map
  jr_TraceID :: string
  jr_TenantID :: string
  jr_ProducerVersion :: string
  jr_WorkerVersion :: string
  jr_OriginalDeadLetterID :: string
  jr_PriorDeadLetterID :: string
  jr_ReplayGeneration :: "32 word"
  jr_RetentionDeadline :: "go_time option"

definition hasV1Metadata :: "JobRecord \<Rightarrow> bool" where
  "hasV1Metadata r \<longleftrightarrow>
     jr_PayloadSchemaVersion r \<noteq> '''' \<or> jr_OriginalID r \<noteq> '''' \<or> jr_Topic r \<noteq> '''' \<or>
     jr_Stream r \<noteq> '''' \<or> jr_RoutingKey r \<noteq> '''' \<or> jr_ConsumerGroup r \<noteq> '''' \<or>
     jr_SourceRecordID r \<noteq> '''' \<or> jr_EnqueuedAt r \<noteq> None \<or> jr_FirstDeliveryAt r \<noteq> None \<or>
     jr_LastDeliveryAt r \<noteq> None \<or> jr_DeadLetteredAt r \<noteq> None \<or> jr_RetryPolicy r \<noteq> '''' \<or>
     jr_Classification r \<noteq> OtherClassification '''' \<or> jr_FailureSummary r \<noteq> '''' \<or>
     pl_Visibility (jr_Diagnostics r) \<noteq> PayloadHidden \<or> pl_ContentType (jr_Diagnostics r) \<noteq> '''' \<or>
     pl_Size (jr_Diagnostics r) \<noteq> 0 \<or> length (pl_Data (jr_Diagnostics r)) \<noteq> 0 \<or> jr_HandlerType r \<noteq> '''' \<or>
     jr_JobType r \<noteq> '''' \<or> length (map_entries (jr_Tags r)) \<noteq> 0 \<or> jr_TraceID r \<noteq> '''' \<or> jr_TenantID r \<noteq> '''' \<or>
     jr_ProducerVersion r \<noteq> '''' \<or> jr_WorkerVersion r \<noteq> '''' \<or>
     jr_OriginalDeadLetterID r \<noteq> '''' \<or> jr_PriorDeadLetterID r \<noteq> '''' \<or>
     jr_ReplayGeneration r \<noteq> 0 \<or> jr_RetentionDeadline r \<noteq> None"

definition known_times :: "JobRecord \<Rightarrow> (string \<times> go_time option) list" where
  "known_times r =
     [(''enqueued_at'', jr_EnqueuedAt r), (''first_delivery_at'', jr_FirstDeliveryAt r),
      (''last_delivery_at'', jr_LastDeliveryAt r), (''dead_lettered_at'', jr_DeadLetteredAt r),
      (''retention_deadline'', jr_RetentionDeadline r)]"

definition known_before :: "go_time option \<Rightarrow> go_time option \<Rightarrow> bool" where
  "known_before later earlier \<longleftrightarrow>
     (case (later, earlier) of (Some l, Some e) \<Rightarrow> Before l e | _ \<Rightarrow> False)"

definition known_not_after :: "go_time option \<Rightarrow> go_time option \<Rightarrow> bool" where
  "known_not_after later earlier \<longleftrightarrow>
     (case (later, earlier) of (Some l, Some e) \<Rightarrow> \<not> After l e | _ \<Rightarrow> False)"

definition invalidRecordChronology ::
  "((string \<times> go_time option) list \<Rightarrow> (string \<times> go_time option) list) \<Rightarrow> JobRecord \<Rightarrow> string" where
  "invalidRecordChronology iter_times record =
     (case find (\<lambda>(field, v). case v of None \<Rightarrow> False | Some t \<Rightarrow> IsZero t) (iter_times (known_times record)) of
        Some (field, _) \<Rightarrow> field
      | None \<Rightarrow>
          if known_before (jr_FirstDeliveryAt record) (jr_EnqueuedAt record) then ''first_delivery_at''
          else if known_before (jr_LastDeliveryAt record) (jr_FirstDeliveryAt record) then ''last_delivery_at''
          else if known_before (jr_DeadLetteredAt record) (jr_LastDeliveryAt record) then ''dead_lettered_at''
          else if known_not_after (jr_RetentionDeadline record) (jr_DeadLetteredAt record)
          then ''retention_deadline''
          else '''')"

definition optional_fields :: "JobRecord \<Rightarrow> (string \<times> string) list" where
  "optional_fields r =
     [(''payload_schema_version'', jr_PayloadSchemaVersion r), (''original_id'', jr_OriginalID r),
      (''topic'', jr_Topic r), (''stream'', jr_Stream r), (''routing_key'', jr_RoutingKey r),
      (''consumer_group'', jr_ConsumerGroup r), (''source_record_id'', jr_SourceRecordID r),
      (''retry_policy'', jr_RetryPolicy r), (''handler_type'', jr_HandlerType r), (''job_type'', jr_JobType r),
      (''trace_id'', jr_TraceID r), (''tenant_id'', jr_TenantID r),
      (''producer_version'', jr_ProducerVersion r), (''worker_version'', jr_WorkerVersion r),
      (''original_dead_letter_id'', jr_OriginalDeadLetterID r),
      (''prior_dead_letter_id'', jr_PriorDeadLetterID r)]"

text \<open>The part of \<^verbatim>\<open>JobRecord.Validate\<close> after the envelope version is known to be current.\<close>

definition diagnostics_error :: "JobRecord \<Rightarrow> error" where
  "diagnostics_error r =
     (case Payload_validate (jr_Diagnostics r) of
        Some (ValidationErr field problem) \<Rightarrow> invalid (''diagnostics.'' @ field) problem
      | err \<Rightarrow> err)"

definition validate_v1 ::
  "((string \<times> string) list \<Rightarrow> (string \<times> string) list) \<Rightarrow>
   ((string \<times> go_time option) list \<Rightarrow> (string \<times> go_time option) list) \<Rightarrow> JobRecord \<Rightarrow> error" where
  "validate_v1 iter_fields iter_times r =
     (if \<not> classification_valid (jr_Classification r) then invalid ''classification'' ''is unsupported''
      else if jr_Kind r = RecordDeadLetter \<and>
              (case jr_DeadLetteredAt r of None \<Rightarrow> True | Some t \<Rightarrow> IsZero t)
      then invalid ''dead_lettered_at'' ''is required''
      else if length (jr_FailureSummary r) > MaxFailureSummaryBytes
      then invalid ''failure_summary'' ''exceeds the summary limit''
      else if diagnostics_error r \<noteq> None then diagnostics_error r
      else if length (map_entries (jr_Tags r)) > MaxRecordTags then invalid ''tags'' ''exceeds the tag limit''
      else if \<exists>(key, v) \<in> set (map_entries (jr_Tags r)). invalidIdentity key \<or> invalidIdentity v
      then invalid ''tags'' ''keys and values must be bounded''
      else case find (\<lambda>(field, v). v \<noteq> '''' \<and> invalidIdentity v) (iter_fields (optional_fields r)) of
          Some (field, _) \<Rightarrow> invalid field ''must be bounded when known''
        | None \<Rightarrow>
            if invalidRecordChronology iter_times r \<noteq> ''''
            then invalid (invalidRecordChronology iter_times r) ''is inconsistent with record chronology''
            else if jr_ReplayGeneration r > 0 \<and> jr_OriginalDeadLetterID r = ''''
            then invalid ''original_dead_letter_id'' ''is required for replay lineage''
            else if jr_ReplayGeneration r > 0 \<and> jr_PriorDeadLetterID r = ''''
            then invalid ''prior_dead_letter_id'' ''is required for replay lineage''
            else None)"

definition JobRecord_Validate ::
  "((string \<times> string) list \<Rightarrow> (string \<times> string) list) \<Rightarrow>
   ((string \<times> go_time option) list \<Rightarrow> (string \<times> go_time option) list) \<Rightarrow> JobRecord \<Rightarrow> error" where
  "JobRecord_Validate iter_fields iter_times r =
     (if \<not> kind_valid (jr_Kind r) then invalid ''kind'' ''is unsupported''
      else if invalidIdentity (jr_ID r) then invalid ''id'' ''is required and must be bounded''
      else if invalidIdentity (jr_Backend r) then invalid ''backend'' ''is required and must be bounded''
      else if invalidIdentity (jr_Queue r) then invalid ''queue'' ''is required and must be bounded''
      else if IsZero (jr_OccurredAt r) then invalid ''occurred_at'' ''is required''
      else if jr_Attempts r = 0 then invalid ''attempts'' ''must be positive''
      else if invalidIdentity (jr_FailureCode r)
      then invalid ''failure_code'' ''is required and must be bounded''
      else if Payload_validate (jr_Payload r) \<noteq> None then Payload_validate (jr_Payload r)
      else if jr_EnvelopeVersion r = 0
      then (if hasV1Metadata r then invalid ''envelope_version'' ''is required for v1 metadata'' else None)
      else if jr_EnvelopeVersion r \<noteq> CurrentEnvelopeVersion
      then invalid ''envelope_version'' ''is unsupported''
      else validate_v1 iter_fields iter_times r)"

section \<open>Requests and pages\<close>

datatype SortField = SortOccurredAt | SortQueue | SortAttempts | OtherSort string

datatype SortDirection = SortAscending | SortDescending | OtherDirection string

fun sort_valid :: "SortField \<Rightarrow> bool" where
  "sort_valid (OtherSort _) \<longleftrightarrow> False"
| "sort_valid _ \<longleftrightarrow> True"

fun direction_valid :: "SortDirection \<Rightarrow> bool" where
  "direction_valid (OtherDirection _) \<longleftrightarrow> False"
| "direction_valid _ \<longleftrightarrow> True"

record PageRequest =
  pr_Cursor :: string
  pr_Limit :: "32 word"
  pr_Search :: string
  pr_Sort :: SortField
  pr_Direction :: SortDirection

definition PageRequest_Validate :: "PageRequest \<Rightarrow> error" where
  "PageRequest_Validate r =
     (if pr_Limit r = 0 \<or> pr_Limit r > MaxPageSize then invalid ''limit'' ''must be within the page limit''
      else if length (pr_Cursor r) > MaxCursorBytes then invalid ''cursor'' ''exceeds the cursor limit''
      else if length (pr_Search r) > MaxSearchBytes then invalid ''search'' ''exceeds the search limit''
      else if \<not> sort_valid (pr_Sort r) then invalid ''sort'' ''is unsupported''
      else if \<not> direction_valid (pr_Direction r) then invalid ''direction'' ''is unsupported''
      else None)"

record RecordPage =
  rp_Items :: "JobRecord list"
  rp_NextCursor :: string

definition RecordPage_Validate ::
  "((string \<times> string) list \<Rightarrow> (string \<times> string) list) \<Rightarrow>
   ((string \<times> go_time option) list \<Rightarrow> (string \<times> go_time option) list) \<Rightarrow> RecordPage \<Rightarrow> error option" where
  "RecordPage_Validate iter_fields iter_times p =
     validate_page (JobRecord_Validate iter_fields iter_times) (unat MaxPageSize) (rp_Items p) (rp_NextCursor p)"

record InspectRequest =
  ir_Kind :: RecordKind
  ir_ID :: string
  ir_Visibility :: PayloadVisibility

definition InspectRequest_Validate :: "InspectRequest \<Rightarrow> error" where
  "InspectRequest_Validate r =
     (if \<not> kind_valid (ir_Kind r) then invalid ''kind'' ''is unsupported''
      else if invalidIdentity (ir_ID r) then invalid ''id'' ''is required and must be bounded''
      else if \<not> visibility_valid (ir_Visibility r) then invalid ''visibility'' ''is unsupported''
      else None)"

section \<open>What the validation accepts\<close>

definition rearranges :: "('a list \<Rightarrow> 'a list) \<Rightarrow> bool" where
  "rearranges iter \<longleftrightarrow> (\<forall>xs. mset (iter xs) = mset xs)"

lemma rearranged_set: "rearranges iter \<Longrightarrow> set (iter xs) = set xs"
  unfolding rearranges_def by (metis mset_eq_setD)

lemma find_rearranged: "rearranges iter \<Longrightarrow> find P (iter xs) = None \<longleftrightarrow> (\<forall>x \<in> set xs. \<not> P x)"
  using rearranged_set [of iter xs] by (auto simp: find_None_iff)

lemma find_SomeD: "find P xs = Some x \<Longrightarrow> x \<in> set xs"
  by (metis find_Some_iff nth_mem)

definition ordered_times :: "JobRecord \<Rightarrow> bool" where
  "ordered_times r \<longleftrightarrow>
     (\<forall>t. t \<in> {jr_EnqueuedAt r, jr_FirstDeliveryAt r, jr_LastDeliveryAt r, jr_DeadLetteredAt r,
              jr_RetentionDeadline r} \<longrightarrow> (\<forall>x. t = Some x \<longrightarrow> nanos x \<noteq> 0)) \<and>
     (\<forall>a b. jr_EnqueuedAt r = Some a \<and> jr_FirstDeliveryAt r = Some b \<longrightarrow> nanos a \<le> nanos b) \<and>
     (\<forall>a b. jr_FirstDeliveryAt r = Some a \<and> jr_LastDeliveryAt r = Some b \<longrightarrow> nanos a \<le> nanos b) \<and>
     (\<forall>a b. jr_LastDeliveryAt r = Some a \<and> jr_DeadLetteredAt r = Some b \<longrightarrow> nanos a \<le> nanos b) \<and>
     (\<forall>a b. jr_DeadLetteredAt r = Some a \<and> jr_RetentionDeadline r = Some b \<longrightarrow> nanos a < nanos b)"

lemma chronology_iff:
  assumes "rearranges iter_times"
  shows "invalidRecordChronology iter_times r = '''' \<longleftrightarrow> ordered_times r"
proof (cases "find (\<lambda>(field, v). case v of None \<Rightarrow> False | Some t \<Rightarrow> IsZero t) (iter_times (known_times r))")
  case None
  then have zero: "\<forall>(f, v) \<in> set (known_times r). \<forall>x. v = Some x \<longrightarrow> nanos x \<noteq> 0"
    using find_rearranged [OF assms] by (auto simp: IsZero_def split: option.splits)
  show ?thesis
    using None zero
    by (auto simp: invalidRecordChronology_def ordered_times_def known_before_def known_not_after_def
        Before_def After_def known_times_def split: option.split)
next
  case (Some fv)
  obtain f v where fv: "fv = (f, v)" by (cases fv)
  have "fv \<in> set (known_times r)"
    using find_SomeD [OF Some] rearranged_set [OF assms] by auto
  then have "f \<noteq> ''''" and v: "v \<in> {jr_EnqueuedAt r, jr_FirstDeliveryAt r, jr_LastDeliveryAt r,
      jr_DeadLetteredAt r, jr_RetentionDeadline r}"
    using fv by (auto simp: known_times_def)
  moreover obtain t where "v = Some t" "nanos t = 0"
    using Some fv by (auto simp: find_Some_iff IsZero_def split: option.splits)
  ultimately show ?thesis
    using Some fv by (auto simp: invalidRecordChronology_def ordered_times_def)
qed

definition payload_disclosure :: "Payload \<Rightarrow> bool" where
  "payload_disclosure p \<longleftrightarrow>
     pl_Visibility p \<in> {PayloadHidden, PayloadRedacted, PayloadRevealed} \<and> 0 \<le> pl_Size p \<and>
     (pl_ContentType p = '''' \<or> \<not> invalidIdentity (pl_ContentType p)) \<and>
     (pl_Visibility p \<noteq> PayloadRevealed \<longrightarrow> pl_Data p = []) \<and>
     length (pl_Data p) \<le> 2 ^ 20 \<and> int (length (pl_Data p)) \<le> pl_Size p"

lemma visibility_valid_iff: "visibility_valid v \<longleftrightarrow> v \<in> {PayloadHidden, PayloadRedacted, PayloadRevealed}"
  by (cases v) auto

lemma Payload_validate_iff: "Payload_validate p = None \<longleftrightarrow> payload_disclosure p"
  by (auto simp: Payload_validate_def payload_disclosure_def visibility_valid_iff invalid_def
      MaxAdministrativePayloadBytes_def not_less)

lemma Payload_validate_shape: "Payload_validate p = Some e \<Longrightarrow> \<exists>f q. e = ValidationErr f q"
  by (auto simp: Payload_validate_def split: if_splits)

lemma diagnostics_error_iff: "diagnostics_error r = None \<longleftrightarrow> payload_disclosure (jr_Diagnostics r)"
  unfolding Payload_validate_iff [symmetric] diagnostics_error_def
  by (auto simp: invalid_def split: option.split go_err.split)

lemma diagnostics_error_shape: "diagnostics_error r = Some e \<Longrightarrow> \<exists>f q. e = ValidationErr f q"
  using Payload_validate_shape [of "jr_Diagnostics r"]
  by (auto simp: diagnostics_error_def split: option.splits go_err.splits)

definition lineage_complete :: "JobRecord \<Rightarrow> bool" where
  "lineage_complete r \<longleftrightarrow>
     (jr_ReplayGeneration r \<noteq> 0 \<longrightarrow> jr_OriginalDeadLetterID r \<noteq> '''' \<and> jr_PriorDeadLetterID r \<noteq> '''')"

definition v1_accepted :: "JobRecord \<Rightarrow> bool" where
  "v1_accepted r \<longleftrightarrow>
     classification_valid (jr_Classification r) \<and>
     (jr_Kind r = RecordDeadLetter \<longrightarrow> jr_DeadLetteredAt r \<noteq> None) \<and>
     length (jr_FailureSummary r) \<le> 1024 \<and> payload_disclosure (jr_Diagnostics r) \<and>
     length (map_entries (jr_Tags r)) \<le> 32 \<and>
     (\<forall>(k, v) \<in> set (map_entries (jr_Tags r)). \<not> invalidIdentity k \<and> \<not> invalidIdentity v) \<and>
     (\<forall>(f, v) \<in> set (optional_fields r). v = '''' \<or> \<not> invalidIdentity v) \<and>
     ordered_times r \<and> lineage_complete r"

lemma validate_v1_shape: "validate_v1 ifs its r = Some e \<Longrightarrow> \<exists>f p. e = ValidationErr f p"
  by (auto simp: validate_v1_def dest: diagnostics_error_shape split: if_splits option.splits)

lemma validate_v1_iff:
  assumes "rearranges ifs" and "rearranges its"
  shows "validate_v1 ifs its r = None \<longleftrightarrow> v1_accepted r"
proof -
  have fields: "find (\<lambda>(field, v). v \<noteq> '''' \<and> invalidIdentity v) (ifs (optional_fields r)) = None \<longleftrightarrow>
      (\<forall>(f, v) \<in> set (optional_fields r). v = '''' \<or> \<not> invalidIdentity v)"
    unfolding find_rearranged [OF assms(1)] by auto
  have dead: "ordered_times r \<Longrightarrow> jr_DeadLetteredAt r = Some t \<Longrightarrow> \<not> IsZero t" for t
    by (auto simp: ordered_times_def IsZero_def)
  have lineage: "\<not> (jr_ReplayGeneration r > 0 \<and> jr_OriginalDeadLetterID r = '''') \<and>
      \<not> (jr_ReplayGeneration r > 0 \<and> jr_PriorDeadLetterID r = '''') \<longleftrightarrow> lineage_complete r"
    by (auto simp: lineage_complete_def word_gt_0)
  have tags: "\<not> (\<exists>(k, v) \<in> set (map_entries (jr_Tags r)). invalidIdentity k \<or> invalidIdentity v) \<longleftrightarrow>
      (\<forall>(k, v) \<in> set (map_entries (jr_Tags r)). \<not> invalidIdentity k \<and> \<not> invalidIdentity v)"
    by auto
  show ?thesis
    unfolding v1_accepted_def lineage [symmetric] tags [symmetric] fields [symmetric]
      chronology_iff [OF assms(2), symmetric] diagnostics_error_iff [symmetric]
    using dead [unfolded chronology_iff [OF assms(2), symmetric]]
    by (auto simp: validate_v1_def MaxFailureSummaryBytes_def MaxRecordTags_def split: option.splits)
qed

lemma JobRecord_Validate_shape: "JobRecord_Validate ifs its r = Some e \<Longrightarrow> \<exists>f p. e = ValidationErr f p"
  by (auto simp: JobRecord_Validate_def dest: Payload_validate_shape validate_v1_shape split: if_splits)

interpretation record_item: item_validator "JobRecord_Validate ifs its" for ifs its
  by unfold_locales (rule JobRecord_Validate_shape)

section \<open>Properties\<close>

text \<open>
  whichever order Go iterates the field and time maps in, a record passes Validate exactly
  when its identities are bounded, its payload discloses no bytes unless revealed (and at most
  the inspection limit and its own size), and it is either a legacy record without any extended
  metadata or a current one: a classified failure, with a dead-letter time if it is terminal,
  diagnostics under the same disclosure rule, bounded labels and tags, every known pair of
  neighbouring times in order, and a complete lineage when it was replayed.
\<close>

theorem JobRecord_Validate_accepts:
  assumes "rearranges ifs" and "rearranges its"
  shows "JobRecord_Validate ifs its r = None \<longleftrightarrow>
    jr_Kind r \<in> {RecordFailure, RecordDeadLetter} \<and>
    (\<forall>s \<in> {jr_ID r, jr_Backend r, jr_Queue r, jr_FailureCode r}. \<not> invalidIdentity s) \<and>
    nanos (jr_OccurredAt r) \<noteq> 0 \<and> jr_Attempts r \<noteq> 0 \<and> payload_disclosure (jr_Payload r) \<and>
    (jr_EnvelopeVersion r = 0 \<and> \<not> hasV1Metadata r \<or> jr_EnvelopeVersion r = 1 \<and> v1_accepted r)"
proof -
  have "kind_valid (jr_Kind r) \<longleftrightarrow> jr_Kind r \<in> {RecordFailure, RecordDeadLetter}"
    by (cases "jr_Kind r") auto
  then show ?thesis
    unfolding validate_v1_iff [OF assms, symmetric]
    by (auto simp: JobRecord_Validate_def Payload_validate_iff IsZero_def CurrentEnvelopeVersion_def)
qed

text \<open>
  C35: validating a page of records never panics, and an accepted page has at most 200 records,
  each of which holds payload or diagnostic bytes only where their visibility is revealed.
\<close>

theorem RecordPage_Validate_discloses:
  assumes "rearranges ifs" and "rearranges its"
  shows "RecordPage_Validate ifs its p \<noteq> None \<and>
    (RecordPage_Validate ifs its p = Some None \<longrightarrow>
       length (rp_Items p) \<le> 200 \<and>
       (\<forall>r \<in> set (rp_Items p).
          (pl_Visibility (jr_Payload r) \<noteq> PayloadRevealed \<longrightarrow> pl_Data (jr_Payload r) = []) \<and>
          (pl_Visibility (jr_Diagnostics r) \<noteq> PayloadRevealed \<longrightarrow> pl_Data (jr_Diagnostics r) = [])))"
proof -
  have limit: "unat MaxPageSize = 200"
    by (simp add: MaxPageSize_def)
  have "pl_Data (jr_Payload r) = []" if "JobRecord_Validate ifs its r = None"
    "pl_Visibility (jr_Payload r) \<noteq> PayloadRevealed" for r
    using that by (auto simp: JobRecord_Validate_def Payload_validate_iff payload_disclosure_def
        split: if_splits)
  moreover have "pl_Data (jr_Diagnostics r) = []" if "JobRecord_Validate ifs its r = None"
    "pl_Visibility (jr_Diagnostics r) \<noteq> PayloadRevealed" for r
    using that validate_v1_iff [OF assms, of r]
    by (auto simp: JobRecord_Validate_def v1_accepted_def payload_disclosure_def hasV1Metadata_def
        split: if_splits)
  ultimately show ?thesis
    using record_item.validate_page_accepts [of ifs its 200 "rp_Items p" "rp_NextCursor p"]
    by (auto simp: RecordPage_Validate_def limit)
qed

section \<open>Concrete inputs\<close>

definition sample_record :: JobRecord where
  "sample_record = \<lparr>jr_Kind = RecordDeadLetter, jr_ID = ''1-0'', jr_Backend = ''valkey'', jr_Queue = ''orders'',
     jr_OccurredAt = GoTime 9 0, jr_Attempts = 3, jr_FailureCode = ''handler_failed'',
     jr_Payload = \<lparr>pl_Visibility = PayloadHidden, pl_ContentType = '''', pl_Size = 12, pl_Data = []\<rparr>,
     jr_EnvelopeVersion = 1, jr_PayloadSchemaVersion = '''', jr_OriginalID = '''', jr_Topic = '''',
     jr_Stream = ''orders'', jr_RoutingKey = '''', jr_ConsumerGroup = '''', jr_SourceRecordID = '''',
     jr_EnqueuedAt = Some (GoTime 5 0), jr_FirstDeliveryAt = None, jr_LastDeliveryAt = None,
     jr_DeadLetteredAt = Some (GoTime 9 0), jr_RetryPolicy = '''',
     jr_Classification = ClassificationPermanent, jr_FailureSummary = '''',
     jr_Diagnostics = \<lparr>pl_Visibility = PayloadHidden, pl_ContentType = '''', pl_Size = 0, pl_Data = []\<rparr>,
     jr_HandlerType = '''', jr_JobType = '''', jr_Tags = None, jr_TraceID = '''', jr_TenantID = '''',
     jr_ProducerVersion = '''', jr_WorkerVersion = '''', jr_OriginalDeadLetterID = '''',
     jr_PriorDeadLetterID = '''', jr_ReplayGeneration = 0, jr_RetentionDeadline = Some (GoTime 20 0)\<rparr>"

lemma rearranges_rev: "rearranges rev"
  by (simp add: rearranges_def)

lemma rearranges_id: "rearranges (\<lambda>xs. xs)"
  by (simp add: rearranges_def)

lemma sample_identities:
  "\<not> invalidIdentity ''1-0''" "\<not> invalidIdentity ''valkey''" "\<not> invalidIdentity ''orders''"
  "\<not> invalidIdentity ''handler_failed''"
  by code_simp+

lemma sample_record_valid: "JobRecord_Validate rev (\<lambda>xs. xs) sample_record = None"
  by (simp add: JobRecord_Validate_def sample_record_def sample_identities IsZero_def Payload_validate_def
      CurrentEnvelopeVersion_def validate_v1_def diagnostics_error_def optional_fields_def
      invalidRecordChronology_def known_times_def known_before_def known_not_after_def Before_def After_def
      map_entries_def classification_valid.simps)

theorem JobRecord_Validate_accepts_witness:
  "JobRecord_Validate rev (\<lambda>xs. xs) sample_record = None \<and> v1_accepted sample_record"
proof -
  have "jr_EnvelopeVersion sample_record = 1"
    by (simp add: sample_record_def)
  then show ?thesis
    using JobRecord_Validate_accepts [OF rearranges_rev rearranges_id, of sample_record] sample_record_valid
    by simp
qed

theorem RecordPage_Validate_discloses_witness:
  "RecordPage_Validate rev (\<lambda>xs. xs) \<lparr>rp_Items = [sample_record], rp_NextCursor = ''''\<rparr> = Some None \<and>
   pl_Data (jr_Payload sample_record) = []"
proof -
  have "RecordPage_Validate rev (\<lambda>xs. xs) \<lparr>rp_Items = [sample_record], rp_NextCursor = ''''\<rparr> = Some None"
    by (simp add: RecordPage_Validate_def validate_page_def sample_record_valid MaxPageSize_def)
  then show ?thesis
    using RecordPage_Validate_discloses [OF rearranges_rev rearranges_id,
        of "\<lparr>rp_Items = [sample_record], rp_NextCursor = ''''\<rparr>"]
    by (simp add: sample_record_def)
qed

end
