(* ===== verification/Desired.thy ===== *)
theory Desired
  imports Reader
begin

text \<open>
  Desired-state records and their pull reconciler, src/management/desired.go. The reader and
  the applier are parameters; a reconciliation asks for each target once, so that one function
  each describes their answers to one call of \<^verbatim>\<open>Reconcile\<close>.
\<close>

section \<open>Desired records\<close>

definition MaxDesiredStateTargets :: nat where "MaxDesiredStateTargets = 256"

datatype DesiredState =
    DesiredActive | DesiredPaused | DesiredDraining | DesiredTerminating | OtherDesired string

fun desired_valid :: "DesiredState \<Rightarrow> bool" where
  "desired_valid (OtherDesired _) \<longleftrightarrow> False"
| "desired_valid _ \<longleftrightarrow> True"

record DesiredRecord =
  dr_Target :: Target
  dr_State :: DesiredState
  dr_Revision :: "64 word"
  dr_ChangedAt :: go_time
  dr_CommandID :: string

definition desiredTarget :: "Target \<Rightarrow> bool" where
  "desiredTarget target =
     (if invalidIdentity (target_Name target) then False
      else case target_Kind target of
          TargetQueue \<Rightarrow> True | TargetWorker \<Rightarrow> True | TargetWorkerGroup \<Rightarrow> True | _ \<Rightarrow> False)"

definition DesiredRecord_Validate :: "DesiredRecord \<Rightarrow> error" where
  "DesiredRecord_Validate r =
     (if \<not> desiredTarget (dr_Target r) then invalid ''target'' ''is unsupported or invalid''
      else if \<not> desired_valid (dr_State r) then invalid ''state'' ''is unsupported''
      else if dr_Revision r = 0 then invalid ''revision'' ''must be positive''
      else if IsZero (dr_ChangedAt r) then invalid ''changed_at'' ''is required''
      else if invalidIdentity (dr_CommandID r) then invalid ''command_id'' ''is required and must be bounded''
      else None)"

abbreviation ErrDesiredStateNotFound :: go_err where
  "ErrDesiredStateNotFound \<equiv> sentinel ''management.ErrDesiredStateNotFound''"

abbreviation ErrInvalidDesiredStateConfiguration :: go_err where
  "ErrInvalidDesiredStateConfiguration \<equiv> sentinel ''management.ErrInvalidDesiredStateConfiguration''"

abbreviation ErrInvalidDesiredStateContext :: go_err where
  "ErrInvalidDesiredStateContext \<equiv> sentinel ''management.ErrInvalidDesiredStateContext''"

abbreviation ErrInvalidDesiredStateOutput :: go_err where
  "ErrInvalidDesiredStateOutput \<equiv> sentinel ''management.ErrInvalidDesiredStateOutput''"

abbreviation ErrDesiredStateRegression :: go_err where
  "ErrDesiredStateRegression \<equiv> sentinel ''management.ErrDesiredStateRegression''"

abbreviation ErrDesiredStateConflict :: go_err where
  "ErrDesiredStateConflict \<equiv> sentinel ''management.ErrDesiredStateConflict''"

section \<open>The reconciler\<close>

record DesiredStateReconciler =
  rec_targets :: "Target list"
  rec_applied :: "Target \<rightharpoonup> DesiredRecord"

fun targets_ok :: "Target list \<Rightarrow> Target set \<Rightarrow> bool" where
  "targets_ok [] seen \<longleftrightarrow> True"
| "targets_ok (target # targets) seen \<longleftrightarrow>
     (if \<not> desiredTarget target then False
      else if target \<in> seen then False
      else targets_ok targets (insert target seen))"

definition NewDesiredStateReconciler ::
  "'r provider_value \<Rightarrow> 'a provider_value \<Rightarrow> Target list \<Rightarrow> go_err + DesiredStateReconciler" where
  "NewDesiredStateReconciler reader applier targets =
     (if nilStatusProvider reader \<or> nilStatusProvider applier \<or> length targets = 0 \<or>
         length targets > MaxDesiredStateTargets
      then Inl ErrInvalidDesiredStateConfiguration
      else if \<not> targets_ok targets {} then Inl ErrInvalidDesiredStateConfiguration
      else Inr \<lparr>rec_targets = targets, rec_applied = Map.empty\<rparr>)"

text \<open>
  The loop of \<^verbatim>\<open>Reconcile\<close>: the error it returns, the records handed to the applier, in order,
  and the remembered revisions.
\<close>

fun reconcile_loop ::
  "(Target \<Rightarrow> go_err + DesiredRecord) \<Rightarrow> (DesiredRecord \<Rightarrow> error) \<Rightarrow> Target list \<Rightarrow>
    (Target \<rightharpoonup> DesiredRecord) \<Rightarrow> error \<times> DesiredRecord list \<times> (Target \<rightharpoonup> DesiredRecord)" where
  "reconcile_loop read applier [] applied = (None, [], applied)"
| "reconcile_loop read applier (target # targets) applied =
     (case read target of
        Inl err \<Rightarrow>
          if errors_Is err ''management.ErrDesiredStateNotFound''
          then reconcile_loop read applier targets applied else (Some err, [], applied)
      | Inr record \<Rightarrow>
          if DesiredRecord_Validate record \<noteq> None \<or> dr_Target record \<noteq> target
          then (Some ErrInvalidDesiredStateOutput, [], applied)
          else if (case applied target of None \<Rightarrow> False | Some current \<Rightarrow> dr_Revision record < dr_Revision current)
          then (Some ErrDesiredStateRegression, [], applied)
          else if (case applied target of None \<Rightarrow> False | Some current \<Rightarrow> dr_Revision record = dr_Revision current)
          then (if applied target \<noteq> Some record then (Some ErrDesiredStateConflict, [], applied)
                else reconcile_loop read applier targets applied)
          else case applier record of
              Some err \<Rightarrow> (Some err, [record], applied)
            | None \<Rightarrow>
                (let (err, log, applied) = reconcile_loop read applier targets (applied(target \<mapsto> record))
                 in (err, record # log, applied)))"

definition Reconcile ::
  "bool \<Rightarrow> (Target \<Rightarrow> go_err + DesiredRecord) \<Rightarrow> (DesiredRecord \<Rightarrow> error) \<Rightarrow> DesiredStateReconciler \<Rightarrow>
    error \<times> DesiredRecord list \<times> DesiredStateReconciler" where
  "Reconcile ctx_nil read applier r =
     (if ctx_nil then (Some ErrInvalidDesiredStateContext, [], r)
      else let (err, log, applied) = reconcile_loop read applier (rec_targets r) (rec_applied r)
           in (err, log, r\<lparr>rec_applied := applied\<rparr>))"

section \<open>Revisions only grow\<close>

text \<open>
  The contract of a component that remembers applied revisions: a step keeps the record of a
  target or replaces it by one with a larger revision. The reconciler here and the worker
  lifecycle both keep it.
\<close>

locale revision_store =
  fixes applied :: "'s \<Rightarrow> Target \<Rightarrow> DesiredRecord option"
    and step :: "'s \<Rightarrow> 's \<Rightarrow> bool"
  assumes step_revision: "step s t \<Longrightarrow> applied t x = applied s x \<or>
    (\<exists>r. applied t x = Some r \<and> (\<forall>c. applied s x = Some c \<longrightarrow> dr_Revision c < dr_Revision r))"
begin

lemma revisions_grow:
  "step\<^sup>*\<^sup>* s t \<Longrightarrow> applied s x = Some c \<Longrightarrow>
    \<exists>r. applied t x = Some r \<and> (r = c \<or> dr_Revision c < dr_Revision r)"
proof (induction rule: rtranclp_induct)
  case base
  then show ?case by simp
next
  case (step a b)
  then obtain r where r: "applied a x = Some r" "r = c \<or> dr_Revision c < dr_Revision r"
    by blast
  show ?case
    using step_revision [OF step.hyps(2), of x] r by (auto intro: less_trans)
qed

end

definition newer_or_same :: "(Target \<rightharpoonup> DesiredRecord) \<Rightarrow> (Target \<rightharpoonup> DesiredRecord) \<Rightarrow> Target \<Rightarrow> bool" where
  "newer_or_same old new x \<longleftrightarrow> new x = old x \<or>
    (\<exists>r. new x = Some r \<and> (\<forall>c. old x = Some c \<longrightarrow> dr_Revision c < dr_Revision r))"

lemma newer_or_same_trans: "newer_or_same a b x \<Longrightarrow> newer_or_same b c x \<Longrightarrow> newer_or_same a c x"
  by (auto simp: newer_or_same_def intro: less_trans)

lemma newer_or_same_upd:
  assumes "\<And>c. m x = Some c \<Longrightarrow> dr_Revision c < dr_Revision r"
  shows "newer_or_same m (m(x \<mapsto> r)) y"
  using assms by (simp add: newer_or_same_def)

lemma reconcile_loop_revisions:
  "newer_or_same applied (snd (snd (reconcile_loop read applier targets applied))) x"
proof (induction targets arbitrary: applied)
  case (Cons target targets)
  show ?case
  proof (cases "read target")
    case (Inl err)
    then show ?thesis using Cons by (auto simp: newer_or_same_def)
  next
    case (Inr rcd)
    have upd: "newer_or_same applied (snd (snd (reconcile_loop read applier targets (applied(target \<mapsto> rcd))))) x"
      if "\<not> (case applied target of None \<Rightarrow> False | Some current \<Rightarrow> dr_Revision rcd < dr_Revision current)"
        "\<not> (case applied target of None \<Rightarrow> False | Some current \<Rightarrow> dr_Revision rcd = dr_Revision current)"
      using that
      by (intro newer_or_same_trans [OF newer_or_same_upd [of applied target rcd] Cons])
        (auto simp: not_less order_le_less)
    have same: "newer_or_same applied applied x" by (simp add: newer_or_same_def)
    show ?thesis
      using Inr upd same Cons [of applied] by (simp add: split_beta split: option.split)
  qed
qed (simp add: newer_or_same_def)

definition reconcile_step :: "DesiredStateReconciler \<Rightarrow> DesiredStateReconciler \<Rightarrow> bool" where
  "reconcile_step r r' \<longleftrightarrow> (\<exists>ctx_nil read applier. r' = snd (snd (Reconcile ctx_nil read applier r)))"

interpretation reconciler: revision_store rec_applied reconcile_step
proof unfold_locales
  fix r r' :: DesiredStateReconciler and x
  assume "reconcile_step r r'"
  then obtain ctx_nil read applier where "r' = snd (snd (Reconcile ctx_nil read applier r))"
    by (auto simp: reconcile_step_def)
  then have "newer_or_same (rec_applied r) (rec_applied r') x"
    using reconcile_loop_revisions [of "rec_applied r" read applier "rec_targets r" x]
    by (cases ctx_nil) (auto simp: Reconcile_def split_beta newer_or_same_def)
  then show "rec_applied r' x = rec_applied r x \<or> (\<exists>ra. rec_applied r' x = Some ra \<and>
      (\<forall>c. rec_applied r x = Some c \<longrightarrow> dr_Revision c < dr_Revision ra))"
    by (simp add: newer_or_same_def)
qed

lemma targets_ok_distinct: "targets_ok targets seen \<Longrightarrow> distinct targets \<and> set targets \<inter> seen = {}"
  by (induction targets seen rule: targets_ok.induct) (auto split: if_splits)

lemma reconcile_loop_other:
  "x \<notin> set targets \<Longrightarrow> snd (snd (reconcile_loop read applier targets applied)) x = applied x"
  by (induction targets arbitrary: applied) (auto simp: split_beta split: sum.split option.split)

lemma reconcile_loop_log:
  "record \<in> set (fst (snd (reconcile_loop read applier targets applied))) \<Longrightarrow>
    dr_Target record \<in> set targets \<and> read (dr_Target record) = Inr record"
  by (induction targets arbitrary: applied)
    (auto simp: split_beta split: sum.splits option.splits if_splits)

lemma reconcile_loop_target:
  "fst (reconcile_loop read applier targets applied) = None \<Longrightarrow> t \<in> set targets \<Longrightarrow> read t = Inr rcd \<Longrightarrow>
    dr_Target rcd = t"
  by (induction targets arbitrary: applied)
    (auto simp: split_beta split: sum.splits option.splits if_splits)

lemma reconcile_loop_result:
  assumes "distinct targets" and "fst (reconcile_loop read applier targets applied) = None"
    and "t \<in> set targets"
  shows "case read t of
      Inl err \<Rightarrow> errors_Is err ''management.ErrDesiredStateNotFound'' \<and>
        snd (snd (reconcile_loop read applier targets applied)) t = applied t
    | Inr rcd \<Rightarrow> snd (snd (reconcile_loop read applier targets applied)) t = Some rcd \<and>
        (rcd \<in> set (fst (snd (reconcile_loop read applier targets applied))) \<longleftrightarrow> applied t \<noteq> Some rcd)"
  using assms
proof (induction targets arbitrary: applied)
  case (Cons target targets)
  have log: "rcd \<notin> set (fst (snd (reconcile_loop read applier targets applied')))"
    if "dr_Target rcd = target" for rcd applied'
    using reconcile_loop_log [of rcd read applier targets applied'] Cons.prems(1) that by auto
  have other: "snd (snd (reconcile_loop read applier targets applied')) target = applied' target" for applied'
    using Cons.prems(1) by (intro reconcile_loop_other) simp
  show ?case
  proof (cases "t = target")
    case True
    then show ?thesis
      using Cons.prems(2) log other
      by (auto simp: split_beta split: sum.splits option.splits if_splits)
  next
    case False
    then have t: "t \<in> set targets" and d: "distinct targets" using Cons.prems by auto
    note IH = Cons.IH [OF d _ t]
    have neq: "rcd \<noteq> rcd'" if "read t = Inr rcd" "dr_Target rcd' = target" for rcd rcd'
      using reconcile_loop_target [OF Cons.prems(2,3) that(1)] that(2) False by auto
    show ?thesis
    proof (cases "read target")
      case (Inl err)
      then show ?thesis using Cons.prems(2) IH [of applied] by (auto split: if_splits sum.splits)
    next
      case (Inr r)
      define applied' where "applied' = applied(target \<mapsto> r)"
      have upd: "applied' t = applied t" using False by (simp add: applied'_def)
      show ?thesis
        using Inr Cons.prems(2) IH [of applied] IH [of applied'] upd neq
        by (auto simp: applied'_def [symmetric] split_beta split: sum.splits option.splits if_splits)
    qed
  qed
qed simp

section \<open>Properties\<close>

text \<open>
  C36: over any sequence of reconciliations, whatever the reader and the applier answer, the
  record remembered for a target is never lost, never replaced by an older revision, and never
  by another record of the same revision.
\<close>

theorem Reconcile_revisions_grow:
  assumes "reconcile_step\<^sup>*\<^sup>* r r'" and "rec_applied r target = Some c"
  shows "\<exists>c'. rec_applied r' target = Some c' \<and> (c' = c \<or> dr_Revision c < dr_Revision c')"
  using reconciler.revisions_grow [OF assms] .

text \<open>
  C37: a reconciliation of a constructed reconciler that returns nil converged: for every
  configured target the reader either had no authored state, and nothing changed, or the
  record it returned is now the remembered one; the applier was called with exactly the records
  that were not yet remembered.
\<close>

theorem Reconcile_converges:
  assumes "NewDesiredStateReconciler reader applier_value targets = Inr r0"
    and "reconcile_step\<^sup>*\<^sup>* r0 r" and "Reconcile False read applier r = (None, calls, r')"
    and "t \<in> set targets"
  shows "case read t of
      Inl err \<Rightarrow> errors_Is err ''management.ErrDesiredStateNotFound'' \<and> rec_applied r' t = rec_applied r t
    | Inr rcd \<Rightarrow> rec_applied r' t = Some rcd \<and> (rcd \<in> set calls \<longleftrightarrow> rec_applied r t \<noteq> Some rcd)"
proof -
  have "rec_targets r = rec_targets r0"
    using assms(2) by (induction rule: rtranclp_induct) (auto simp: reconcile_step_def Reconcile_def split_beta)
  moreover have "rec_targets r0 = targets" "distinct targets"
    using assms(1) targets_ok_distinct
    by (auto simp: NewDesiredStateReconciler_def split: if_splits)
  ultimately show ?thesis
    using assms(3,4) reconcile_loop_result [of targets read applier "rec_applied r" t]
    by (auto simp: Reconcile_def split_beta split: sum.splits)
qed

section \<open>Concrete inputs\<close>

definition sample_desired :: "64 word \<Rightarrow> DesiredState \<Rightarrow> DesiredRecord" where
  "sample_desired rev' state = \<lparr>dr_Target = Target TargetQueue ''orders'', dr_State = state, dr_Revision = rev',
     dr_ChangedAt = GoTime 3 0, dr_CommandID = ''c1''\<rparr>"

definition sample_reconciler :: DesiredStateReconciler where
  "sample_reconciler = \<lparr>rec_targets = [Target TargetQueue ''orders''], rec_applied = Map.empty\<rparr>"

definition sample_reconciled :: DesiredStateReconciler where
  "sample_reconciled = sample_reconciler\<lparr>rec_applied :=
     [Target TargetQueue ''orders'' \<mapsto> sample_desired 4 DesiredPaused]\<rparr>"

lemma sample_desired_valid: "DesiredRecord_Validate (sample_desired 4 DesiredPaused) = None"
  by code_simp

lemma sample_reconcile:
  "Reconcile False (\<lambda>_. Inr (sample_desired 4 DesiredPaused)) (\<lambda>_. None) sample_reconciler =
    (None, [sample_desired 4 DesiredPaused], sample_reconciled)"
  by (simp add: Reconcile_def sample_reconciler_def sample_reconciled_def sample_desired_valid)
    (simp add: sample_desired_def)

theorem Reconcile_revisions_grow_witness:
  "\<exists>c'. rec_applied (snd (snd (Reconcile False (\<lambda>_. Inr (sample_desired 2 DesiredActive)) (\<lambda>_. None)
      sample_reconciled))) (Target TargetQueue ''orders'') = Some c' \<and>
     (c' = sample_desired 4 DesiredPaused \<or> dr_Revision (sample_desired 4 DesiredPaused) < dr_Revision c')"
  by (rule Reconcile_revisions_grow [OF r_into_rtranclp, of sample_reconciled])
    (auto simp: reconcile_step_def sample_reconciled_def)

theorem Reconcile_converges_witness:
  "rec_applied sample_reconciled (Target TargetQueue ''orders'') = Some (sample_desired 4 DesiredPaused)"
proof -
  have "desiredTarget (Target TargetQueue ''orders'')" by code_simp
  then have "NewDesiredStateReconciler (Provider ()) (Provider ()) [Target TargetQueue ''orders''] =
      Inr sample_reconciler"
    by (simp add: NewDesiredStateReconciler_def nilStatusProvider_def MaxDesiredStateTargets_def
        sample_reconciler_def)
  from Reconcile_converges [OF this rtranclp.rtrancl_refl sample_reconcile, of "Target TargetQueue ''orders''"]
  show ?thesis by simp
qed

end
