(* ===== verification/Lifecycle.thy ===== *)
theory Lifecycle
  imports Desired
begin

text \<open>
  The worker lifecycle of src/management/lifecycle.go: admission and job counters at their 32
  bits, the requested state, remembered desired revisions and the bounded table of command
  results. The \<^verbatim>\<open>changed\<close> channel is replaced at every notification; it is the number of the
  current generation, and the channel of an earlier generation is closed. Readings of the clock
  are parameters.
\<close>

section \<open>State and counters\<close>

definition MaxLifecycleCommandResults :: int where "MaxLifecycleCommandResults = 10000"

abbreviation ErrInvalidWorkerLifecycleConfiguration :: go_err where
  "ErrInvalidWorkerLifecycleConfiguration \<equiv> sentinel ''management.ErrInvalidWorkerLifecycleConfiguration''"

abbreviation ErrInvalidLifecycleCounter :: go_err where
  "ErrInvalidLifecycleCounter \<equiv> sentinel ''management.ErrInvalidLifecycleCounter''"

abbreviation ErrDesiredStateTargetMismatch :: go_err where
  "ErrDesiredStateTargetMismatch \<equiv> sentinel ''management.ErrDesiredStateTargetMismatch''"

abbreviation ErrInvalidDesiredStateTransition :: go_err where
  "ErrInvalidDesiredStateTransition \<equiv> sentinel ''management.ErrInvalidDesiredStateTransition''"

abbreviation ErrInvalidWorkerLifecycleContext :: go_err where
  "ErrInvalidWorkerLifecycleContext \<equiv> sentinel ''management.ErrInvalidWorkerLifecycleContext''"

record WorkerLifecycleSnapshot =
  snap_State :: WorkerState
  snap_DrainStatus :: DrainState
  snap_CurrentJobs :: "32 word"
  snap_Terminating :: bool

text \<open>The result of an entry is None until its done channel is closed.\<close>

record lifecycleCommandEntry =
  entry_command :: Command
  entry_result :: "CommandResult option"

record WorkerLifecycle =
  lc_metadata :: StatusMetadata
  lc_workerGroup :: string
  lc_queue :: string
  lc_capacity :: int
  lc_state :: DesiredState
  lc_admissions :: "32 word"
  lc_jobs :: "32 word"
  lc_drainTimedOut :: bool
  lc_changed :: nat
  lc_records :: "Target \<rightharpoonup> DesiredRecord"
  lc_commands :: "(string \<times> lifecycleCommandEntry) list"

definition NewWorkerLifecycle ::
  "StatusMetadata \<Rightarrow> string \<Rightarrow> string \<Rightarrow> int \<Rightarrow> bool \<Rightarrow> go_err + WorkerLifecycle" where
  "NewWorkerLifecycle metadata workerGroup queue maxCommandResults now_nil =
     (if StatusMetadata_Validate metadata \<noteq> None \<or> invalidIdentity workerGroup \<or> invalidIdentity queue \<or>
         maxCommandResults < 1 \<or> maxCommandResults > MaxLifecycleCommandResults \<or> now_nil
      then Inl ErrInvalidWorkerLifecycleConfiguration
      else Inr \<lparr>lc_metadata = metadata, lc_workerGroup = workerGroup, lc_queue = queue,
                lc_capacity = maxCommandResults, lc_state = DesiredActive, lc_admissions = 0, lc_jobs = 0,
                lc_drainTimedOut = False, lc_changed = 0, lc_records = Map.empty, lc_commands = []\<rparr>)"

definition notifyLocked :: "WorkerLifecycle \<Rightarrow> WorkerLifecycle" where
  "notifyLocked l = l\<lparr>lc_changed := lc_changed l + 1\<rparr>"

definition BeginAdmission :: "WorkerLifecycle \<Rightarrow> bool \<times> WorkerLifecycle" where
  "BeginAdmission l =
     (if lc_state l \<noteq> DesiredActive then (False, l)
      else (True, notifyLocked (l\<lparr>lc_admissions := lc_admissions l + 1\<rparr>)))"

definition EndAdmission :: "WorkerLifecycle \<Rightarrow> error \<times> WorkerLifecycle" where
  "EndAdmission l =
     (if lc_admissions l = 0 then (Some ErrInvalidLifecycleCounter, l)
      else (None, notifyLocked (l\<lparr>lc_admissions := lc_admissions l - 1\<rparr>)))"

definition PromoteAdmissionToJob :: "WorkerLifecycle \<Rightarrow> error \<times> WorkerLifecycle" where
  "PromoteAdmissionToJob l =
     (if lc_admissions l = 0 then (Some ErrInvalidLifecycleCounter, l)
      else (None, notifyLocked (l\<lparr>lc_admissions := lc_admissions l - 1, lc_jobs := lc_jobs l + 1\<rparr>)))"

definition EndJob :: "WorkerLifecycle \<Rightarrow> error \<times> WorkerLifecycle" where
  "EndJob l =
     (if lc_jobs l = 0 then (Some ErrInvalidLifecycleCounter, l)
      else (None, notifyLocked (l\<lparr>lc_jobs := lc_jobs l - 1\<rparr>)))"

definition snapshotLocked :: "WorkerLifecycle \<Rightarrow> WorkerLifecycleSnapshot" where
  "snapshotLocked l =
     (case lc_state l of
        DesiredPaused \<Rightarrow> \<lparr>snap_State = WorkerPaused, snap_DrainStatus = DrainNotRequested,
          snap_CurrentJobs = lc_jobs l, snap_Terminating = False\<rparr>
      | OtherDesired _ \<Rightarrow> \<lparr>snap_State = WorkerRunning, snap_DrainStatus = DrainNotRequested,
          snap_CurrentJobs = lc_jobs l, snap_Terminating = False\<rparr>
      | DesiredActive \<Rightarrow> \<lparr>snap_State = WorkerRunning, snap_DrainStatus = DrainNotRequested,
          snap_CurrentJobs = lc_jobs l, snap_Terminating = False\<rparr>
      | _ \<Rightarrow> \<lparr>snap_State = WorkerDraining,
          snap_DrainStatus =
            (if lc_drainTimedOut l then DrainTimedOut
             else if lc_admissions l = 0 \<and> lc_jobs l = 0 then DrainCompleted else DrainInProgress),
          snap_CurrentJobs = lc_jobs l, snap_Terminating = (lc_state l = DesiredTerminating)\<rparr>)"

definition lifecycle_matches :: "WorkerLifecycle \<Rightarrow> Target \<Rightarrow> bool" where
  "lifecycle_matches l target =
     (if target_Kind target = TargetQueue then target_Name target = lc_queue l
      else if target_Kind target = TargetWorker then target_Name target = sm_ID (lc_metadata l)
      else target_Kind target = TargetWorkerGroup \<and> target_Name target = lc_workerGroup l)"

definition validTargetState :: "Target \<Rightarrow> DesiredState \<Rightarrow> bool" where
  "validTargetState target state =
     (if target_Kind target = TargetQueue then state = DesiredActive \<or> state = DesiredPaused
      else if target_Kind target = TargetWorker then state = DesiredDraining \<or> state = DesiredTerminating
      else target_Kind target = TargetWorkerGroup \<and> desired_valid state)"

definition lifecycle_result ::
  "WorkerLifecycle \<Rightarrow> go_time \<Rightarrow> Command \<Rightarrow> CommandResultStatus \<Rightarrow> string \<Rightarrow> CommandResult" where
  "lifecycle_result l now command status failureCode =
     \<lparr>result_CommandID = cmd_ID command, result_IdempotencyKey = cmd_IdempotencyKey command,
      result_WorkerID = sm_ID (lc_metadata l), result_Protocol = sm_Protocol (lc_metadata l),
      result_Status = status, result_FailureCode = failureCode, result_CompletedAt = UTC now\<rparr>"

fun lifecycleCommandState :: "CommandAction \<Rightarrow> DesiredState option" where
  "lifecycleCommandState CommandPause = Some DesiredPaused"
| "lifecycleCommandState CommandResume = Some DesiredActive"
| "lifecycleCommandState CommandDrain = Some DesiredDraining"
| "lifecycleCommandState CommandTerminate = Some DesiredTerminating"
| "lifecycleCommandState _ = None"

definition transitionCompleteLocked :: "WorkerLifecycle \<Rightarrow> DesiredState \<Rightarrow> bool" where
  "transitionCompleteLocked l state =
     (if state = DesiredActive then True
      else if state = DesiredPaused then lc_admissions l = 0
      else lc_admissions l = 0 \<and> lc_jobs l = 0)"

section \<open>Commands, desired records and transitions\<close>

text \<open>What \<^verbatim>\<open>commandEntry\<close> returns: a result of its own, the existing entry, or a new one.\<close>

datatype entry_decision = EntryResult CommandResult | EntryExisting | EntryNew WorkerLifecycle

definition commandEntry :: "WorkerLifecycle \<Rightarrow> go_time \<Rightarrow> Command \<Rightarrow> entry_decision" where
  "commandEntry l now command =
     (case map_of (lc_commands l) (cmd_IdempotencyKey command) of
        Some entry \<Rightarrow>
          if entry_command entry \<noteq> command
          then EntryResult (lifecycle_result l now command CommandRejected ''idempotency_conflict'')
          else EntryExisting
      | None \<Rightarrow>
          if int (length (lc_commands l)) \<ge> lc_capacity l
          then EntryResult (lifecycle_result l now command CommandRejected ''idempotency_capacity'')
          else EntryNew (l\<lparr>lc_commands := lc_commands l @
            [(cmd_IdempotencyKey command, \<lparr>entry_command = command, entry_result = None\<rparr>)]\<rparr>))"

definition store_result :: "string \<Rightarrow> CommandResult \<Rightarrow> WorkerLifecycle \<Rightarrow> WorkerLifecycle" where
  "store_result key result l =
     l\<lparr>lc_commands := map (\<lambda>(k, e). (k, if k = key then e\<lparr>entry_result := Some result\<rparr> else e))
       (lc_commands l)\<rparr>"

text \<open>\<^verbatim>\<open>executeNew\<close> up to the transition: an early result, or the state to go to.\<close>

definition executeNew_checks ::
  "WorkerLifecycle \<Rightarrow> go_time \<Rightarrow> go_time \<Rightarrow> Command \<Rightarrow> CommandResult + DesiredState" where
  "executeNew_checks l now completed command =
     (if cmd_Protocol command \<noteq> sm_Protocol (lc_metadata l)
      then Inl (lifecycle_result l completed command CommandUnsupported ''protocol_mismatch'')
      else case lifecycleCommandState (cmd_Action command) of
          None \<Rightarrow> Inl (lifecycle_result l completed command CommandUnsupported ''unsupported_action'')
        | Some state \<Rightarrow>
            if \<not> lifecycle_matches l (cmd_Target command)
            then Inl (lifecycle_result l completed command CommandRejected ''target_mismatch'')
            else if \<not> After (cmd_Deadline command) (UTC now)
            then Inl (lifecycle_result l completed command CommandTimedOut ''deadline_exceeded'')
            else Inr state)"

definition executeNew_outcome :: "WorkerLifecycle \<Rightarrow> go_time \<Rightarrow> Command \<Rightarrow> error \<Rightarrow> CommandResult" where
  "executeNew_outcome l completed command err =
     (if err \<noteq> None
      then (if error_Is err ''context.Canceled'' \<or> error_Is err ''context.DeadlineExceeded''
            then lifecycle_result l completed command CommandTimedOut ''deadline_exceeded''
            else lifecycle_result l completed command CommandRejected ''invalid_transition'')
      else lifecycle_result l completed command CommandAcknowledged '''')"

text \<open>The checks of \<^verbatim>\<open>ApplyDesiredState\<close> under its mutex: a result, or go on to the transition.\<close>

definition apply_checks :: "WorkerLifecycle \<Rightarrow> DesiredRecord \<Rightarrow> error option" where
  "apply_checks l record =
     (if \<not> lifecycle_matches l (dr_Target record) then Some (Some ErrDesiredStateTargetMismatch)
      else if \<not> validTargetState (dr_Target record) (dr_State record)
      then Some (Some ErrInvalidDesiredStateTransition)
      else case lc_records l (dr_Target record) of
          None \<Rightarrow> None
        | Some current \<Rightarrow>
            if dr_Revision record < dr_Revision current then Some (Some ErrDesiredStateRegression)
            else if dr_Revision record = dr_Revision current
            then (if record \<noteq> current then Some (Some ErrDesiredStateConflict) else Some None)
            else None)"

definition transition_set :: "DesiredState \<Rightarrow> WorkerLifecycle \<Rightarrow> go_err + WorkerLifecycle" where
  "transition_set state l =
     (if lc_state l = DesiredTerminating \<and> state \<noteq> DesiredTerminating
      then Inl ErrInvalidDesiredStateTransition
      else Inr (notifyLocked (l\<lparr>lc_state := state, lc_drainTimedOut := False\<rparr>)))"

definition transition_timeout :: "WorkerLifecycle \<Rightarrow> WorkerLifecycle" where
  "transition_timeout l = notifyLocked (l\<lparr>lc_drainTimedOut := True\<rparr>)"

section \<open>Status overlay\<close>

fun containsIdentity :: "string list \<Rightarrow> string \<Rightarrow> bool" where
  "containsIdentity [] wanted \<longleftrightarrow> False"
| "containsIdentity (v # vs) wanted \<longleftrightarrow> (if v = wanted then True else containsIdentity vs wanted)"

definition deduplicateCapabilities :: "Capability list \<Rightarrow> Capability list" where
  "deduplicateCapabilities values =
     fold (\<lambda>v result. if result = [] \<or> last result \<noteq> v then result @ [v] else result) values []"

definition DecorateWorkerStatus :: "WorkerLifecycle \<Rightarrow> WorkerStatus \<Rightarrow> go_err + WorkerStatus" where
  "DecorateWorkerStatus l status =
     (if WorkerStatus_Validate status \<noteq> None \<or> ws_ID status \<noteq> sm_ID (lc_metadata l) \<or>
         ws_Version status \<noteq> sm_Version (lc_metadata l) \<or>
         ws_Concurrency status \<noteq> sm_Concurrency (lc_metadata l) \<or>
         ws_Protocol status \<noteq> sm_Protocol (lc_metadata l) \<or>
         \<not> containsIdentity (ws_Queues status) (lc_queue l)
      then Inl ErrDesiredStateTargetMismatch
      else let snapshot = snapshotLocked l;
               status = status\<lparr>ws_State := snap_State snapshot, ws_DrainStatus := snap_DrainStatus snapshot,
                 ws_CurrentJobs := snap_CurrentJobs snapshot,
                 ws_Capabilities := deduplicateCapabilities (sort (ws_Capabilities status @
                   [CapabilityPause, CapabilityResume, CapabilityDrain, CapabilityTerminate]))\<rparr>
           in if WorkerStatus_Validate status \<noteq> None then Inl ErrInvalidStatusProviderOutput
              else Inr status)"

lemma fold_dedup:
  "fold (\<lambda>v result. if result = [] \<or> last result \<noteq> v then result @ [v] else result) xs (ys @ [y]) =
     ys @ remdups_adj (y # xs)"
proof (induction xs arbitrary: ys y)
  case (Cons x xs)
  then show ?case
    using Cons.IH [of ys y] Cons.IH [of "ys @ [y]" x] by simp
qed simp

lemma deduplicateCapabilities_remdups: "deduplicateCapabilities xs = remdups_adj xs"
  using fold_dedup [of _ "[]"] by (cases xs) (simp_all add: deduplicateCapabilities_def)

lemma distinct_remdups_adj_sorted: "sorted xs \<Longrightarrow> distinct (remdups_adj xs)" for xs :: "'a :: linorder list"
  by (induction xs rule: remdups_adj.induct) (auto simp: less_le_not_le)

lemma remdups_adj_sort: "remdups_adj (sort xs) = sorted_list_of_set (set xs)" for xs :: "'a :: linorder list"
  using sorted_distinct_set_unique [of "remdups_adj (sort xs)" "sorted_list_of_set (set xs)"]
    distinct_remdups_adj_sorted [of "sort xs"] by simp

lemma containsIdentity_set: "containsIdentity vs w \<longleftrightarrow> w \<in> set vs"
  by (induction vs) auto

lemmas capability_names = CapabilityPause_def CapabilityResume_def CapabilityDrain_def CapabilityTerminate_def

text \<open>
  A decorated status describes the worker the backend reported, with the admission state, the
  drain progress and the job count of the lifecycle, with the backend's capabilities and the four
  lifecycle capabilities in sorted order without repetition; it is a valid worker report, so a
  job count above the configured concurrency is never presented.
\<close>

theorem DecorateWorkerStatus_valid:
  assumes "DecorateWorkerStatus l status = Inr decorated"
  shows "decorated = status\<lparr>ws_State := snap_State (snapshotLocked l),
      ws_DrainStatus := snap_DrainStatus (snapshotLocked l), ws_CurrentJobs := lc_jobs l,
      ws_Capabilities := sorted_list_of_set (set (ws_Capabilities status) \<union>
        {''pause'', ''resume'', ''drain'', ''terminate''})\<rparr> \<and>
    WorkerStatus_Validate decorated = None \<and> lc_jobs l \<le> sm_Concurrency (lc_metadata l) \<and>
    ws_ID decorated = sm_ID (lc_metadata l) \<and> lc_queue l \<in> set (ws_Queues decorated)"
proof -
  have jobs: "snap_CurrentJobs (snapshotLocked l) = lc_jobs l"
    by (simp add: snapshotLocked_def split: DesiredState.split)
  have caps: "deduplicateCapabilities (sort (ws_Capabilities status @
      [CapabilityPause, CapabilityResume, CapabilityDrain, CapabilityTerminate])) =
      sorted_list_of_set (set (ws_Capabilities status) \<union> {''pause'', ''resume'', ''drain'', ''terminate''})"
    unfolding deduplicateCapabilities_remdups remdups_adj_sort by (simp add: capability_names)
  note eq = assms [unfolded DecorateWorkerStatus_def caps Let_def jobs]
  have "\<not> ws_CurrentJobs decorated > ws_Concurrency decorated"
    using eq by (auto simp: WorkerStatus_Validate_def split: if_splits)
  then show ?thesis
    using eq by (auto simp: containsIdentity_set split: if_splits)
qed

definition sample_status_metadata :: StatusMetadata where
  "sample_status_metadata =
     \<lparr>sm_ID = ''w1'', sm_Version = ''v1'', sm_Concurrency = 4, sm_Protocol = ProtocolVersion 1 0\<rparr>"

definition sample_lifecycle :: WorkerLifecycle where
  "sample_lifecycle = \<lparr>lc_metadata = sample_status_metadata, lc_workerGroup = ''g'', lc_queue = ''q'',
     lc_capacity = 2, lc_state = DesiredActive, lc_admissions = 0, lc_jobs = 0, lc_drainTimedOut = False,
     lc_changed = 0, lc_records = Map.empty, lc_commands = []\<rparr>"

theorem DecorateWorkerStatus_valid_witness:
  "\<exists>decorated. DecorateWorkerStatus sample_lifecycle (sample_worker ''w1'') = Inr decorated \<and>
     lc_queue sample_lifecycle \<in> set (ws_Queues decorated)"
proof -
  have "result_ok (DecorateWorkerStatus sample_lifecycle (sample_worker ''w1''))"
    by (simp add: DecorateWorkerStatus_def WorkerStatus_Validate_def sample_lifecycle_def sample_worker_def
        sample_status_metadata_def snapshotLocked_def invalidIdentity_def MaxIdentityBytes_def IsZero_def Before_def
        invalid_labels_def MaxQueuesPerWorker_def MaxWorkerConcurrency_def MaxCapabilitiesPerWorker_def
        zero_version_def capability_names deduplicateCapabilities_def)
  then obtain decorated where d: "DecorateWorkerStatus sample_lifecycle (sample_worker ''w1'') = Inr decorated"
    by (cases "DecorateWorkerStatus sample_lifecycle (sample_worker ''w1'')") simp_all
  with DecorateWorkerStatus_valid [OF d] show ?thesis by blast
qed

end
