(* ===== verification/Lifecycle_Concurrency.thy ===== *)
theory Lifecycle_Concurrency
  imports Lifecycle
begin

text \<open>
  Concurrent use of the worker lifecycle: threads run \<^verbatim>\<open>Execute\<close> and \<^verbatim>\<open>ApplyDesiredState\<close>
  while the scheduler begins, ends and promotes admissions and ends jobs. A critical section of
  \<^verbatim>\<open>mu\<close> is one step; \<^verbatim>\<open>applyMu\<close> is held across the steps of a transition. Contexts may end
  at any time with one of the two context errors, clock readings are arbitrary. History kept
  for the statements: the number of granted admissions, the state of the last completed
  transition as long as no other one began, and the keys of the commands that were executed.
\<close>

section \<open>Steps\<close>

datatype lc_goal = ForCommand Command | ForRecord DesiredRecord

datatype lc_pc =
    LcIdle
  | ExecWait Command
  | ExecNew Command
  | ExecLock Command DesiredState
  | ApplyLock DesiredRecord
  | ApplyCheck DesiredRecord
  | TransSet lc_goal DesiredState
  | TransCheck lc_goal DesiredState
  | TransSelect lc_goal DesiredState nat
  | TransReturn lc_goal DesiredState error
  | ExecStore Command CommandResult
  | ExecReturned Command "go_err + CommandResult"
  | ApplyReturned DesiredRecord error

record lc_sys =
  lg_l :: WorkerLifecycle
  lg_applyMu :: "nat option"
  lg_pc :: "nat \<Rightarrow> lc_pc"
  lg_granted :: nat
  lg_settled :: "DesiredState option"
  lg_runs :: "string list"

abbreviation lc_goto :: "nat \<Rightarrow> lc_pc \<Rightarrow> lc_sys \<Rightarrow> lc_sys" where
  "lc_goto i p g \<equiv> g\<lparr>lg_pc := (lg_pc g)(i := p)\<rparr>"

inductive lc_step :: "lc_sys \<Rightarrow> lc_sys \<Rightarrow> bool" where
  begin_admission: "BeginAdmission (lg_l g) = (granted, l) \<Longrightarrow>
    lc_step g (g\<lparr>lg_l := l, lg_granted := lg_granted g + (if granted then 1 else 0)\<rparr>)"
| end_admission: "EndAdmission (lg_l g) = (err, l) \<Longrightarrow> lc_step g (g\<lparr>lg_l := l\<rparr>)"
| promote: "PromoteAdmissionToJob (lg_l g) = (err, l) \<Longrightarrow> lc_step g (g\<lparr>lg_l := l\<rparr>)"
| end_job: "EndJob (lg_l g) = (err, l) \<Longrightarrow> lc_step g (g\<lparr>lg_l := l\<rparr>)"
| exec_nil_context: "lg_pc g i = LcIdle \<Longrightarrow>
    lc_step g (lc_goto i (ExecReturned c (Inl ErrInvalidWorkerLifecycleContext)) g)"
| exec_invalid: "lg_pc g i = LcIdle \<Longrightarrow> Command_Validate c = Some e \<Longrightarrow>
    lc_step g (lc_goto i (ExecReturned c (Inl e)) g)"
| exec_entry_result: "lg_pc g i = LcIdle \<Longrightarrow> Command_Validate c = None \<Longrightarrow>
    commandEntry (lg_l g) now c = EntryResult r \<Longrightarrow> lc_step g (lc_goto i (ExecReturned c (Inr r)) g)"
| exec_entry_existing: "lg_pc g i = LcIdle \<Longrightarrow> Command_Validate c = None \<Longrightarrow>
    commandEntry (lg_l g) now c = EntryExisting \<Longrightarrow> lc_step g (lc_goto i (ExecWait c) g)"
| exec_entry_new: "lg_pc g i = LcIdle \<Longrightarrow> Command_Validate c = None \<Longrightarrow>
    commandEntry (lg_l g) now c = EntryNew l \<Longrightarrow>
    lc_step g (lc_goto i (ExecNew c) (g\<lparr>lg_l := l, lg_runs := lg_runs g @ [cmd_IdempotencyKey c]\<rparr>))"
| exec_wait_done: "lg_pc g i = ExecWait c \<Longrightarrow>
    map_of (lc_commands (lg_l g)) (cmd_IdempotencyKey c) = Some entry \<Longrightarrow> entry_result entry = Some r \<Longrightarrow>
    lc_step g (lc_goto i (ExecReturned c (Inr r)) g)"
| exec_wait_context: "lg_pc g i = ExecWait c \<Longrightarrow>
    lc_step g (lc_goto i (ExecReturned c (Inr (lifecycle_result (lg_l g) now c CommandUnknown ''''))) g)"
| exec_new_result: "lg_pc g i = ExecNew c \<Longrightarrow> executeNew_checks (lg_l g) now completed c = Inl r \<Longrightarrow>
    lc_step g (lc_goto i (ExecStore c r) g)"
| exec_new_transition: "lg_pc g i = ExecNew c \<Longrightarrow> executeNew_checks (lg_l g) now completed c = Inr st \<Longrightarrow>
    lc_step g (lc_goto i (ExecLock c st) g)"
| exec_lock: "lg_pc g i = ExecLock c st \<Longrightarrow> lg_applyMu g = None \<Longrightarrow>
    lc_step g (lc_goto i (TransSet (ForCommand c) st) (g\<lparr>lg_applyMu := Some i\<rparr>))"
| apply_nil_context: "lg_pc g i = LcIdle \<Longrightarrow>
    lc_step g (lc_goto i (ApplyReturned r (Some ErrInvalidDesiredStateContext)) g)"
| apply_invalid: "lg_pc g i = LcIdle \<Longrightarrow> DesiredRecord_Validate r \<noteq> None \<Longrightarrow>
    lc_step g (lc_goto i (ApplyReturned r (Some ErrInvalidDesiredStateOutput)) g)"
| apply_call: "lg_pc g i = LcIdle \<Longrightarrow> DesiredRecord_Validate r = None \<Longrightarrow> lc_step g (lc_goto i (ApplyLock r) g)"
| apply_lock: "lg_pc g i = ApplyLock r \<Longrightarrow> lg_applyMu g = None \<Longrightarrow>
    lc_step g (lc_goto i (ApplyCheck r) (g\<lparr>lg_applyMu := Some i\<rparr>))"
| apply_check_return: "lg_pc g i = ApplyCheck r \<Longrightarrow> apply_checks (lg_l g) r = Some err \<Longrightarrow>
    lc_step g (lc_goto i (ApplyReturned r err) (g\<lparr>lg_applyMu := None\<rparr>))"
| apply_check_go: "lg_pc g i = ApplyCheck r \<Longrightarrow> apply_checks (lg_l g) r = None \<Longrightarrow>
    lc_step g (lc_goto i (TransSet (ForRecord r) (dr_State r)) g)"
| trans_refused: "lg_pc g i = TransSet goal st \<Longrightarrow> transition_set st (lg_l g) = Inl e \<Longrightarrow>
    lc_step g (lc_goto i (TransReturn goal st (Some e)) g)"
| trans_begin: "lg_pc g i = TransSet goal st \<Longrightarrow> transition_set st (lg_l g) = Inr l \<Longrightarrow>
    lc_step g (lc_goto i (TransCheck goal st) (g\<lparr>lg_l := l, lg_settled := None\<rparr>))"
| trans_complete: "lg_pc g i = TransCheck goal st \<Longrightarrow> transitionCompleteLocked (lg_l g) st \<Longrightarrow>
    lc_step g (lc_goto i (TransReturn goal st None) (g\<lparr>lg_settled := Some st\<rparr>))"
| trans_wait: "lg_pc g i = TransCheck goal st \<Longrightarrow> \<not> transitionCompleteLocked (lg_l g) st \<Longrightarrow>
    lc_step g (lc_goto i (TransSelect goal st (lc_changed (lg_l g))) g)"
| trans_changed: "lg_pc g i = TransSelect goal st ch \<Longrightarrow> ch < lc_changed (lg_l g) \<Longrightarrow>
    lc_step g (lc_goto i (TransCheck goal st) g)"
| trans_canceled: "lg_pc g i = TransSelect goal st ch \<Longrightarrow>
    lc_step g (lc_goto i (TransReturn goal st (Some Canceled)) g)"
| trans_deadline: "lg_pc g i = TransSelect goal st ch \<Longrightarrow>
    lc_step g (lc_goto i (TransReturn goal st (Some DeadlineExceeded)) (g\<lparr>lg_l := transition_timeout (lg_l g)\<rparr>))"
| exec_return: "lg_pc g i = TransReturn (ForCommand c) st err \<Longrightarrow>
    lc_step g (lc_goto i (ExecStore c (executeNew_outcome (lg_l g) completed c err)) (g\<lparr>lg_applyMu := None\<rparr>))"
| apply_failed: "lg_pc g i = TransReturn (ForRecord r) st (Some e) \<Longrightarrow>
    lc_step g (lc_goto i (ApplyReturned r (Some e)) (g\<lparr>lg_applyMu := None\<rparr>))"
| apply_recorded: "lg_pc g i = TransReturn (ForRecord r) st None \<Longrightarrow>
    lc_step g (lc_goto i (ApplyReturned r None) (g\<lparr>lg_applyMu := None,
      lg_l := (lg_l g)\<lparr>lc_records := (lc_records (lg_l g))(dr_Target r \<mapsto> r)\<rparr>\<rparr>))"
| exec_store: "lg_pc g i = ExecStore c r \<Longrightarrow>
    lc_step g (lc_goto i (ExecReturned c (Inr r)) (g\<lparr>lg_l := store_result (cmd_IdempotencyKey c) r (lg_l g)\<rparr>))"
| exec_again: "lg_pc g i = ExecReturned c res \<Longrightarrow> lc_step g (lc_goto i LcIdle g)"
| apply_again: "lg_pc g i = ApplyReturned r err \<Longrightarrow> lc_step g (lc_goto i LcIdle g)"

definition lc_start :: "lc_sys \<Rightarrow> bool" where
  "lc_start g \<longleftrightarrow>
     (\<exists>metadata group queue size. NewWorkerLifecycle metadata group queue size False = Inr (lg_l g)) \<and>
     lg_applyMu g = None \<and> lg_pc g = (\<lambda>_. LcIdle) \<and> lg_granted g = 0 \<and> lg_settled g = None \<and>
     lg_runs g = []"

section \<open>The invariant\<close>

fun holds_apply :: "lc_pc \<Rightarrow> bool" where
  "holds_apply (ApplyCheck _) = True"
| "holds_apply (TransSet _ _) = True"
| "holds_apply (TransCheck _ _) = True"
| "holds_apply (TransSelect _ _ _) = True"
| "holds_apply (TransReturn _ _ _) = True"
| "holds_apply _ = False"

definition apply_inv :: "lc_sys \<Rightarrow> bool" where
  "apply_inv g \<longleftrightarrow> (\<forall>i. holds_apply (lg_pc g i) \<longleftrightarrow> lg_applyMu g = Some i)"

text \<open>What a waiting transition knows: the state is the one it set, and a wait on the current channel is needed.\<close>

fun pc_state_ok :: "WorkerLifecycle \<Rightarrow> lc_pc \<Rightarrow> bool" where
  "pc_state_ok l (TransCheck _ st) \<longleftrightarrow> lc_state l = st"
| "pc_state_ok l (TransSelect _ st ch) \<longleftrightarrow> lc_state l = st \<and> ch \<le> lc_changed l \<and>
     (ch = lc_changed l \<longrightarrow> \<not> transitionCompleteLocked l st)"
| "pc_state_ok l _ \<longleftrightarrow> True"

fun pc_record_ok :: "WorkerLifecycle \<Rightarrow> lc_pc \<Rightarrow> bool" where
  "pc_record_ok l (TransSet (ForRecord r) _) \<longleftrightarrow> apply_checks l r = None"
| "pc_record_ok l (TransCheck (ForRecord r) _) \<longleftrightarrow> apply_checks l r = None"
| "pc_record_ok l (TransSelect (ForRecord r) _ _) \<longleftrightarrow> apply_checks l r = None"
| "pc_record_ok l (TransReturn (ForRecord r) _ _) \<longleftrightarrow> apply_checks l r = None"
| "pc_record_ok l _ \<longleftrightarrow> True"

definition settled_inv :: "lc_sys \<Rightarrow> bool" where
  "settled_inv g \<longleftrightarrow> (\<forall>st. lg_settled g = Some st \<longrightarrow>
     lc_state (lg_l g) = st \<and> transitionCompleteLocked (lg_l g) st)"

definition trans_inv :: "lc_sys \<Rightarrow> bool" where
  "trans_inv g \<longleftrightarrow> (\<forall>i. pc_state_ok (lg_l g) (lg_pc g i) \<and> pc_record_ok (lg_l g) (lg_pc g i))"

text \<open>The key of a command whose result is still to be stored.\<close>

fun pc_pending :: "lc_pc \<Rightarrow> Command option" where
  "pc_pending (ExecNew c) = Some c"
| "pc_pending (ExecLock c _) = Some c"
| "pc_pending (TransSet (ForCommand c) _) = Some c"
| "pc_pending (TransCheck (ForCommand c) _) = Some c"
| "pc_pending (TransSelect (ForCommand c) _ _) = Some c"
| "pc_pending (TransReturn (ForCommand c) _ _) = Some c"
| "pc_pending (ExecStore c _) = Some c"
| "pc_pending _ = None"

definition command_inv :: "lc_sys \<Rightarrow> bool" where
  "command_inv g \<longleftrightarrow>
     map fst (lc_commands (lg_l g)) = lg_runs g \<and> distinct (lg_runs g) \<and>
     int (length (lg_runs g)) \<le> lc_capacity (lg_l g) \<and>
     (\<forall>k e. (k, e) \<in> set (lc_commands (lg_l g)) \<longrightarrow> cmd_IdempotencyKey (entry_command e) = k) \<and>
     (\<forall>i c. pc_pending (lg_pc g i) = Some c \<longrightarrow>
        map_of (lc_commands (lg_l g)) (cmd_IdempotencyKey c) = Some \<lparr>entry_command = c, entry_result = None\<rparr>) \<and>
     (\<forall>i j c d. pc_pending (lg_pc g i) = Some c \<and> pc_pending (lg_pc g j) = Some d \<and>
        cmd_IdempotencyKey c = cmd_IdempotencyKey d \<longrightarrow> i = j)"

definition lc_inv :: "lc_sys \<Rightarrow> bool" where
  "lc_inv g \<longleftrightarrow> apply_inv g \<and> settled_inv g \<and> trans_inv g \<and> command_inv g"

lemma apply_stay:
  "apply_inv g \<Longrightarrow> lg_pc h = lg_pc g \<Longrightarrow> lg_applyMu h = lg_applyMu g \<Longrightarrow>
    holds_apply p = holds_apply (lg_pc g i) \<Longrightarrow> apply_inv (lc_goto i p h)"
  by (simp add: apply_inv_def)

lemma apply_acquire:
  "apply_inv g \<Longrightarrow> lg_applyMu g = None \<Longrightarrow> holds_apply p \<Longrightarrow>
    apply_inv (lc_goto i p (g\<lparr>lg_applyMu := Some i\<rparr>))"
  by (auto simp: apply_inv_def)

lemma apply_release:
  "apply_inv g \<Longrightarrow> holds_apply (lg_pc g i) \<Longrightarrow> \<not> holds_apply p \<Longrightarrow> lg_applyMu h = None \<Longrightarrow> lg_pc h = lg_pc g \<Longrightarrow>
    apply_inv (lc_goto i p h)"
  by (simp add: apply_inv_def)

lemma apply_step: "lc_step g h \<Longrightarrow> apply_inv g \<Longrightarrow> apply_inv h"
proof (induction rule: lc_step.induct)
  case (exec_lock g i c st)
  then show ?case by (intro apply_acquire) simp_all
next
  case (apply_lock g i r)
  then show ?case by (intro apply_acquire) simp_all
next
  case (apply_check_return g i r err)
  then show ?case by (intro apply_release) simp_all
next
  case (exec_return g i c st err completed)
  then show ?case by (intro apply_release) simp_all
next
  case (apply_failed g i r st e)
  then show ?case by (intro apply_release) simp_all
next
  case (apply_recorded g i r st)
  then show ?case by (intro apply_release) simp_all
qed (simp add: apply_inv_def; fail | rule apply_stay, assumption, simp, simp, simp)+

lemma apply_alone: "apply_inv g \<Longrightarrow> holds_apply (lg_pc g i) \<Longrightarrow> holds_apply (lg_pc g j) \<Longrightarrow> i = j"
  by (simp add: apply_inv_def)

lemmas counter_defs =
  BeginAdmission_def EndAdmission_def PromoteAdmissionToJob_def EndJob_def notifyLocked_def
  transition_timeout_def store_result_def

lemma commandEntry_new:
  "commandEntry l now c = EntryNew l' \<Longrightarrow>
     map_of (lc_commands l) (cmd_IdempotencyKey c) = None \<and> int (length (lc_commands l)) < lc_capacity l \<and>
     l' = l\<lparr>lc_commands := lc_commands l @ [(cmd_IdempotencyKey c, \<lparr>entry_command = c, entry_result = None\<rparr>)]\<rparr>"
  by (auto simp: commandEntry_def split: option.splits if_splits)

lemma transition_set_ok:
  "transition_set st l = Inr l' \<Longrightarrow> l' = notifyLocked (l\<lparr>lc_state := st, lc_drainTimedOut := False\<rparr>) \<and>
     (lc_state l = DesiredTerminating \<longrightarrow> st = DesiredTerminating)"
  by (auto simp: transition_set_def split: if_splits)

text \<open>Every counter operation keeps a completed transition completed, as long as the state is kept.\<close>

lemma complete_kept:
  assumes "transitionCompleteLocked l st" and "lc_state l = st"
  shows "BeginAdmission l = (b, l1) \<Longrightarrow> transitionCompleteLocked l1 st"
    and "EndAdmission l = (e, l2) \<Longrightarrow> transitionCompleteLocked l2 st"
    and "PromoteAdmissionToJob l = (e, l3) \<Longrightarrow> transitionCompleteLocked l3 st"
    and "EndJob l = (e, l4) \<Longrightarrow> transitionCompleteLocked l4 st"
  using assms by (auto simp: counter_defs transitionCompleteLocked_def split: if_splits)

lemma counter_state:
  "BeginAdmission l = (b, l1) \<Longrightarrow> lc_state l1 = lc_state l" "EndAdmission l = (e, l2) \<Longrightarrow> lc_state l2 = lc_state l"
  "PromoteAdmissionToJob l = (e, l3) \<Longrightarrow> lc_state l3 = lc_state l" "EndJob l = (e, l4) \<Longrightarrow> lc_state l4 = lc_state l"
  by (auto simp: counter_defs split: if_splits)



lemma trans_at:
  "trans_inv g \<Longrightarrow> lg_pc g i = p \<Longrightarrow> pc_state_ok (lg_l g) p \<and> pc_record_ok (lg_l g) p"
  by (auto simp: trans_inv_def)

lemma settled_step: "lc_step g h \<Longrightarrow> settled_inv g \<Longrightarrow> trans_inv g \<Longrightarrow> settled_inv h"
proof (induction rule: lc_step.induct)
  case (begin_admission g granted l)
  then show ?case by (auto simp: settled_inv_def counter_state intro: complete_kept)
next
  case (end_admission g err l)
  then show ?case by (auto simp: settled_inv_def counter_state intro: complete_kept)
next
  case (promote g err l)
  then show ?case by (auto simp: settled_inv_def counter_state intro: complete_kept)
next
  case (end_job g err l)
  then show ?case by (auto simp: settled_inv_def counter_state intro: complete_kept)
next
  case (exec_entry_new g i c now l)
  then show ?case by (auto simp: settled_inv_def transitionCompleteLocked_def dest!: commandEntry_new)
next
  case (trans_complete g i goal st)
  with trans_at [of g i] show ?case by (simp add: settled_inv_def)
qed (simp_all add: settled_inv_def counter_defs transitionCompleteLocked_def)

text \<open>A step of the scheduler on the lifecycle: nothing, or a notified change of the counters.\<close>

definition same_scope :: "WorkerLifecycle \<Rightarrow> WorkerLifecycle \<Rightarrow> bool" where
  "same_scope l l' \<longleftrightarrow> lc_metadata l' = lc_metadata l \<and> lc_workerGroup l' = lc_workerGroup l \<and>
     lc_queue l' = lc_queue l \<and> lc_records l' = lc_records l"

definition notified :: "WorkerLifecycle \<Rightarrow> WorkerLifecycle \<Rightarrow> bool" where
  "notified l l' \<longleftrightarrow> l' = l \<or>
     (lc_state l' = lc_state l \<and> lc_changed l < lc_changed l' \<and> same_scope l l' \<and> lc_commands l' = lc_commands l \<and>
      lc_capacity l' = lc_capacity l)"

lemma notified_ops:
  "BeginAdmission l = (b, l1) \<Longrightarrow> notified l l1" "EndAdmission l = (e, l2) \<Longrightarrow> notified l l2"
  "PromoteAdmissionToJob l = (e, l3) \<Longrightarrow> notified l l3" "EndJob l = (e, l4) \<Longrightarrow> notified l l4"
  "notified l (transition_timeout l)"
  by (auto simp: counter_defs notified_def same_scope_def split: if_splits)

lemma apply_checks_scope: "same_scope l l' \<Longrightarrow> apply_checks l' r = apply_checks l r"
  by (simp add: same_scope_def apply_checks_def lifecycle_matches_def)

lemma pc_record_scope: "same_scope l l' \<Longrightarrow> pc_record_ok l' p = pc_record_ok l p"
  by (cases "(l, p)" rule: pc_record_ok.cases) (simp_all add: apply_checks_scope)

lemma pc_ok_notified:
  assumes "notified l l'" and "pc_state_ok l p" and "pc_record_ok l p"
  shows "pc_state_ok l' p" and "pc_record_ok l' p"
  using assms pc_record_scope [of l l' p] by (cases p; auto simp: notified_def)+

lemma pc_ok_commands:
  "pc_state_ok (l\<lparr>lc_commands := cs\<rparr>) p = pc_state_ok l p" "pc_record_ok (l\<lparr>lc_commands := cs\<rparr>) p = pc_record_ok l p"
proof -
  show "pc_record_ok (l\<lparr>lc_commands := cs\<rparr>) p = pc_record_ok l p"
    by (rule pc_record_scope) (simp add: same_scope_def)
  show "pc_state_ok (l\<lparr>lc_commands := cs\<rparr>) p = pc_state_ok l p"
    by (cases p) (simp_all add: transitionCompleteLocked_def)
qed

lemma pc_ok_free: "\<not> holds_apply p \<Longrightarrow> pc_state_ok l p \<and> pc_record_ok l p"
  by (cases p) simp_all

lemma trans_stay:
  "trans_inv g \<Longrightarrow> lg_pc h = lg_pc g \<Longrightarrow> lg_l h = lg_l g \<Longrightarrow> pc_state_ok (lg_l g) p \<Longrightarrow> pc_record_ok (lg_l g) p \<Longrightarrow>
    trans_inv (lc_goto i p h)"
  by (simp add: trans_inv_def)

lemma trans_alone:
  assumes "apply_inv g" and "holds_apply (lg_pc g i)" and "lg_pc h = lg_pc g"
    and "pc_state_ok (lg_l h) p" and "pc_record_ok (lg_l h) p"
  shows "trans_inv (lc_goto i p h)"
proof -
  have "pc_state_ok (lg_l h) (lg_pc g j) \<and> pc_record_ok (lg_l h) (lg_pc g j)" if "j \<noteq> i" for j
    using apply_alone [OF assms(1,2), of j] that by (intro pc_ok_free) auto
  with assms show ?thesis by (simp add: trans_inv_def)
qed

lemma trans_notified:
  assumes "trans_inv g" and "notified (lg_l g) (lg_l h)" and "lg_pc h = lg_pc g"
  shows "trans_inv h"
  using assms pc_ok_notified by (simp add: trans_inv_def)

lemma trans_goto: "trans_inv g \<Longrightarrow> pc_state_ok (lg_l g) p \<Longrightarrow> pc_record_ok (lg_l g) p \<Longrightarrow> trans_inv (lc_goto i p g)"
  by (simp add: trans_inv_def)

lemma trans_commands: "trans_inv g \<Longrightarrow> lg_l h = (lg_l g)\<lparr>lc_commands := cs\<rparr> \<Longrightarrow> lg_pc h = lg_pc g \<Longrightarrow> trans_inv h"
  by (simp add: trans_inv_def pc_ok_commands)

lemma goal_record:
  "pc_record_ok l (TransCheck goal st) = pc_record_ok l (TransSet goal st)"
  "pc_record_ok l (TransSelect goal st ch) = pc_record_ok l (TransSet goal st)"
  "pc_record_ok l (TransReturn goal st err) = pc_record_ok l (TransSet goal st)"
  by (cases goal; simp)+

lemma trans_step: "lc_step g h \<Longrightarrow> trans_inv g \<Longrightarrow> apply_inv g \<Longrightarrow> trans_inv h"
proof (induction rule: lc_step.induct)
  case (begin_admission g granted l)
  show ?case
    by (rule trans_notified [of g]) (use begin_admission notified_ops(1) in simp_all)
next
  case (end_admission g err l)
  show ?case
    by (rule trans_notified [of g]) (use end_admission notified_ops(2) in simp_all)
next
  case (promote g err l)
  show ?case
    by (rule trans_notified [of g]) (use promote notified_ops(3) in simp_all)
next
  case (end_job g err l)
  show ?case
    by (rule trans_notified [of g]) (use end_job notified_ops(4) in simp_all)
next
  case (exec_entry_new g i c now l)
  have "trans_inv (g\<lparr>lg_l := l, lg_runs := lg_runs g @ [cmd_IdempotencyKey c]\<rparr>)"
    by (rule trans_commands [of g]) (use exec_entry_new commandEntry_new in auto)
  then show ?case by (rule trans_goto) simp_all
next
  case (apply_check_go g i r)
  then show ?case by (intro trans_goto) simp_all
next
  case (trans_refused g i goal st e)
  with trans_at [of g i] show ?case by (intro trans_goto) (simp_all add: goal_record)
next
  case (trans_begin g i goal st l)
  have "same_scope (lg_l g) l" "lc_state l = st"
    using trans_begin(2) by (auto simp: same_scope_def notifyLocked_def dest!: transition_set_ok)
  with trans_begin trans_at [of g i] pc_record_scope [of "lg_l g" l] show ?case
    by (intro trans_alone [of g i]) (simp_all add: goal_record)
next
  case (trans_complete g i goal st)
  with trans_at [of g i] show ?case by (intro trans_stay [of g]) (simp_all add: goal_record)
next
  case (trans_wait g i goal st)
  with trans_at [of g i] show ?case by (intro trans_goto) (simp_all add: goal_record)
next
  case (trans_changed g i goal st ch)
  with trans_at [of g i] show ?case by (intro trans_goto) (simp_all add: goal_record)
next
  case (trans_canceled g i goal st ch)
  with trans_at [of g i] show ?case by (intro trans_goto) (simp_all add: goal_record)
next
  case (trans_deadline g i goal st ch)
  have "pc_record_ok (transition_timeout (lg_l g)) (TransReturn goal st (Some DeadlineExceeded))"
    using trans_at [OF trans_deadline(2,1)] pc_ok_notified(2) [OF notified_ops(5)]
    by (simp add: goal_record)
  with trans_deadline show ?case
    by (intro trans_alone [of g i]) simp_all
next
  case (apply_recorded g i r st)
  then show ?case by (intro trans_alone [of g i]) simp_all
next
  case (exec_store g i c r)
  have "trans_inv (g\<lparr>lg_l := store_result (cmd_IdempotencyKey c) r (lg_l g)\<rparr>)"
    by (rule trans_commands [of g]) (use exec_store in \<open>auto simp: store_result_def\<close>)
  then show ?case by (rule trans_goto) simp_all
qed (erule trans_stay, simp, simp, simp, simp)+

lemma command_stay:
  assumes "command_inv g" and "lg_pc h = lg_pc g" and "lc_commands (lg_l h) = lc_commands (lg_l g)"
    and "lc_capacity (lg_l h) = lc_capacity (lg_l g)" and "lg_runs h = lg_runs g"
    and "pc_pending p = pc_pending (lg_pc g i)"
  shows "command_inv (lc_goto i p h)"
proof -
  have pend: "pc_pending (((lg_pc g)(i := p)) j) = pc_pending (lg_pc g j)" for j
    using assms(6) by simp
  show ?thesis
    using assms(1-5) unfolding command_inv_def by (simp add: pend del: fun_upd_apply)
qed

lemma command_same:
  assumes "command_inv g" and "lg_pc h = lg_pc g" and "lc_commands (lg_l h) = lc_commands (lg_l g)"
    and "lc_capacity (lg_l h) = lc_capacity (lg_l g)" and "lg_runs h = lg_runs g"
  shows "command_inv h"
  using assms unfolding command_inv_def by simp

lemma notified_commands: "notified l l' \<Longrightarrow> lc_commands l' = lc_commands l \<and> lc_capacity l' = lc_capacity l"
  by (auto simp: notified_def)

lemma command_invI:
  assumes "map fst (lc_commands (lg_l g)) = lg_runs g" and "distinct (lg_runs g)"
    and "int (length (lg_runs g)) \<le> lc_capacity (lg_l g)"
    and "\<And>k e. (k, e) \<in> set (lc_commands (lg_l g)) \<Longrightarrow> cmd_IdempotencyKey (entry_command e) = k"
    and "\<And>i c. pc_pending (lg_pc g i) = Some c \<Longrightarrow>
      map_of (lc_commands (lg_l g)) (cmd_IdempotencyKey c) = Some \<lparr>entry_command = c, entry_result = None\<rparr>"
    and "\<And>i j c d. pc_pending (lg_pc g i) = Some c \<Longrightarrow> pc_pending (lg_pc g j) = Some d \<Longrightarrow>
      cmd_IdempotencyKey c = cmd_IdempotencyKey d \<Longrightarrow> i = j"
  shows "command_inv g"
  unfolding command_inv_def using assms by blast

lemma command_invD:
  assumes "command_inv g"
  shows "map fst (lc_commands (lg_l g)) = lg_runs g" and "distinct (lg_runs g)"
    and "int (length (lg_runs g)) \<le> lc_capacity (lg_l g)"
    and "\<And>k e. (k, e) \<in> set (lc_commands (lg_l g)) \<Longrightarrow> cmd_IdempotencyKey (entry_command e) = k"
    and "\<And>i c. pc_pending (lg_pc g i) = Some c \<Longrightarrow>
      map_of (lc_commands (lg_l g)) (cmd_IdempotencyKey c) = Some \<lparr>entry_command = c, entry_result = None\<rparr>"
    and "\<And>i j c d. pc_pending (lg_pc g i) = Some c \<Longrightarrow> pc_pending (lg_pc g j) = Some d \<Longrightarrow>
      cmd_IdempotencyKey c = cmd_IdempotencyKey d \<Longrightarrow> i = j"
  using assms unfolding command_inv_def by blast+

lemma command_new:
  assumes inv: "command_inv g" and pc: "lg_pc g i = LcIdle" and new: "commandEntry (lg_l g) now c = EntryNew l"
  shows "command_inv (lc_goto i (ExecNew c) (g\<lparr>lg_l := l, lg_runs := lg_runs g @ [cmd_IdempotencyKey c]\<rparr>))"
    (is "command_inv ?h")
proof -
  let ?k = "cmd_IdempotencyKey c" and ?e = "\<lparr>entry_command = c, entry_result = None\<rparr>"
  note old = command_invD [OF inv]
  have none: "map_of (lc_commands (lg_l g)) ?k = None"
    and room: "int (length (lc_commands (lg_l g))) < lc_capacity (lg_l g)"
    and l: "l = (lg_l g)\<lparr>lc_commands := lc_commands (lg_l g) @ [(?k, ?e)]\<rparr>"
    using commandEntry_new [OF new] by auto
  have fresh: "?k \<notin> set (lg_runs g)"
    unfolding old(1) [symmetric] using none by (simp add: map_of_eq_None_iff)
  have other: "cmd_IdempotencyKey d \<noteq> ?k" if "pc_pending (lg_pc g j) = Some d" for j d
    using old(5) [OF that] none by auto
  have len: "length (lc_commands (lg_l g)) = length (lg_runs g)"
    using old(1) by (metis length_map)
  have look: "map_of (lc_commands (lg_l g) @ [(?k, ?e)]) k =
      (if k = ?k then Some ?e else map_of (lc_commands (lg_l g)) k)" for k
    using none by (auto simp: map_of_append map_add_def split: option.split)
  have pend: "pc_pending (lg_pc ?h j) = (if j = i then Some c else pc_pending (lg_pc g j))" for j
    by simp
  show ?thesis
  proof (rule command_invI)
    show "map fst (lc_commands (lg_l ?h)) = lg_runs ?h" "distinct (lg_runs ?h)"
      "int (length (lg_runs ?h)) \<le> lc_capacity (lg_l ?h)"
      using old(1-3) l fresh room len by simp_all
    show "cmd_IdempotencyKey (entry_command e) = k" if "(k, e) \<in> set (lc_commands (lg_l ?h))" for k e
      using that old(4) l by auto
    show "map_of (lc_commands (lg_l ?h)) (cmd_IdempotencyKey d) = Some \<lparr>entry_command = d, entry_result = None\<rparr>"
      if "pc_pending (lg_pc ?h j) = Some d" for j d
      using that pend [of j] look l old(5) [of j d] other [of j d] by (simp split: if_splits)
    show "j = k" if "pc_pending (lg_pc ?h j) = Some d" "pc_pending (lg_pc ?h k) = Some e"
      "cmd_IdempotencyKey d = cmd_IdempotencyKey e" for j k d e
      using that pend [of j] pend [of k] old(6) [of j d k e] other [of j d] other [of k e]
      by (simp split: if_splits)
  qed
qed

lemma map_of_store:
  "map_of (map (\<lambda>(k, e). (k, if k = key then e\<lparr>entry_result := Some r\<rparr> else e)) cs) k =
     map_option (\<lambda>e. if k = key then e\<lparr>entry_result := Some r\<rparr> else e) (map_of cs k)"
  by (induction cs) auto

lemma command_store:
  assumes inv: "command_inv g" and pc: "lg_pc g i = ExecStore c r"
  shows "command_inv (lc_goto i (ExecReturned c (Inr r))
    (g\<lparr>lg_l := store_result (cmd_IdempotencyKey c) r (lg_l g)\<rparr>))" (is "command_inv ?h")
proof -
  note old = command_invD [OF inv]
  let ?f = "\<lambda>(k, e). (k, if k = cmd_IdempotencyKey c then e\<lparr>entry_result := Some r\<rparr> else e)"
  have cs: "lc_commands (lg_l ?h) = map ?f (lc_commands (lg_l g))"
    by (simp add: store_result_def)
  have other: "cmd_IdempotencyKey d \<noteq> cmd_IdempotencyKey c" if "pc_pending (lg_pc g j) = Some d" "j \<noteq> i" for j d
    using old(6) [OF that(1), of i c] that(2) pc by auto
  have pend: "pc_pending (lg_pc ?h j) = (if j = i then None else pc_pending (lg_pc g j))" for j
    by simp
  show ?thesis
  proof (rule command_invI)
    show "map fst (lc_commands (lg_l ?h)) = lg_runs ?h" "distinct (lg_runs ?h)"
      "int (length (lg_runs ?h)) \<le> lc_capacity (lg_l ?h)"
      unfolding cs using old(1-3) by (simp_all add: store_result_def split_beta comp_def)
    show "cmd_IdempotencyKey (entry_command e) = k" if "(k, e) \<in> set (lc_commands (lg_l ?h))" for k e
      using that old(4) unfolding cs by (auto split: if_splits)
    show "map_of (lc_commands (lg_l ?h)) (cmd_IdempotencyKey d) = Some \<lparr>entry_command = d, entry_result = None\<rparr>"
      if "pc_pending (lg_pc ?h j) = Some d" for j d
      using that pend [of j] old(5) [of j d] other [of j d] unfolding cs map_of_store
      by (simp split: if_splits)
    show "j = k" if "pc_pending (lg_pc ?h j) = Some d" "pc_pending (lg_pc ?h k) = Some e"
      "cmd_IdempotencyKey d = cmd_IdempotencyKey e" for j k d e
      using that pend [of j] pend [of k] old(6) [of j d k e] by (simp split: if_splits)
  qed
qed

lemma command_step: "lc_step g h \<Longrightarrow> command_inv g \<Longrightarrow> command_inv h"
proof (induction rule: lc_step.induct)
  case (begin_admission g granted l)
  show ?case
    by (rule command_same [of g]) (use begin_admission notified_commands [OF notified_ops(1)] in auto)
next
  case (end_admission g err l)
  show ?case
    by (rule command_same [of g]) (use end_admission notified_commands [OF notified_ops(2)] in auto)
next
  case (promote g err l)
  show ?case
    by (rule command_same [of g]) (use promote notified_commands [OF notified_ops(3)] in auto)
next
  case (end_job g err l)
  show ?case
    by (rule command_same [of g]) (use end_job notified_commands [OF notified_ops(4)] in auto)
next
  case (exec_entry_new g i c now l)
  then show ?case by (intro command_new)
next
  case (trans_begin g i goal st l)
  then show ?case
    by (cases goal; intro command_stay [of g]) (auto simp: notifyLocked_def dest!: transition_set_ok)
next
  case (trans_refused g i goal st e)
  then show ?case by (cases goal; intro command_stay [of g]) simp_all
next
  case (trans_complete g i goal st)
  then show ?case by (cases goal; intro command_stay [of g]) simp_all
next
  case (trans_wait g i goal st)
  then show ?case by (cases goal; intro command_stay [of g]) simp_all
next
  case (trans_changed g i goal st ch)
  then show ?case by (cases goal; intro command_stay [of g]) simp_all
next
  case (trans_canceled g i goal st ch)
  then show ?case by (cases goal; intro command_stay [of g]) simp_all
next
  case (trans_deadline g i goal st ch)
  then show ?case
    by (cases goal; intro command_stay [of g]) (simp_all add: transition_timeout_def notifyLocked_def)
next
  case (exec_store g i c r)
  then show ?case by (intro command_store)
qed (rule command_stay, assumption, simp, simp, simp, simp, simp)+

lemma lc_start_inv:
  assumes "lc_start g"
  shows "lc_inv g"
proof -
  obtain metadata group queue size where new: "NewWorkerLifecycle metadata group queue size False = Inr (lg_l g)"
    using assms by (auto simp: lc_start_def)
  then have "lc_commands (lg_l g) = []" "1 \<le> lc_capacity (lg_l g)"
    by (auto simp: NewWorkerLifecycle_def split: if_splits dest!: sym [of _ "lg_l g"])
  then show ?thesis
    using assms by (simp add: lc_start_def lc_inv_def apply_inv_def settled_inv_def trans_inv_def command_inv_def)
qed

interpretation lc: step_system lc_start lc_step lc_inv
proof unfold_locales
  show "lc_start g \<Longrightarrow> lc_inv g" for g
    by (rule lc_start_inv)
  show "lc_inv h" if "lc_inv g" "lc_step g h" for g h
    using that(1) apply_step [OF that(2)] settled_step [OF that(2)] trans_step [OF that(2)]
      command_step [OF that(2)] by (simp add: lc_inv_def)
qed

section \<open>What holds along runs\<close>

lemma terminating_step:
  assumes "lc_step g h" and "lc_state (lg_l g) = DesiredTerminating"
  shows "lc_state (lg_l h) = DesiredTerminating \<and> lg_granted h = lg_granted g"
  using assms
proof (induction rule: lc_step.induct)
  case (exec_entry_new g i c now l)
  then show ?case by (auto dest!: commandEntry_new)
next
  case (trans_begin g i goal st l)
  then show ?case by (auto simp: notifyLocked_def dest!: transition_set_ok)
qed (auto simp: counter_defs split: if_splits)

lemma records_step:
  assumes "lc_step g h" and "lc_inv g"
  shows "lc_records (lg_l h) x = lc_records (lg_l g) x \<or>
    (\<exists>r. lc_records (lg_l h) x = Some r \<and>
       (\<forall>c. lc_records (lg_l g) x = Some c \<longrightarrow> dr_Revision c < dr_Revision r))"
  using assms
proof (induction rule: lc_step.induct)
  case (exec_entry_new g i c now l)
  then show ?case by (auto dest!: commandEntry_new)
next
  case (trans_begin g i goal st l)
  then show ?case by (auto simp: notifyLocked_def dest!: transition_set_ok)
next
  case (apply_recorded g i r st)
  then have "apply_checks (lg_l g) r = None"
    using trans_at [of g i] by (simp add: lc_inv_def)
  then show ?case
    by (auto simp: apply_checks_def not_less order_le_less split: option.splits if_splits)
qed (auto simp: counter_defs split: if_splits)

definition lc_live_step :: "lc_sys \<Rightarrow> lc_sys \<Rightarrow> bool" where
  "lc_live_step g h \<longleftrightarrow> lc_inv g \<and> lc_step g h"

interpretation lc_revisions: revision_store "\<lambda>g. lc_records (lg_l g)" lc_live_step
  by unfold_locales (use records_step in \<open>auto simp: lc_live_step_def\<close>)

lemma live_steps: "lc_step\<^sup>*\<^sup>* g h \<Longrightarrow> lc_inv g \<Longrightarrow> lc_live_step\<^sup>*\<^sup>* g h"
proof (induction rule: rtranclp_induct)
  case (step a b)
  then show ?case
    using lc.invar_steps by (auto simp: lc_live_step_def intro: rtranclp.rtrancl_into_rtrancl)
qed simp

lemma entries_step:
  assumes "lc_step g h" and "lc_inv g" and "map_of (lc_commands (lg_l g)) k = Some e" and "entry_result e = Some r"
  shows "map_of (lc_commands (lg_l h)) k = Some e"
  using assms
proof (induction rule: lc_step.induct)
  case (exec_entry_new g i c now l)
  then show ?case by (auto simp: map_add_def dest!: commandEntry_new)
next
  case (trans_begin g i goal st l)
  then show ?case by (auto simp: notifyLocked_def dest!: transition_set_ok)
next
  case (exec_store g i c res)
  then have "map_of (lc_commands (lg_l g)) (cmd_IdempotencyKey c) = Some \<lparr>entry_command = c, entry_result = None\<rparr>"
    by (intro command_invD(5) [of g i]) (simp_all add: lc_inv_def)
  with exec_store show ?case by (auto simp: store_result_def map_of_store)
qed (auto simp: counter_defs split: if_splits)

section \<open>Properties\<close>

text \<open>
  C6: a completed transition is a boundary that holds: from the moment a pause, drain or
  terminate transition returned nil, and until another transition begins, whatever the
  scheduler and other callers do, no admission is outstanding, and after a drain or terminate
  no job is in flight either; the requested state is the one in force.
\<close>

theorem lifecycle_boundary_holds:
  assumes "reachable_from lc_start lc_step g" and "lg_settled g = Some st"
  shows "lc_state (lg_l g) = st \<and> (st \<noteq> DesiredActive \<longrightarrow> lc_admissions (lg_l g) = 0) \<and>
    (st \<noteq> DesiredActive \<and> st \<noteq> DesiredPaused \<longrightarrow> lc_jobs (lg_l g) = 0)"
  using lc.invar_reachable [OF assms(1)] assms(2)
  by (auto simp: lc_inv_def settled_inv_def transitionCompleteLocked_def split: if_splits)

text \<open>
  C31: no wake-up is lost: whenever a transition waits and its boundary has been reached, the
  channel it selects on is closed, so that its next check is enabled and finds it complete.
\<close>

theorem lifecycle_no_lost_wakeup:
  assumes "reachable_from lc_start lc_step g" and "lg_pc g i = TransSelect goal st ch"
    and "transitionCompleteLocked (lg_l g) st"
  shows "lc_step g (lc_goto i (TransCheck goal st) g) \<and>
    lc_step (lc_goto i (TransCheck goal st) g)
      (lc_goto i (TransReturn goal st None) (lc_goto i (TransCheck goal st) (g\<lparr>lg_settled := Some st\<rparr>)))"
proof
  have "pc_state_ok (lg_l g) (TransSelect goal st ch)"
    using lc.invar_reachable [OF assms(1)] trans_at [OF _ assms(2)] by (simp add: lc_inv_def)
  then have "ch < lc_changed (lg_l g)"
    using assms(3) by auto
  then show "lc_step g (lc_goto i (TransCheck goal st) g)"
    by (rule trans_changed [OF assms(2)])
  show "lc_step (lc_goto i (TransCheck goal st) g)
      (lc_goto i (TransReturn goal st None) (lc_goto i (TransCheck goal st) (g\<lparr>lg_settled := Some st\<rparr>)))"
    using trans_complete [of "lc_goto i (TransCheck goal st) g" i goal st] assms(3) by simp
qed

text \<open>
  Termination is irreversible: from a terminating state every continuation stays in it, and
  no backend request is ever admitted again.
\<close>

theorem lifecycle_terminating_final:
  assumes "reachable_from lc_start lc_step g" and "lc_state (lg_l g) = DesiredTerminating"
    and "lc_step\<^sup>*\<^sup>* g h"
  shows "lc_state (lg_l h) = DesiredTerminating \<and> lg_granted h = lg_granted g \<and>
    fst (BeginAdmission (lg_l h)) = False"
proof -
  have "lc_state (lg_l h) = DesiredTerminating \<and> lg_granted h = lg_granted g"
    using lc.invar_reachable [OF assms(1)] assms(2) terminating_step
    by (intro lc.stable_along [OF _ assms(3),
          of "\<lambda>x. lc_state (lg_l x) = DesiredTerminating \<and> lg_granted x = lg_granted g"]) auto
  then show ?thesis by (simp add: BeginAdmission_def)
qed

text \<open>
  C32: commands are executed at most once per idempotency key, within the configured capacity,
  and a stored result is final: however many callers repeat a command, in whatever
  interleaving, the entry of its key keeps its command and its result.
\<close>

theorem lifecycle_commands_once:
  assumes "reachable_from lc_start lc_step g"
  shows "distinct (lg_runs g) \<and> map fst (lc_commands (lg_l g)) = lg_runs g \<and>
    int (length (lg_runs g)) \<le> lc_capacity (lg_l g) \<and>
    (\<forall>h k e r. lc_step\<^sup>*\<^sup>* g h \<and> map_of (lc_commands (lg_l g)) k = Some e \<and> entry_result e = Some r \<longrightarrow>
       map_of (lc_commands (lg_l h)) k = Some e)"
proof -
  have inv: "lc_inv g" by (rule lc.invar_reachable [OF assms])
  have "map_of (lc_commands (lg_l h)) k = Some e"
    if "lc_step\<^sup>*\<^sup>* g h" "map_of (lc_commands (lg_l g)) k = Some e" "entry_result e = Some r" for h k e r
    using entries_step [OF _ _ _ that(3)] that(2) inv
    by (intro lc.stable_along [OF _ that(1), of "\<lambda>x. map_of (lc_commands (lg_l x)) k = Some e"])
  moreover have "command_inv g" using inv by (simp add: lc_inv_def)
  note command_invD(1-3) [OF this]
  ultimately show ?thesis by blast
qed

text \<open>
  The desired revision remembered for a target only grows, also with concurrent callers of
  ApplyDesiredState: a record is never replaced by an older one or by another one of the same
  revision.
\<close>

theorem lifecycle_revisions_grow:
  assumes "reachable_from lc_start lc_step g" and "lc_step\<^sup>*\<^sup>* g h" and "lc_records (lg_l g) target = Some c"
  shows "\<exists>c'. lc_records (lg_l h) target = Some c' \<and> (c' = c \<or> dr_Revision c < dr_Revision c')"
  using lc_revisions.revisions_grow [OF live_steps [OF assms(2) lc.invar_reachable [OF assms(1)]], of target c]
    assms(3) by simp

section \<open>A concrete run\<close>

text \<open>
  One admission is outstanding when thread 0 applies a terminate revision: it waits, is woken
  when the admission ends, completes, and records the revision.
\<close>

definition terminate_record :: DesiredRecord where
  "terminate_record = \<lparr>dr_Target = Target TargetWorker ''w1'', dr_State = DesiredTerminating, dr_Revision = 7,
     dr_ChangedAt = GoTime 3 0, dr_CommandID = ''c7''\<rparr>"

definition lc_new :: lc_sys where
  "lc_new = \<lparr>lg_l = sample_lifecycle, lg_applyMu = None, lg_pc = (\<lambda>_. LcIdle), lg_granted = 0,
     lg_settled = None, lg_runs = []\<rparr>"

definition lc_waiting :: lc_sys where
  "lc_waiting = lc_new\<lparr>lg_applyMu := Some 0, lg_granted := 1,
     lg_l := sample_lifecycle\<lparr>lc_admissions := 1, lc_state := DesiredTerminating, lc_changed := 2\<rparr>,
     lg_pc := (\<lambda>_. LcIdle)(0 := TransSelect (ForRecord terminate_record) DesiredTerminating 2)\<rparr>"

definition lc_drained :: lc_sys where
  "lc_drained = lc_waiting\<lparr>lg_l := (lg_l lc_waiting)\<lparr>lc_admissions := 0, lc_changed := 3\<rparr>\<rparr>"

definition lc_done :: lc_sys where
  "lc_done = lc_drained\<lparr>lg_settled := Some DesiredTerminating,
     lg_pc := (\<lambda>_. LcIdle)(0 := TransReturn (ForRecord terminate_record) DesiredTerminating None)\<rparr>"

definition lc_recorded :: lc_sys where
  "lc_recorded = lc_done\<lparr>lg_applyMu := None,
     lg_l := (lg_l lc_done)\<lparr>lc_records := [Target TargetWorker ''w1'' \<mapsto> terminate_record]\<rparr>,
     lg_pc := (\<lambda>_. LcIdle)(0 := ApplyReturned terminate_record None)\<rparr>"

lemma terminate_record_valid: "DesiredRecord_Validate terminate_record = None"
  by (simp add: DesiredRecord_Validate_def terminate_record_def desiredTarget_def invalidIdentity_def
      MaxIdentityBytes_def IsZero_def)

lemma reach_lc_new: "reachable_from lc_start lc_step lc_new"
proof (rule reach_start)
  have "NewWorkerLifecycle sample_status_metadata ''g'' ''q'' 2 False = Inr sample_lifecycle"
    by (simp add: NewWorkerLifecycle_def StatusMetadata_Validate_def sample_status_metadata_def
        sample_lifecycle_def invalidIdentity_def MaxIdentityBytes_def MaxWorkerConcurrency_def zero_version_def
        MaxLifecycleCommandResults_def)
  then show "lc_start lc_new"
    unfolding lc_start_def lc_new_def by auto
qed

lemma reach_lc_waiting: "reachable_from lc_start lc_step lc_waiting"
proof -
  let ?l1 = "sample_lifecycle\<lparr>lc_admissions := 1, lc_changed := 1\<rparr>"
  let ?g1 = "lc_new\<lparr>lg_l := ?l1, lg_granted := 1\<rparr>"
  let ?g2 = "lc_goto 0 (ApplyLock terminate_record) ?g1"
  let ?g3 = "lc_goto 0 (ApplyCheck terminate_record) (?g2\<lparr>lg_applyMu := Some 0\<rparr>)"
  let ?g4 = "lc_goto 0 (TransSet (ForRecord terminate_record) DesiredTerminating) ?g3"
  let ?l5 = "?l1\<lparr>lc_state := DesiredTerminating, lc_drainTimedOut := False, lc_changed := 2\<rparr>"
  let ?g5 = "lc_goto 0 (TransCheck (ForRecord terminate_record) DesiredTerminating)
    (?g4\<lparr>lg_l := ?l5, lg_settled := None\<rparr>)"
  have "lc_step lc_new ?g1"
    using begin_admission [of lc_new True ?l1]
    by (simp add: BeginAdmission_def notifyLocked_def lc_new_def sample_lifecycle_def)
  with reach_lc_new have g1: "reachable_from lc_start lc_step ?g1" by (rule reach_step)
  have "lc_step ?g1 ?g2"
    by (rule apply_call) (simp_all add: lc_new_def terminate_record_valid)
  with g1 have g2: "reachable_from lc_start lc_step ?g2" by (rule reach_step)
  have "lc_step ?g2 ?g3"
    by (rule apply_lock) (simp_all add: lc_new_def)
  with g2 have g3: "reachable_from lc_start lc_step ?g3" by (rule reach_step)
  have "apply_checks ?l1 terminate_record = None" "dr_State terminate_record = DesiredTerminating"
    by (simp_all add: apply_checks_def lifecycle_matches_def validTargetState_def terminate_record_def
        sample_lifecycle_def sample_status_metadata_def)
  then have "lc_step ?g3 ?g4"
    using apply_check_go [of ?g3 0 terminate_record] by simp
  with g3 have g4: "reachable_from lc_start lc_step ?g4" by (rule reach_step)
  have "lc_step ?g4 ?g5"
    by (rule trans_begin) (simp_all add: transition_set_def notifyLocked_def sample_lifecycle_def)
  with g4 have g5: "reachable_from lc_start lc_step ?g5" by (rule reach_step)
  have "lc_step ?g5 (lc_goto 0 (TransSelect (ForRecord terminate_record) DesiredTerminating (lc_changed (lg_l ?g5))) ?g5)"
    by (rule trans_wait) (simp_all add: transitionCompleteLocked_def)
  moreover have "lc_goto 0 (TransSelect (ForRecord terminate_record) DesiredTerminating (lc_changed (lg_l ?g5))) ?g5 =
      lc_waiting"
    by (simp add: lc_waiting_def lc_new_def sample_lifecycle_def)
  ultimately show ?thesis
    using reach_step [OF g5] by simp
qed

lemma reach_lc_drained: "reachable_from lc_start lc_step lc_drained"
proof -
  have "lc_step lc_waiting lc_drained"
    using end_admission [of lc_waiting None "lg_l lc_drained"]
    by (simp add: EndAdmission_def notifyLocked_def lc_drained_def lc_waiting_def)
  with reach_lc_waiting show ?thesis by (rule reach_step)
qed

lemma lc_drained_waits:
  "lg_pc lc_drained 0 = TransSelect (ForRecord terminate_record) DesiredTerminating 2"
  "transitionCompleteLocked (lg_l lc_drained) DesiredTerminating"
  by (simp_all add: lc_drained_def lc_waiting_def transitionCompleteLocked_def sample_lifecycle_def)

theorem lifecycle_no_lost_wakeup_witness:
  "lc_step lc_drained (lc_goto 0 (TransCheck (ForRecord terminate_record) DesiredTerminating) lc_drained)"
  using lifecycle_no_lost_wakeup [OF reach_lc_drained lc_drained_waits] by blast

lemma reach_lc_done: "reachable_from lc_start lc_step lc_done"
proof -
  let ?c = "lc_goto 0 (TransCheck (ForRecord terminate_record) DesiredTerminating) lc_drained"
  have "lc_step lc_drained ?c"
    by (rule trans_changed [OF lc_drained_waits(1)]) (simp add: lc_drained_def)
  with reach_lc_drained have c: "reachable_from lc_start lc_step ?c" by (rule reach_step)
  have "lc_step ?c (lc_goto 0 (TransReturn (ForRecord terminate_record) DesiredTerminating None)
      (?c\<lparr>lg_settled := Some DesiredTerminating\<rparr>))"
    by (rule trans_complete) (simp_all add: lc_drained_waits)
  moreover have "lc_goto 0 (TransReturn (ForRecord terminate_record) DesiredTerminating None)
      (?c\<lparr>lg_settled := Some DesiredTerminating\<rparr>) = lc_done"
    by (simp add: lc_done_def lc_drained_def lc_waiting_def)
  ultimately show ?thesis
    using reach_step [OF c] by simp
qed

lemma reach_lc_recorded: "reachable_from lc_start lc_step lc_recorded"
proof -
  have "lg_pc lc_done 0 = TransReturn (ForRecord terminate_record) DesiredTerminating None"
    by (simp add: lc_done_def)
  from reach_step [OF reach_lc_done apply_recorded [OF this]] show ?thesis
    by (simp add: lc_recorded_def lc_done_def lc_drained_def lc_waiting_def terminate_record_def
        sample_lifecycle_def)
qed

theorem lifecycle_boundary_holds_witness:
  "lc_state (lg_l lc_done) = DesiredTerminating \<and> lc_admissions (lg_l lc_done) = 0 \<and> lc_jobs (lg_l lc_done) = 0"
  using lifecycle_boundary_holds [OF reach_lc_done, of DesiredTerminating] by (simp add: lc_done_def)

theorem lifecycle_terminating_final_witness:
  "lc_state (lg_l lc_recorded) = DesiredTerminating \<and>
   fst (BeginAdmission (lg_l (lc_goto 0 LcIdle lc_recorded))) = False"
proof -
  have s: "lc_state (lg_l lc_recorded) = DesiredTerminating"
    by (simp add: lc_recorded_def lc_done_def lc_drained_def lc_waiting_def)
  have "lc_step\<^sup>*\<^sup>* lc_recorded (lc_goto 0 LcIdle lc_recorded)"
    by (rule r_into_rtranclp, rule apply_again [of _ _ terminate_record None]) (simp add: lc_recorded_def)
  from lifecycle_terminating_final [OF reach_lc_recorded s this] s show ?thesis by simp
qed

theorem lifecycle_revisions_grow_witness:
  "\<exists>c'. lc_records (lg_l (lc_goto 0 LcIdle lc_recorded)) (Target TargetWorker ''w1'') = Some c' \<and>
     (c' = terminate_record \<or> dr_Revision terminate_record < dr_Revision c')"
proof -
  have "lc_step\<^sup>*\<^sup>* lc_recorded (lc_goto 0 LcIdle lc_recorded)"
    by (rule r_into_rtranclp, rule apply_again [of _ _ terminate_record None]) (simp add: lc_recorded_def)
  from lifecycle_revisions_grow [OF reach_lc_recorded this] show ?thesis
    by (simp add: lc_recorded_def)
qed

text \<open>A command the lifecycle does not support is answered and its result kept.\<close>

definition answered_result :: CommandResult where
  "answered_result = lifecycle_result sample_lifecycle (GoTime 6 0) sample_command CommandUnsupported
     ''unsupported_action''"

definition answered_entry :: lifecycleCommandEntry where
  "answered_entry = \<lparr>entry_command = sample_command, entry_result = Some answered_result\<rparr>"

definition lc_answered :: lc_sys where
  "lc_answered = lc_new\<lparr>lg_l := sample_lifecycle\<lparr>lc_commands := [(''k1'', answered_entry)]\<rparr>, lg_runs := [''k1''],
     lg_pc := (\<lambda>_. LcIdle)(0 := ExecReturned sample_command (Inr answered_result))\<rparr>"

lemma sample_command_valid: "Command_Validate sample_command = None"
  by (simp add: Command_Validate_def validate_action_def sample_command_def zero_version_def invalidIdentity_def
      MaxIdentityBytes_def MaxReasonBytes_def IsZero_def After_def MaxBulkSelection_def)

lemma reach_lc_answered: "reachable_from lc_start lc_step lc_answered"
proof -
  let ?l1 = "sample_lifecycle\<lparr>lc_commands := [(''k1'', \<lparr>entry_command = sample_command, entry_result = None\<rparr>)]\<rparr>"
  let ?g1 = "lc_goto 0 (ExecNew sample_command)
    (lc_new\<lparr>lg_l := ?l1, lg_runs := lg_runs lc_new @ [cmd_IdempotencyKey sample_command]\<rparr>)"
  let ?g2 = "lc_goto 0 (ExecStore sample_command answered_result) ?g1"
  have key: "cmd_IdempotencyKey sample_command = ''k1''"
    by (simp add: sample_command_def)
  have "lc_step lc_new ?g1"
    by (rule exec_entry_new [where now = zero_time])
      (simp_all add: lc_new_def sample_command_valid commandEntry_def sample_lifecycle_def key)
  with reach_lc_new have g1: "reachable_from lc_start lc_step ?g1" by (rule reach_step)
  have "lc_step ?g1 ?g2"
    by (rule exec_new_result [where now = zero_time and completed = "GoTime 6 0"])
      (simp_all add: executeNew_checks_def sample_lifecycle_def sample_status_metadata_def sample_command_def
        answered_result_def lifecycle_result_def)
  with g1 have g2: "reachable_from lc_start lc_step ?g2" by (rule reach_step)
  have "lc_step ?g2 (lc_goto 0 (ExecReturned sample_command (Inr answered_result))
      (?g2\<lparr>lg_l := store_result (cmd_IdempotencyKey sample_command) answered_result (lg_l ?g2)\<rparr>))"
    by (rule exec_store) simp
  moreover have "lc_goto 0 (ExecReturned sample_command (Inr answered_result))
      (?g2\<lparr>lg_l := store_result (cmd_IdempotencyKey sample_command) answered_result (lg_l ?g2)\<rparr>) = lc_answered"
    by (simp add: store_result_def lc_answered_def lc_new_def key answered_entry_def)
  ultimately show ?thesis
    using reach_step [OF g2] by simp
qed

theorem lifecycle_commands_once_witness:
  "distinct (lg_runs lc_answered) \<and> map_of (lc_commands (lg_l (lc_goto 0 LcIdle lc_answered))) ''k1'' = Some answered_entry"
proof -
  have "lc_step\<^sup>*\<^sup>* lc_answered (lc_goto 0 LcIdle lc_answered)"
    by (rule r_into_rtranclp, rule exec_again [of _ _ sample_command "Inr answered_result"]) (simp add: lc_answered_def)
  then show ?thesis
    using lifecycle_commands_once [OF reach_lc_answered] by (auto simp: lc_answered_def answered_entry_def)
qed

end
