(* ===== verification/Queue_Work.thy ===== *)
theory Queue_Work
  imports Classification Job
begin

text \<open>
  One work wrapper of src/queue.go: the retry loop around a handler, the dispatch of a task, the
  settlement of its delivery and the accounting around them, with the counters of src/metric.go.
  Handlers and settlement callbacks act on an arbitrary world. Timers, contexts and the backoff
  package are parameters. An observation is appended to the list of events the queue emits; what
  the observer does with it, panics included, has no effect on the queue.
\<close>

section \<open>Errors and events\<close>

definition ErrHandlerPanic :: go_err where "ErrHandlerPanic = sentinel ''queue.ErrHandlerPanic''"
definition ErrSettlementPanic :: go_err where "ErrSettlementPanic = sentinel ''queue.ErrSettlementPanic''"

datatype EventKind =
    EventEnqueued | EventHandlerStarted | EventRetryScheduled | EventHandlerSucceeded | EventHandlerFailed
  | EventAcknowledged | EventAckFailed | EventRejected | EventRejectFailed
  | EventShutdownStarted | EventShutdownCompleted

record Event =
  ev_Kind :: EventKind
  ev_RetryRemaining :: int
  ev_RetryDelay :: duration
  ev_Err :: error
  ev_Classification :: classification
  ev_FailureCode :: string

definition new_event :: "EventKind \<Rightarrow> error \<Rightarrow> Event" where
  "new_event kind err = \<lparr>ev_Kind = kind, ev_RetryRemaining = 0, ev_RetryDelay = 0, ev_Err = err,
     ev_Classification = OtherClassification '''', ev_FailureCode = ''''\<rparr>"

definition failureEvent :: "Event \<Rightarrow> error \<Rightarrow> Event" where
  "failureEvent event err =
     (let resolution = ResolveFailure err
      in event\<lparr>ev_Classification := res_classification resolution, ev_FailureCode := res_code resolution\<rparr>)"

definition normalizeHandlerFailure :: "error \<Rightarrow> error" where
  "normalizeHandlerFailure err =
     (if err = None then None
      else let resolution = ResolveFailure err;
               code = (if res_code resolution = '''' then ''handler_failed'' else res_code resolution);
               code = (if error_Is err ''context.DeadlineExceeded'' then ''handler_deadline_exceeded''
                       else if error_Is err ''context.Canceled'' then ''handler_canceled'' else code)
           in Some (NewFailure (res_classification resolution) code err))"

section \<open>The retry loop\<close>

text \<open>
  The goroutine of \<^verbatim>\<open>handle\<close>: \<open>attempt\<close> runs the message's task or the worker's Run once,
  \<open>wait\<close> is the select between the retry timer and the context (None when the timer fires,
  otherwise the context's error), \<open>backoff n\<close> the n-th duration the backoff of the message gives.
  The result is what is sent on \<^verbatim>\<open>done\<close>, or the panic sent on \<^verbatim>\<open>panicChan\<close>, with the events,
  the message and the world at that time. A loop that never ends is None.
\<close>

partial_function (option) handler_loop ::
  "'w callback \<Rightarrow> (nat \<Rightarrow> duration) \<Rightarrow> (duration \<Rightarrow> 'w \<Rightarrow> error \<times> 'w) \<Rightarrow> nat \<Rightarrow> duration \<Rightarrow> Event list \<Rightarrow>
    'w Message \<Rightarrow> 'w \<Rightarrow> (error outcome \<times> Event list \<times> 'w Message \<times> 'w) option" where
  "handler_loop attempt backoff wait n delay events m w =
     (case attempt w of
        (Panics p, w) \<Rightarrow> Some (Panics p, events, m, w)
      | (Returns err, w) \<Rightarrow>
          if err = None \<or> msg_RetryCount m = 0 \<or> ClassifyFailure err \<noteq> ClassificationRetryable
          then Some (Returns err, events, m, w)
          else let m = m\<lparr>msg_RetryCount := msg_RetryCount m - 1\<rparr>;
                   delay = (if msg_RetryDelay m = 0 then backoff n else delay);
                   n = (if msg_RetryDelay m = 0 then n + 1 else n);
                   retryFailure = normalizeHandlerFailure err;
                   event = failureEvent ((new_event EventRetryScheduled retryFailure)
                     \<lparr>ev_RetryRemaining := msg_RetryCount m, ev_RetryDelay := delay\<rparr>) retryFailure
               in (case wait delay w of
                     (Some e, w) \<Rightarrow> Some (Returns (Some e), events @ [event], m, w)
                   | (None, w) \<Rightarrow> handler_loop attempt backoff wait n delay (events @ [event]) m w))"

definition handle_goroutine ::
  "('w Message \<Rightarrow> 'w callback) \<Rightarrow> (nat \<Rightarrow> duration) \<Rightarrow> (duration \<Rightarrow> 'w \<Rightarrow> error \<times> 'w) \<Rightarrow> 'w Message \<Rightarrow> 'w \<Rightarrow>
    (error outcome \<times> Event list \<times> 'w Message \<times> 'w) option" where
  "handle_goroutine worker_Run backoff wait m w =
     handler_loop (case msg_Task m of Some task \<Rightarrow> task | None \<Rightarrow> worker_Run m) backoff wait 0
       (msg_RetryDelay m) [] m w"

text \<open>
  The select of \<^verbatim>\<open>handle\<close>: what it returns for the arm that is taken, given what the goroutine
  sent. The context of the arm is the handler's own, so that its error is the deadline's; after a
  quit the goroutine still has the rest of its time.
\<close>

datatype handle_arm = ArmGoroutine | ArmContext | ArmQuitTimeout | ArmQuitGoroutine

fun handle_select :: "handle_arm \<Rightarrow> error outcome \<Rightarrow> error outcome" where
  "handle_select ArmGoroutine sent = sent"
| "handle_select ArmContext sent = Returns (Some DeadlineExceeded)"
| "handle_select ArmQuitTimeout sent = Returns (Some DeadlineExceeded)"
| "handle_select ArmQuitGoroutine sent = sent"

section \<open>Dispatch and settlement\<close>

text \<open>
  A task is a \<^verbatim>\<open>*job.Message\<close> or a value of another type, which may or may not implement the
  settlement interfaces of src/core/worker.go.
\<close>

record 'w Acknowledger =
  ak_AcknowledgementRequired :: bool
  ak_Ack :: "'w callback"
  ak_Nack :: "'w callback"
  ak_NackFailure :: "(error \<Rightarrow> 'w callback) option"

datatype 'w task = JobTask "'w Message" | ForeignTask "'w Acknowledger option"

fun as_acknowledger :: "'w task \<Rightarrow> 'w Acknowledger option" where
  "as_acknowledger (JobTask m) =
     Some \<lparr>ak_AcknowledgementRequired = AcknowledgementRequired m, ak_Ack = Ack m, ak_Nack = Nack m,
           ak_NackFailure = Some (NackFailure m)\<rparr>"
| "as_acknowledger (ForeignTask d) = d"

fun run_dispatch ::
  "('w Message \<Rightarrow> error) option \<Rightarrow> ('w Message \<Rightarrow> 'w callback) \<Rightarrow> 'w task \<Rightarrow> 'w callback" where
  "run_dispatch validator handle (JobTask m) w =
     (case (case validator of None \<Rightarrow> None | Some validateDelivery \<Rightarrow> validateDelivery m) of
        Some err \<Rightarrow> (Returns (Some err), w)
      | None \<Rightarrow> handle m w)"
| "run_dispatch validator handle (ForeignTask d) w = (Returns (Some (sentinel ''invalid task type'')), w)"

definition invokeSettlement :: "'w callback \<Rightarrow> 'w \<Rightarrow> error \<times> 'w" where
  "invokeSettlement settle w =
     (case settle w of
        (Returns err, w) \<Rightarrow> (err, w)
      | (Panics p, w) \<Rightarrow> (Some (Wrapped (Some ErrSettlementPanic)), w))"

definition settle :: "'w task \<Rightarrow> error \<Rightarrow> 'w \<Rightarrow> error \<times> Event list \<times> 'w" where
  "settle task handlerErr w =
     (case as_acknowledger task of
        None \<Rightarrow> (handlerErr, [], w)
      | Some delivery \<Rightarrow>
          if \<not> ak_AcknowledgementRequired delivery then (handlerErr, [], w)
          else if handlerErr = None
          then (case invokeSettlement (ak_Ack delivery) w of
                  (Some err, w) \<Rightarrow>
                    (let failure = Some (NewFailure ClassificationInfrastructure ''acknowledgement_failed'' (Some err))
                     in (failure, [failureEvent (new_event EventAckFailed failure) failure], w))
                | (None, w) \<Rightarrow> (None, [new_event EventAcknowledged None], w))
          else (let reject = (case ak_NackFailure delivery of
                                None \<Rightarrow> ak_Nack delivery | Some nackFailure \<Rightarrow> nackFailure handlerErr)
                in case invokeSettlement reject w of
                     (Some err, w) \<Rightarrow>
                       (let failure = Some (NewFailure ClassificationInfrastructure
                              ''failure_settlement_failed'' (Some err))
                        in (errors_Join [handlerErr, failure],
                            [failureEvent (new_event EventRejectFailed failure) failure], w))
                   | (None, w) \<Rightarrow>
                       (handlerErr, [failureEvent (new_event EventRejected handlerErr) handlerErr], w)))"

section \<open>Metrics and the work wrapper\<close>

record metric =
  busyWorkers :: "64 word"
  successTasks :: "64 word"
  failureTasks :: "64 word"
  submittedTasks :: "64 word"

definition NewMetric :: metric where
  "NewMetric = \<lparr>busyWorkers = 0, successTasks = 0, failureTasks = 0, submittedTasks = 0\<rparr>"

definition IncBusyWorker :: "metric \<Rightarrow> metric" where
  "IncBusyWorker m = m\<lparr>busyWorkers := busyWorkers m + 1\<rparr>"

definition DecBusyWorker :: "metric \<Rightarrow> metric" where
  "DecBusyWorker m = m\<lparr>busyWorkers := busyWorkers m + not 0\<rparr>"

definition IncSuccessTask :: "metric \<Rightarrow> metric" where
  "IncSuccessTask m = m\<lparr>successTasks := successTasks m + 1\<rparr>"

definition IncFailureTask :: "metric \<Rightarrow> metric" where
  "IncFailureTask m = m\<lparr>failureTasks := failureTasks m + 1\<rparr>"

definition IncSubmittedTask :: "metric \<Rightarrow> metric" where
  "IncSubmittedTask m = m\<lparr>submittedTasks := submittedTasks m + 1\<rparr>"

definition CompletedTasks :: "metric \<Rightarrow> 64 word" where
  "CompletedTasks m = successTasks m + failureTasks m"

record 'w work_state =
  wk_metric :: metric
  wk_activeWorkers :: int
  wk_events :: "Event list"
  wk_world :: 'w

text \<open>
  \<^verbatim>\<open>work\<close>: \<open>run\<close> is the call of \<^verbatim>\<open>q.run\<close>, \<open>afterFn\<close> the optional callback, whose panic
  is contained. The call of \<^verbatim>\<open>schedule\<close> in the deferred function is a step of the scheduler.
\<close>

definition work ::
  "('w task \<Rightarrow> 'w callback) \<Rightarrow> ('w \<Rightarrow> unit outcome \<times> 'w) option \<Rightarrow> 'w task \<Rightarrow> 'w work_state \<Rightarrow> 'w work_state" where
  "work run afterFn task s =
     (let s = s\<lparr>wk_events := wk_events s @ [new_event EventHandlerStarted None]\<rparr>;
          (ran, w) = run task (wk_world s);
          panicked = (case ran of Panics _ \<Rightarrow> True | Returns _ \<Rightarrow> False);
          handlerErr = (case ran of
              Returns err \<Rightarrow> normalizeHandlerFailure err
            | Panics _ \<Rightarrow> Some (NewFailure ClassificationPermanent ''handler_panic'' (Some ErrHandlerPanic)));
          (err, events, w) = settle task handlerErr w;
          s = s\<lparr>wk_activeWorkers := wk_activeWorkers s - 1, wk_metric := DecBusyWorker (wk_metric s),
                wk_events := wk_events s @ events\<rparr>;
          s = (if err = None \<and> \<not> panicked
               then s\<lparr>wk_metric := IncSuccessTask (wk_metric s),
                      wk_events := wk_events s @ [new_event EventHandlerSucceeded None]\<rparr>
               else s\<lparr>wk_metric := IncFailureTask (wk_metric s),
                      wk_events := wk_events s @ [failureEvent (new_event EventHandlerFailed err) err]\<rparr>)
      in s\<lparr>wk_world := (case afterFn of None \<Rightarrow> w | Some f \<Rightarrow> snd (f w))\<rparr>)"

section \<open>The retry loop ends\<close>

text \<open>\<open>calls\<close> counts the handler attempts in the world: an attempt adds one, a wait none.\<close>

definition counts_attempts :: "('w \<Rightarrow> nat) \<Rightarrow> 'w callback \<Rightarrow> (duration \<Rightarrow> 'w \<Rightarrow> error \<times> 'w) \<Rightarrow> bool" where
  "counts_attempts calls attempt wait \<longleftrightarrow>
     (\<forall>w. calls (snd (attempt w)) = calls w + 1) \<and> (\<forall>d w. calls (snd (wait d w)) = calls w)"

definition context_waits :: "(duration \<Rightarrow> 'w \<Rightarrow> error \<times> 'w) \<Rightarrow> bool" where
  "context_waits wait \<longleftrightarrow> (\<forall>d w e. fst (wait d w) = Some e \<longrightarrow> e = Canceled \<or> e = DeadlineExceeded)"

definition retried :: "int \<Rightarrow> Event list \<Rightarrow> bool" where
  "retried budget events \<longleftrightarrow> int (length events) \<le> budget \<and>
     map ev_RetryRemaining events = map (\<lambda>k. budget - 1 - int k) [0..<length events] \<and>
     (\<forall>ev \<in> set events. ev_Kind ev = EventRetryScheduled)"

lemma retried_Nil [simp]: "0 \<le> budget \<Longrightarrow> retried budget []"
  by (simp add: retried_def)

lemma retried_Cons:
  "retried budget (ev # events) \<longleftrightarrow>
     ev_Kind ev = EventRetryScheduled \<and> ev_RetryRemaining ev = budget - 1 \<and> 0 < budget \<and> retried (budget - 1) events"
  if "0 \<le> budget"
proof -
  have "[0..<Suc (length events)] = 0 # map Suc [0..<length events]"
    by (simp add: map_Suc_upt upt_conv_Cons del: upt_Suc)
  then show ?thesis
    using that by (auto simp: retried_def comp_def simp del: upt_Suc)
qed

lemma context_not_retryable:
  "ClassifyFailure (Some Canceled) \<noteq> ClassificationRetryable"
  "ClassifyFailure (Some DeadlineExceeded) \<noteq> ClassificationRetryable"
  by code_simp+

lemma failureEvent_fields [simp]:
  "ev_Kind (failureEvent ev err) = ev_Kind ev" "ev_RetryRemaining (failureEvent ev err) = ev_RetryRemaining ev"
  "ev_RetryDelay (failureEvent ev err) = ev_RetryDelay ev" "ev_Kind (new_event k e) = k"
  by (simp_all add: failureEvent_def new_event_def Let_def)

definition retry_event :: "'w Message \<Rightarrow> duration \<Rightarrow> go_err \<Rightarrow> Event" where
  "retry_event m delay e =
     failureEvent ((new_event EventRetryScheduled (normalizeHandlerFailure (Some e)))
       \<lparr>ev_RetryRemaining := msg_RetryCount m, ev_RetryDelay := delay\<rparr>) (normalizeHandlerFailure (Some e))"

lemma handler_loop_stop:
  assumes "attempt w = (res, w1)"
    and "\<forall>e. res = Returns (Some e) \<longrightarrow> msg_RetryCount m = 0 \<or> ClassifyFailure (Some e) \<noteq> ClassificationRetryable"
  shows "handler_loop attempt backoff wait n delay events m w = Some (res, events, m, w1)"
  using assms by (subst handler_loop.simps) (auto split: outcome.split)

lemma handler_loop_retry:
  assumes "attempt w = (Returns (Some e), w1)" and "msg_RetryCount m \<noteq> 0"
    and "ClassifyFailure (Some e) = ClassificationRetryable"
    and "m1 = m\<lparr>msg_RetryCount := msg_RetryCount m - 1\<rparr>"
    and "d1 = (if msg_RetryDelay m = 0 then backoff n else delay)"
    and "wait d1 w1 = (r, w2)"
  shows "handler_loop attempt backoff wait n delay events m w =
    (case r of Some x \<Rightarrow> Some (Returns (Some x), events @ [retry_event m1 d1 e], m1, w2)
     | None \<Rightarrow> handler_loop attempt backoff wait (if msg_RetryDelay m = 0 then n + 1 else n) d1
                (events @ [retry_event m1 d1 e]) m1 w2)"
  using assms by (subst handler_loop.simps) (simp add: Let_def retry_event_def split: option.split)

lemma retry_event_fields:
  "ev_Kind (retry_event m d e) = EventRetryScheduled" "ev_RetryRemaining (retry_event m d e) = msg_RetryCount m"
  by (simp_all add: retry_event_def new_event_def)

text \<open>What a finished loop promises, of the message and the world it started from.\<close>

definition loop_result ::
  "('w \<Rightarrow> nat) \<Rightarrow> 'w Message \<Rightarrow> 'w \<Rightarrow> error outcome \<Rightarrow> Event list \<Rightarrow> 'w Message \<Rightarrow> 'w \<Rightarrow> bool" where
  "loop_result calls m w sent retries m' w' \<longleftrightarrow>
     retried (msg_RetryCount m) retries \<and> msg_RetryCount m' = msg_RetryCount m - int (length retries) \<and>
     calls w + max 1 (length retries) \<le> calls w' \<and> calls w' \<le> calls w + length retries + 1 \<and>
     (\<forall>e. sent = Returns (Some e) \<longrightarrow> msg_RetryCount m' = 0 \<or> ClassifyFailure (Some e) \<noteq> ClassificationRetryable)"

lemma loop_result_stop:
  assumes "calls w1 = calls w + 1" and "0 \<le> msg_RetryCount m"
    and "\<forall>e. sent = Returns (Some e) \<longrightarrow> msg_RetryCount m = 0 \<or> ClassifyFailure (Some e) \<noteq> ClassificationRetryable"
  shows "loop_result calls m w sent [] m w1"
  using assms by (simp add: loop_result_def)

lemma loop_result_retry:
  assumes "loop_result calls m1 w2 sent retries m' w'" and "calls w2 = calls w + 1" and "msg_RetryCount m > 0"
    and "m1 = m\<lparr>msg_RetryCount := msg_RetryCount m - 1\<rparr>"
  shows "loop_result calls m w sent (retry_event m1 d e # retries) m' w'"
  using assms by (auto simp: loop_result_def retried_Cons retry_event_fields)

lemma handler_loop_ends:
  assumes counts: "counts_attempts calls attempt wait" and ctx: "context_waits wait"
  shows "0 \<le> msg_RetryCount m \<Longrightarrow>
    \<exists>sent retries m' w'. handler_loop attempt backoff wait n delay events m w =
        Some (sent, events @ retries, m', w') \<and> loop_result calls m w sent retries m' w'"
proof (induction "nat (msg_RetryCount m)" arbitrary: n delay events m w)
  case (0 m)
  obtain res w1 where att: "attempt w = (res, w1)" by (cases "attempt w")
  have "calls w1 = calls w + 1" "msg_RetryCount m = 0"
    using counts att 0 by (auto simp: counts_attempts_def dest: spec [of _ w])
  then show ?case
    using handler_loop_stop [where attempt = attempt and w = w and m = m, OF att] loop_result_stop [of calls w1 w m res] by fastforce
next
  case (Suc k m)
  obtain res w1 where att: "attempt w = (res, w1)" by (cases "attempt w")
  have c1: "calls w1 = calls w + 1"
    using counts att by (auto simp: counts_attempts_def dest: spec [of _ w])
  show ?case
  proof (cases "\<exists>e. res = Returns (Some e) \<and> ClassifyFailure (Some e) = ClassificationRetryable")
    case False
    then show ?thesis
      using handler_loop_stop [where attempt = attempt and w = w and m = m, OF att] loop_result_stop [OF c1 Suc.prems, of res] by fastforce
  next
    case True
    then obtain e where e: "res = Returns (Some e)" "ClassifyFailure (Some e) = ClassificationRetryable" by blast
    have pos: "msg_RetryCount m > 0" using Suc.hyps(2) by simp
    define m1 where "m1 = m\<lparr>msg_RetryCount := msg_RetryCount m - 1\<rparr>"
    define d1 where "d1 = (if msg_RetryDelay m = 0 then backoff n else delay)"
    obtain r w2 where wt: "wait d1 w1 = (r, w2)" by (cases "wait d1 w1")
    have c2: "calls w2 = calls w + 1" using counts wt c1 by (metis counts_attempts_def snd_conv)
    have "msg_RetryCount m \<noteq> 0" using pos by simp
    note unfold = handler_loop_retry [of attempt w e w1 m m1 d1 backoff n delay wait r w2 events, OF att [unfolded e(1)] this e(2) m1_def d1_def wt]
    have m1: "k = nat (msg_RetryCount m1)" "0 \<le> msg_RetryCount m1"
      using Suc.hyps(2) pos by (simp_all add: m1_def)
    show ?thesis
    proof (cases r)
      case None
      obtain sent retries m' w' where
        run: "handler_loop attempt backoff wait (if msg_RetryDelay m = 0 then n + 1 else n) d1
          (events @ [retry_event m1 d1 e]) m1 w2 = Some (sent, (events @ [retry_event m1 d1 e]) @ retries, m', w')"
        and res: "loop_result calls m1 w2 sent retries m' w'"
        using Suc.hyps(1) [OF m1] by metis
      show ?thesis
        using unfold [unfolded None option.case run] loop_result_retry [OF res c2 pos m1_def, of d1 e]
        by (metis append.assoc append_Cons append_Nil)
    next
      case (Some x)
      have "x = Canceled \<or> x = DeadlineExceeded"
        using ctx wt Some by (metis context_waits_def fst_conv)
      then have "loop_result calls m w (Returns (Some x)) [retry_event m1 d1 e] m1 w2"
        using context_not_retryable c2 pos
        by (auto simp: loop_result_def retried_Cons retry_event_fields m1_def)
      then show ?thesis
        using unfold [unfolded Some option.case] by blast
    qed
  qed
qed

text \<open>
  C23: whatever the handler, the backoff and the timer do, the retry loop of a message with a
  nonnegative retry budget ends; it makes at least one attempt and never more than the budget
  allows, counts the budget down by one in every retry event, and gives up early only on success,
  a panic or a failure that is not retryable.
\<close>

theorem handle_retry_budget:
  assumes "0 \<le> msg_RetryCount m"
    and "counts_attempts calls (case msg_Task m of Some task \<Rightarrow> task | None \<Rightarrow> worker_Run m) wait"
    and "context_waits wait"
  shows "\<exists>sent retries m' w'. handle_goroutine worker_Run backoff wait m w = Some (sent, retries, m', w') \<and>
    int (length retries) \<le> msg_RetryCount m \<and>
    map ev_RetryRemaining retries = map (\<lambda>k. msg_RetryCount m - 1 - int k) [0..<length retries] \<and>
    calls w < calls w' \<and> calls w' \<le> calls w + nat (msg_RetryCount m) + 1 \<and>
    (\<forall>e. sent = Returns (Some e) \<longrightarrow>
       int (length retries) = msg_RetryCount m \<or> ClassifyFailure (Some e) \<noteq> ClassificationRetryable)"
proof -
  obtain sent retries m' w' where
    run: "handle_goroutine worker_Run backoff wait m w = Some (sent, retries, m', w')"
    and res: "loop_result calls m w sent retries m' w'"
    using handler_loop_ends [OF assms(2,3,1), of backoff 0 "msg_RetryDelay m" "[]" w]
    by (auto simp: handle_goroutine_def)
  have budget: "int (length retries) \<le> msg_RetryCount m"
    and final: "msg_RetryCount m' = msg_RetryCount m - int (length retries)"
    and attempts: "calls w + max 1 (length retries) \<le> calls w'" "calls w' \<le> calls w + length retries + 1"
    using res by (simp_all add: loop_result_def retried_def)
  have "calls w' \<le> calls w + nat (msg_RetryCount m) + 1"
    using attempts(2) budget by linarith
  moreover have "calls w < calls w'"
    using attempts(1) by linarith
  ultimately show ?thesis
    using run res budget final by (auto simp: loop_result_def retried_def)
qed

text \<open>A handler that fails twice with a retryable error, counted in the world.\<close>

definition flaky :: "nat callback" where
  "flaky w = (Returns (if w < 2 then Some (sentinel ''boom'') else None), w + 1)"

theorem handle_retry_budget_witness:
  "\<exists>sent retries m' w'.
    handle_goroutine (\<lambda>m. flaky) (\<lambda>n. 5) (\<lambda>d w. (None, w)) (NewMessage ''p'' [sample_option]) 0 =
      Some (sent, retries, m', w') \<and> int (length retries) \<le> 3 \<and> 0 < w' \<and> w' \<le> 4"
  using handle_retry_budget [of "NewMessage ''p'' [sample_option]" id "\<lambda>m. flaky" "\<lambda>d w. (None, w)" "\<lambda>n. 5" 0]
  by (auto simp: counts_attempts_def context_waits_def flaky_def NewMessage_def NewOptions_def
      sample_option_def overlay_def newDefaultOptions_def Let_def)

section \<open>Normalised failures keep their classification\<close>

lemma rank_improve:
  "classificationRank (res_classification (improve res cand)) =
     max (classificationRank (res_classification res)) (classificationRank (res_classification cand))"
  by (auto simp: improve_def replaces_def Let_def)

abbreviation walk_rank :: "nat \<Rightarrow> error list \<Rightarrow> FailureResolution \<Rightarrow> nat" where
  "walk_rank n stack res \<equiv> classificationRank (res_classification (resolve_loop n stack res))"

lemma walk_rank_mono:
  "classificationRank (res_classification res) \<le> classificationRank (res_classification res') \<Longrightarrow>
    walk_rank n stack res \<le> walk_rank (Suc n) stack res'"
proof (induction n stack res arbitrary: res' rule: resolve_loop.induct)
  case (1 stack res)
  then show ?case
    by (cases "(Suc 0, stack, res')" rule: resolve_loop.cases) (auto simp: rank_improve)
qed (auto simp: rank_improve)

lemma walk_rank_ge: "classificationRank (res_classification res) \<le> walk_rank n stack res"
  by (induction n stack res rule: resolve_loop.induct) (auto simp: rank_improve)

lemma walk_rank_start:
  "walk_rank n stack res \<le> max (classificationRank (res_classification res)) (walk_rank n stack res')"
proof (induction n stack res arbitrary: res' rule: resolve_loop.induct)
  case (4 visits current stack res)
  show ?case
    using "4.IH" [of "improve res' (candidate current)"]
      walk_rank_ge [of "improve res' (candidate current)" visits "rev (unwrap_entries current) @ stack"]
    by (simp add: rank_improve) linarith
qed auto

lemma handler_codes_valid:
  "\<not> invalidIdentity ''handler_failed''" "\<not> invalidIdentity ''handler_canceled''"
  "\<not> invalidIdentity ''handler_deadline_exceeded''" "\<not> invalidIdentity ''handler_panic''"
  by (simp_all add: invalidIdentity_def MaxIdentityBytes_def)

lemma ClassifyFailure_valid: "classification_valid (ClassifyFailure err)"
  using safe_ResolveFailure [of err] by (simp add: ClassifyFailure_def safe_resolution_def)

lemma ClassifyFailure_wrapped:
  assumes valid: "classification_valid c" "\<not> invalidIdentity code"
    and outranks: "classificationRank (ClassifyFailure cause) \<le> classificationRank c"
  shows "ClassifyFailure (Some (NewFailure c code cause)) = c"
proof -
  let ?neutral = "resolution ClassificationRetryable ''''"
  let ?start = "improve ?neutral (resolution c code)"
  have "ResolveFailure (Some (NewFailure c code cause)) =
      resolve_loop (Suc 63) [Some (NewFailure c code cause)] ?neutral"
    by (simp add: ResolveFailure_def)
  then have step: "ResolveFailure (Some (NewFailure c code cause)) = resolve_loop 63 [cause] ?start"
    using valid unfolding resolve_loop.simps by (simp add: NewFailure_def Failure_Validate_None)
  have c: "1 \<le> classificationRank c" using valid(1) by (cases c) auto
  then have start: "classificationRank (res_classification ?start) = classificationRank c"
    by (simp add: rank_improve)
  have "walk_rank 63 [cause] ?neutral \<le> walk_rank 64 [cause] ?neutral"
    using walk_rank_mono [of ?neutral ?neutral 63 "[cause]"] by simp
  then have "walk_rank 63 [cause] ?start \<le> classificationRank c"
    using walk_rank_start [of 63 "[cause]" ?start ?neutral] outranks start
    by (simp add: ClassifyFailure_def ResolveFailure_def)
  then have "classificationRank (ClassifyFailure (Some (NewFailure c code cause))) = classificationRank c"
    using walk_rank_ge [of ?start 63 "[cause]"] start step by (simp add: ClassifyFailure_def)
  then show ?thesis
    using rank_inject [OF ClassifyFailure_valid valid(1)] by blast
qed

text \<open>
  Normalising a handler failure never changes its classification, however large or nested the
  error graph is, and always gives a failure that its own validation accepts, so that retry and
  settlement decide on the same classification.
\<close>

theorem normalizeHandlerFailure_classification:
  "ClassifyFailure (normalizeHandlerFailure (Some e)) = ClassifyFailure (Some e) \<and>
   (\<exists>code. normalizeHandlerFailure (Some e) = Some (NewFailure (ClassifyFailure (Some e)) code (Some e)) \<and>
      Failure_Validate (ClassifyFailure (Some e)) code = None)"
proof -
  define code where "code =
    (if error_Is (Some e) ''context.DeadlineExceeded'' then ''handler_deadline_exceeded''
     else if error_Is (Some e) ''context.Canceled'' then ''handler_canceled''
     else if res_code (ResolveFailure (Some e)) = '''' then ''handler_failed''
     else res_code (ResolveFailure (Some e)))"
  have code: "\<not> invalidIdentity code"
    using safe_ResolveFailure [of "Some e"] by (auto simp: code_def safe_resolution_def handler_codes_valid)
  have norm: "normalizeHandlerFailure (Some e) = Some (NewFailure (ClassifyFailure (Some e)) code (Some e))"
    by (simp add: normalizeHandlerFailure_def Let_def ClassifyFailure_def code_def)
  then show ?thesis
    using ClassifyFailure_wrapped [OF ClassifyFailure_valid code, of "Some e" "Some e"] code
    by (auto simp: Failure_Validate_None ClassifyFailure_valid)
qed

section \<open>One settlement per delivery\<close>

text \<open>The one callback a delivery is settled through, from what running it gave.\<close>

fun settlement_call ::
  "'w callback \<Rightarrow> (error \<Rightarrow> 'w callback) \<Rightarrow> error outcome \<Rightarrow> 'w callback" where
  "settlement_call ack nackf (Returns None) = ack"
| "settlement_call ack nackf (Returns (Some e)) = nackf (normalizeHandlerFailure (Some e))"
| "settlement_call ack nackf (Panics p) =
     nackf (Some (NewFailure ClassificationPermanent ''handler_panic'' (Some ErrHandlerPanic)))"

fun settlement_kind :: "error outcome \<Rightarrow> error outcome \<Rightarrow> EventKind" where
  "settlement_kind (Returns None) (Returns None) = EventAcknowledged"
| "settlement_kind (Returns None) settled = EventAckFailed"
| "settlement_kind result (Returns None) = EventRejected"
| "settlement_kind result settled = EventRejectFailed"

lemma settlement_codes_valid:
  "\<not> invalidIdentity ''acknowledgement_failed''" "\<not> invalidIdentity ''failure_settlement_failed''"
  by (simp_all add: invalidIdentity_def MaxIdentityBytes_def)

lemma rank_le_5: "classificationRank c \<le> 5"
  by (cases c) auto

lemma ClassifyFailure_infrastructure:
  assumes "\<not> invalidIdentity code"
  shows "ClassifyFailure (Some (NewFailure ClassificationInfrastructure code cause)) = ClassificationInfrastructure"
    and "ClassifyFailure (errors_Join [Some e, Some (NewFailure ClassificationInfrastructure code cause)]) =
      ClassificationInfrastructure"
proof -
  let ?failure = "NewFailure ClassificationInfrastructure code cause"
  let ?res = "improve (resolution ClassificationRetryable '''') (resolution ClassificationInfrastructure code)"
  show "ClassifyFailure (Some ?failure) = ClassificationInfrastructure"
    using assms by (intro ClassifyFailure_wrapped) (simp_all add: rank_le_5)
  have "candidate (Joined [Some e, Some ?failure]) = resolution ClassificationRetryable ''''" by simp
  moreover have "candidate ?failure = resolution ClassificationInfrastructure code"
    using assms by (simp add: NewFailure_def Failure_Validate_None)
  ultimately have walk: "ResolveFailure (errors_Join [Some e, Some ?failure]) =
      resolve_loop 62 (rev (unwrap_entries ?failure) @ [Some e]) ?res"
    unfolding ResolveFailure_def errors_Join_def
    by (simp add: improve_def replaces_def numeral_eq_Suc)
  have "5 \<le> classificationRank (ClassifyFailure (errors_Join [Some e, Some ?failure]))"
    using walk_rank_ge [of ?res 62 "rev (unwrap_entries ?failure) @ [Some e]"] unfolding ClassifyFailure_def walk
    by (simp add: rank_improve)
  then show "ClassifyFailure (errors_Join [Some e, Some ?failure]) = ClassificationInfrastructure"
    by (cases "ClassifyFailure (errors_Join [Some e, Some ?failure])") auto
qed


definition after_call :: "('w \<Rightarrow> unit outcome \<times> 'w) option \<Rightarrow> 'w \<Rightarrow> 'w" where
  "after_call afterFn w = (case afterFn of None \<Rightarrow> w | Some f \<Rightarrow> snd (f w))"

lemma invokeSettlement_result:
  "invokeSettlement f w =
     ((case fst (f w) of Returns err \<Rightarrow> err | Panics p \<Rightarrow> Some (Wrapped (Some ErrSettlementPanic))), snd (f w))"
  by (simp add: invokeSettlement_def split: prod.split outcome.split)

lemma normalizeHandlerFailure_Some: "\<exists>e'. normalizeHandlerFailure (Some e) = Some e'"
  by (simp add: normalizeHandlerFailure_def Let_def)


lemma failureEvent_class [simp]: "ev_Classification (failureEvent ev err) = ClassifyFailure err"
  by (simp add: failureEvent_def Let_def ClassifyFailure_def)

lemma settle_ack:
  assumes "as_acknowledger task = Some d" and "ak_AcknowledgementRequired d"
  shows "\<exists>err ev. settle task None w = (err, [ev], snd (ak_Ack d w)) \<and>
    (err = None \<longleftrightarrow> fst (ak_Ack d w) = Returns None) \<and>
    ev_Kind ev = settlement_kind (Returns None) (fst (ak_Ack d w)) \<and>
    (err \<noteq> None \<longrightarrow> ClassifyFailure err = ClassificationInfrastructure)"
  using assms settlement_codes_valid ClassifyFailure_infrastructure(1)
  by (cases "fst (ak_Ack d w)" rule: outcome.exhaust [case_product option.exhaust])
    (auto simp: settle_def invokeSettlement_result Let_def split: option.split outcome.split)

lemma errors_Join_error: "\<exists>y. errors_Join (Some e # errs) = Some y"
  by (simp add: errors_Join_def Let_def)

lemma settle_nack:
  assumes "as_acknowledger task = Some d" and "ak_AcknowledgementRequired d" and "ak_NackFailure d = Some nackf"
  shows "\<exists>err ev. settle task (Some e) w = (err, [ev], snd (nackf (Some e) w)) \<and> err \<noteq> None \<and>
    ev_Kind ev = (if fst (nackf (Some e) w) = Returns None then EventRejected else EventRejectFailed) \<and>
    ClassifyFailure err = (if fst (nackf (Some e) w) = Returns None then ClassifyFailure (Some e)
                           else ClassificationInfrastructure)"
  using assms settlement_codes_valid ClassifyFailure_infrastructure(2) errors_Join_error
  by (cases "fst (nackf (Some e) w)" rule: outcome.exhaust [case_product option.exhaust])
    (auto simp: settle_def invokeSettlement_result Let_def split: option.split outcome.split)

lemma settlement_kind_rejects:
  "result \<noteq> Returns None \<Longrightarrow>
    settlement_kind result settled = (if settled = Returns None then EventRejected else EventRejectFailed)"
  by (cases "(result, settled)" rule: settlement_kind.cases) auto

definition delivery_failure :: "error outcome \<Rightarrow> error" where
  "delivery_failure result =
     (case result of Returns err \<Rightarrow> normalizeHandlerFailure err
      | Panics p \<Rightarrow> Some (NewFailure ClassificationPermanent ''handler_panic'' (Some ErrHandlerPanic)))"

lemma delivery_failure_None: "delivery_failure result = None \<longleftrightarrow> result = Returns None"
  by (auto simp: delivery_failure_def normalizeHandlerFailure_def Let_def split: outcome.split)

lemma delivery_failure_call:
  "delivery_failure result = Some e \<Longrightarrow> settlement_call ack nackf result = nackf (Some e)"
  by (cases "(ack, nackf, result)" rule: settlement_call.cases)
    (auto simp: delivery_failure_def normalizeHandlerFailure_def Let_def)

lemma settle_call:
  assumes "as_acknowledger task = Some d" and "ak_AcknowledgementRequired d" and "ak_NackFailure d = Some nackf"
    and call: "call = settlement_call (ak_Ack d) nackf result"
  shows "\<exists>err ev. settle task (delivery_failure result) w = (err, [ev], snd (call w)) \<and>
    (err = None \<longleftrightarrow> result = Returns None \<and> fst (call w) = Returns None) \<and>
    ev_Kind ev = settlement_kind result (fst (call w)) \<and>
    (fst (call w) \<noteq> Returns None \<longrightarrow> ClassifyFailure err = ClassificationInfrastructure) \<and>
    (fst (call w) = Returns None \<and> result \<noteq> Returns None \<longrightarrow>
       ClassifyFailure err = ClassifyFailure (delivery_failure result))"
proof (cases "delivery_failure result")
  case None
  then have "result = Returns None" by (simp add: delivery_failure_None)
  then show ?thesis
    using settle_ack [OF assms(1,2), of w] call None by auto
next
  case (Some e)
  then have "call = nackf (Some e)" "result \<noteq> Returns None"
    using call delivery_failure_call delivery_failure_None by (metis option.distinct(1))+
  then show ?thesis
    using settle_nack [OF assms(1-3), of e w] Some by (auto simp: settlement_kind_rejects)
qed

text \<open>
  C2: a delivery with settlement callbacks is settled through exactly one of them and once: the
  acknowledgement if its handler returned without error, otherwise the rejection, which gets the
  normalised failure or, after a panic, a permanent one. The world otherwise only passes through
  the handler and the after callback. The wrapper gives its slot back, counts the delivery as one
  success if the handler and the acknowledgement succeeded and as one failure otherwise, and emits
  a start, a settlement and a completion event. A settlement that fails or panics is always
  reported as an infrastructure failure.
\<close>

theorem work_settles_once:
  assumes "task = JobTask (SetFailureAcknowledgement (Some ack) (Some nackf) m)"
    and "run task (wk_world s) = (result, w1)"
    and "settlement_call ack nackf result w1 = (settled, w2)"
    and "ok \<longleftrightarrow> result = Returns None \<and> settled = Returns None"
    and "s' = work run afterFn task s"
  shows "wk_world s' = after_call afterFn w2 \<and>
    wk_activeWorkers s' = wk_activeWorkers s - 1 \<and>
    wk_metric s' = (wk_metric s)\<lparr>busyWorkers := busyWorkers (wk_metric s) - 1,
      successTasks := successTasks (wk_metric s) + (if ok then 1 else 0),
      failureTasks := failureTasks (wk_metric s) + (if ok then 0 else 1)\<rparr> \<and>
    (\<exists>a b c. wk_events s' = wk_events s @ [a, b, c] \<and> ev_Kind a = EventHandlerStarted \<and>
      ev_Kind b = settlement_kind result settled \<and>
      ev_Kind c = (if ok then EventHandlerSucceeded else EventHandlerFailed) \<and>
      (settled \<noteq> Returns None \<longrightarrow> ev_Classification c = ClassificationInfrastructure))"
proof -
  define d where "d = \<lparr>ak_AcknowledgementRequired = True, ak_Ack = ack,
    ak_Nack = Nack (SetFailureAcknowledgement (Some ack) (Some nackf) m), ak_NackFailure = Some nackf\<rparr>"
  have d: "as_acknowledger task = Some d"
    by (simp add: assms(1) d_def AcknowledgementRequired_def SetFailureAcknowledgement_def Ack_def [abs_def]
        NackFailure_def [abs_def])
  then obtain err ev where settle: "settle task (delivery_failure result) w1 = (err, [ev], w2)"
    and err: "err = None \<longleftrightarrow> ok" and ev: "ev_Kind ev = settlement_kind result settled"
    and infra: "settled \<noteq> Returns None \<longrightarrow> ClassifyFailure err = ClassificationInfrastructure"
    using settle_call [OF d, of nackf "settlement_call ack nackf result" result w1] assms(3,4)
    by (auto simp: d_def)
  have panicked: "(case result of Panics p \<Rightarrow> True | Returns e \<Rightarrow> False) \<longrightarrow> \<not> ok"
    using assms(4) by (auto split: outcome.split)
  have failed: "settled \<noteq> Returns None \<longrightarrow> \<not> ok" using assms(4) by simp
  show ?thesis
    unfolding assms(5) work_def Let_def after_call_def using assms(2) settle err ev infra panicked failed
    by (auto simp: delivery_failure_def IncSuccessTask_def IncFailureTask_def DecBusyWorker_def
        split: option.split outcome.splits)
qed

definition sample_delivery :: "string list task" where
  "sample_delivery = JobTask (SetFailureAcknowledgement (Some (\<lambda>w. (Returns None, w @ [''ack''])))
     (Some (\<lambda>err w. (Panics ''broker'', w @ [''nack'']))) (NewMessage ''p'' []))"

definition sample_work :: "string list work_state" where
  "sample_work = work (\<lambda>task w. (Returns (Some (sentinel ''boom'')), w)) None sample_delivery
     \<lparr>wk_metric = NewMetric, wk_activeWorkers = 1, wk_events = [], wk_world = []\<rparr>"

theorem work_settles_once_witness:
  "wk_world sample_work = [''nack''] \<and> wk_activeWorkers sample_work = 0 \<and>
   failureTasks (wk_metric sample_work) = 1 \<and> successTasks (wk_metric sample_work) = 0"
  using work_settles_once [of sample_delivery "\<lambda>w. (Returns None, w @ [''ack''])"
      "\<lambda>err w. (Panics ''broker'', w @ [''nack''])" "NewMessage ''p'' []"
      "\<lambda>task w. (Returns (Some (sentinel ''boom'')), w)"
      "\<lparr>wk_metric = NewMetric, wk_activeWorkers = 1, wk_events = [], wk_world = []\<rparr>"
      "Returns (Some (sentinel ''boom''))" "[]" "Panics ''broker''" "[''nack'']" False sample_work None]
  by (simp add: sample_delivery_def sample_work_def after_call_def NewMetric_def)

end
