(* ===== verification/Queue_Options.thy ===== *)
theory Queue_Options
  imports Ring Lifecycle Job
begin

text \<open>
  Construction of a queue: the functional options of src/options.go, \<^verbatim>\<open>NewQueue\<close> and \<^verbatim>\<open>Start\<close>
  of src/queue.go and \<^verbatim>\<open>NewPool\<close> of src/pool.go. The fields of \<^verbatim>\<open>Options\<close> are not exported, so
  that the options of the package, a nil interface and a nil function are all there are. Loggers,
  metrics, observers and after callbacks are opaque values here; a nil one is None.
\<close>

section \<open>Options\<close>

definition defaultCapacity :: int where "defaultCapacity = 10000"

abbreviation ErrMissingWorker :: go_err where "ErrMissingWorker \<equiv> sentinel ''queue.ErrMissingWorker''"
abbreviation ErrInvalidConfiguration :: go_err where
  "ErrInvalidConfiguration \<equiv> sentinel ''queue.ErrInvalidConfiguration''"
abbreviation ErrInvalidManagementLifecycle :: go_err where
  "ErrInvalidManagementLifecycle \<equiv> sentinel ''queue.ErrInvalidManagementLifecycle''"

text \<open>The concrete type of a worker is a ring or that of a backend.\<close>

datatype ('t, 'b) worker = RingWorker "'t Ring" | BackendWorker 'b

record ('t, 'h, 'b) QueueOptions =
  qo_workerCount :: int
  qo_logger :: "'h option"
  qo_queueSize :: int
  qo_worker :: "('t, 'b) worker option"
  qo_fn :: "('t \<Rightarrow> error outcome) option"
  qo_afterFn :: "'h option"
  qo_metric :: "'h option"
  qo_observer :: "'h option"
  qo_retryInterval :: duration
  qo_lifecycleConfigured :: bool
  qo_lifecycle :: "WorkerLifecycle option"

text \<open>What the package takes from its environment and its own default values.\<close>

record 'h package_defaults =
  defaultWorkerCount :: int
  defaultNewLogger :: 'h
  defaultMetric :: 'h
  emptyObserver :: 'h

datatype ('t, 'h, 'b) queue_option =
    NilOption
  | WithWorkerCount int
  | WithQueueSize int
  | WithLogger "'h option"
  | WithMetric "'h option"
  | WithObserver "'h option"
  | WithWorker "('t, 'b) worker option"
  | WithWorkerLifecycle "WorkerLifecycle option"
  | WithFn "('t \<Rightarrow> error outcome) option"
  | WithAfterFn "'h option"
  | WithRetryInterval duration

fun option_apply ::
  "'h package_defaults \<Rightarrow> ('t, 'h, 'b) queue_option \<Rightarrow> ('t, 'h, 'b) QueueOptions \<Rightarrow> ('t, 'h, 'b) QueueOptions" where
  "option_apply df NilOption q = q"
| "option_apply df (WithWorkerCount num) q =
     q\<lparr>qo_workerCount := (if num \<le> 0 then defaultWorkerCount df else num)\<rparr>"
| "option_apply df (WithQueueSize num) q = q\<lparr>qo_queueSize := num\<rparr>"
| "option_apply df (WithLogger l) q = q\<lparr>qo_logger := l\<rparr>"
| "option_apply df (WithMetric m) q = q\<lparr>qo_metric := m\<rparr>"
| "option_apply df (WithObserver ob) q = q\<lparr>qo_observer := ob\<rparr>"
| "option_apply df (WithWorker w) q = q\<lparr>qo_worker := w\<rparr>"
| "option_apply df (WithWorkerLifecycle lc) q = q\<lparr>qo_lifecycleConfigured := True, qo_lifecycle := lc\<rparr>"
| "option_apply df (WithFn fn) q = q\<lparr>qo_fn := fn\<rparr>"
| "option_apply df (WithAfterFn f) q = q\<lparr>qo_afterFn := f\<rparr>"
| "option_apply df (WithRetryInterval d) q = q\<lparr>qo_retryInterval := d\<rparr>"

definition default_options :: "'h package_defaults \<Rightarrow> ('t, 'h, 'b) QueueOptions" where
  "default_options df =
     \<lparr>qo_workerCount = defaultWorkerCount df, qo_logger = Some (defaultNewLogger df),
      qo_queueSize = defaultCapacity, qo_worker = None, qo_fn = Some (\<lambda>task. Returns None), qo_afterFn = None,
      qo_metric = Some (defaultMetric df), qo_observer = Some (emptyObserver df), qo_retryInterval = Second,
      qo_lifecycleConfigured = False, qo_lifecycle = None\<rparr>"

definition or_default :: "'a option \<Rightarrow> 'a \<Rightarrow> 'a option" where
  "or_default v d = (case v of None \<Rightarrow> Some d | Some x \<Rightarrow> Some x)"

definition queue_NewOptions ::
  "'h package_defaults \<Rightarrow> ('t, 'h, 'b) queue_option list \<Rightarrow> ('t, 'h, 'b) QueueOptions" where
  "queue_NewOptions df opts =
     (let o' = fold (option_apply df) opts (default_options df)
      in o'\<lparr>qo_logger := or_default (qo_logger o') (defaultNewLogger df),
            qo_metric := or_default (qo_metric o') (defaultMetric df),
            qo_observer := or_default (qo_observer o') (emptyObserver df),
            qo_fn := or_default (qo_fn o') (\<lambda>task. Returns None)\<rparr>)"

section \<open>The queue and the pool\<close>

record ('t, 'h, 'b) Queue =
  q_workerCount :: int
  q_logger :: "'h option"
  q_worker :: "('t, 'b) worker"
  q_metric :: "'h option"
  q_afterFn :: "'h option"
  q_retryInterval :: duration
  q_observer :: "'h option"
  q_lifecycle :: "WorkerLifecycle option"
  q_started :: bool
  q_stopFlag :: bool

text \<open>\<^verbatim>\<open>workerProvidesStatus\<close>: a ring does not implement StatusProvider, a backend may.\<close>

fun workerProvidesStatus :: "('b \<Rightarrow> bool) \<Rightarrow> ('t, 'b) worker \<Rightarrow> bool" where
  "workerProvidesStatus status (RingWorker r) = False"
| "workerProvidesStatus status (BackendWorker b) = status b"

definition NewQueue ::
  "'h package_defaults \<Rightarrow> ('b \<Rightarrow> bool) \<Rightarrow> ('t, 'h, 'b) queue_option list \<Rightarrow> go_err + ('t, 'h, 'b) Queue" where
  "NewQueue df status opts =
     (let o' = queue_NewOptions df opts
      in case qo_worker o' of
           None \<Rightarrow> Inl ErrMissingWorker
         | Some worker \<Rightarrow>
             if qo_lifecycleConfigured o' \<and> (qo_lifecycle o' = None \<or> \<not> workerProvidesStatus status worker)
             then Inl ErrInvalidManagementLifecycle
             else if qo_retryInterval o' \<le> 0 then Inl (Wrapped (Some ErrInvalidConfiguration))
             else if qo_queueSize o' < 0 then Inl (Wrapped (Some ErrInvalidConfiguration))
             else Inr \<lparr>q_workerCount = qo_workerCount o', q_logger = qo_logger o', q_worker = worker,
                       q_metric = qo_metric o', q_afterFn = qo_afterFn o',
                       q_retryInterval = qo_retryInterval o', q_observer = qo_observer o',
                       q_lifecycle = qo_lifecycle o', q_started = False, q_stopFlag = False\<rparr>)"

definition Queue_Start :: "('t, 'h, 'b) Queue \<Rightarrow> ('t, 'h, 'b) Queue" where
  "Queue_Start q =
     (if q_stopFlag q then q else if q_workerCount q = 0 then q else q\<lparr>q_started := True\<rparr>)"

text \<open>\<^verbatim>\<open>NewPool\<close>: None is its panic, of the ring's constructor or on a configuration error.\<close>

definition NewPool ::
  "'h package_defaults \<Rightarrow> ('b \<Rightarrow> bool) \<Rightarrow> int \<Rightarrow> ('t, 'h, 'b) queue_option list \<Rightarrow> ('t, 'h, 'b) Queue option" where
  "NewPool df status num opts =
     (let ringOptions = queue_NewOptions df opts
      in case NewRing (qo_queueSize ringOptions) (the (qo_fn ringOptions)) of
           None \<Rightarrow> None
         | Some ring \<Rightarrow>
             (case NewQueue df status ([WithWorkerCount num, WithWorker (Some (RingWorker ring))] @ opts) of
                Inl err \<Rightarrow> None
              | Inr q \<Rightarrow> Some (Queue_Start q)))"

section \<open>Options of different settings commute\<close>

fun option_setting :: "('t, 'h, 'b) queue_option \<Rightarrow> string" where
  "option_setting NilOption = ''''"
| "option_setting (WithWorkerCount num) = ''workerCount''"
| "option_setting (WithQueueSize num) = ''queueSize''"
| "option_setting (WithLogger l) = ''logger''"
| "option_setting (WithMetric m) = ''metric''"
| "option_setting (WithObserver ob) = ''observer''"
| "option_setting (WithWorker w) = ''worker''"
| "option_setting (WithWorkerLifecycle lc) = ''lifecycle''"
| "option_setting (WithFn fn) = ''fn''"
| "option_setting (WithAfterFn f) = ''afterFn''"
| "option_setting (WithRetryInterval d) = ''retryInterval''"

lemma option_apply_commute:
  "option_setting a \<noteq> option_setting b \<Longrightarrow>
    option_apply df a (option_apply df b q) = option_apply df b (option_apply df a q)"
  by (cases a; cases b) simp_all

lemma option_apply_same: "option_setting a = option_setting b \<Longrightarrow> option_apply df b (option_apply df a q) = option_apply df b q"
  by (cases a; cases b) simp_all

definition independent_options :: "('t, 'h, 'b) queue_option list \<Rightarrow> bool" where
  "independent_options opts \<longleftrightarrow> distinct (map option_setting (filter (\<lambda>a. option_setting a \<noteq> '''') opts))"

lemma independent_options_Cons:
  "independent_options (a # opts) \<longleftrightarrow> independent_options opts \<and>
     (option_setting a = '''' \<or> option_setting a \<notin> option_setting ` set opts)"
  by (auto simp: independent_options_def)

lemma option_setting_Nil: "option_setting a = '''' \<longleftrightarrow> a = NilOption"
  by (cases a) simp_all

lemma fold_option_commute:
  "\<forall>b \<in> set opts. option_setting b \<noteq> option_setting a \<or> option_setting a = '''' \<Longrightarrow>
    fold (option_apply df) opts (option_apply df a q) = option_apply df a (fold (option_apply df) opts q)"
proof (induction opts arbitrary: q)
  case (Cons b opts)
  have "option_apply df b (option_apply df a q) = option_apply df a (option_apply df b q)"
    using Cons.prems option_apply_commute [of b a] by (auto simp: option_setting_Nil)
  then show ?case using Cons by simp
qed simp

lemma fold_option_remove1:
  assumes "a \<in> set opts" and "independent_options opts"
  shows "fold (option_apply df) opts q = fold (option_apply df) (remove1 a opts) (option_apply df a q)"
  using assms
proof (induction opts arbitrary: q)
  case (Cons b opts)
  show ?case
  proof (cases "b = a")
    case False
    have ind: "independent_options opts" using Cons.prems(2) by (simp add: independent_options_Cons)
    have "a \<in> set opts" using Cons.prems(1) False by simp
    then have "b = NilOption \<or> option_setting b \<noteq> option_setting a"
      using Cons.prems(2) by (auto simp: independent_options_Cons option_setting_Nil)
    then have "option_apply df a (option_apply df b q) = option_apply df b (option_apply df a q)"
      using option_apply_commute [of a b df q] by (metis option_apply.simps(1))
    then show ?thesis
      using Cons.IH [OF \<open>a \<in> set opts\<close> ind, of "option_apply df b q"] False by simp
  qed simp
qed simp

lemma fold_option_permute:
  "mset opts = mset opts' \<Longrightarrow> independent_options opts \<Longrightarrow>
    fold (option_apply df) opts q = fold (option_apply df) opts' q"
proof (induction opts' arbitrary: opts q)
  case (Cons a opts')
  have mem: "a \<in> set opts" using Cons.prems(1) by (metis list.set_intros(1) set_mset_mset)
  have "mset (remove1 a opts) = mset opts'" using Cons.prems(1) by simp
  moreover have "independent_options (remove1 a opts)"
    using Cons.prems(2) by (simp add: independent_options_def distinct_map filter_remove1 inj_on_def)
  ultimately show ?case
    using Cons.IH fold_option_remove1 [OF mem Cons.prems(2)] by simp
qed simp

text \<open>
  the order of options does not matter as long as no setting is given twice, and nil options
  have no effect.
\<close>

theorem queue_options_permute:
  assumes "mset (filter (\<lambda>a. a \<noteq> NilOption) opts) = mset (filter (\<lambda>a. a \<noteq> NilOption) opts')"
    and "independent_options opts"
  shows "queue_NewOptions df opts = queue_NewOptions df opts'"
proof -
  let ?keep = "filter (\<lambda>a. a \<noteq> NilOption)"
  have drop: "fold (option_apply df) os q = fold (option_apply df) (?keep os) q" for os q
    by (induction os arbitrary: q) auto
  have "independent_options (?keep opts)"
    using assms(2) by (simp add: independent_options_def option_setting_Nil)
  then have "fold (option_apply df) opts (default_options df) = fold (option_apply df) opts' (default_options df)"
    using fold_option_permute [OF assms(1)] drop [of opts "default_options df"] drop [of opts' "default_options df"]
    by simp
  then show ?thesis by (simp add: queue_NewOptions_def)
qed

section \<open>Pools\<close>

lemma option_setting_worker: "option_setting a = ''worker'' \<longleftrightarrow> (\<exists>w. a = WithWorker w)"
  by (cases a) simp_all

lemma fold_option_worker:
  "\<forall>w. WithWorker w \<notin> set opts \<Longrightarrow>
    fold (option_apply df) opts (q\<lparr>qo_worker := w'\<rparr>) = (fold (option_apply df) opts q)\<lparr>qo_worker := w'\<rparr>"
  using fold_option_commute [of opts "WithWorker w'" df q]
  by (auto simp: option_setting_worker)

lemma option_apply_count:
  "\<exists>n. option_apply df a (q\<lparr>qo_workerCount := k\<rparr>) = (option_apply df a q)\<lparr>qo_workerCount := n\<rparr> \<and>
     (0 < defaultWorkerCount df \<and> 0 < k \<longrightarrow> 0 < n) \<and> ((\<forall>j. a \<noteq> WithWorkerCount j) \<longrightarrow> n = k)"
  by (cases a) auto

lemma fold_option_count:
  "\<exists>n. fold (option_apply df) opts (q\<lparr>qo_workerCount := k\<rparr>) =
     (fold (option_apply df) opts q)\<lparr>qo_workerCount := n\<rparr> \<and>
     (0 < defaultWorkerCount df \<and> 0 < k \<longrightarrow> 0 < n) \<and> ((\<forall>j. WithWorkerCount j \<notin> set opts) \<longrightarrow> n = k)"
proof (induction opts arbitrary: q k)
  case Nil
  show ?case by auto
next
  case (Cons a opts)
  obtain k' where k': "option_apply df a (q\<lparr>qo_workerCount := k\<rparr>) = (option_apply df a q)\<lparr>qo_workerCount := k'\<rparr>"
    "0 < defaultWorkerCount df \<and> 0 < k \<longrightarrow> 0 < k'" "(\<forall>j. a \<noteq> WithWorkerCount j) \<longrightarrow> k' = k"
    using option_apply_count [where q = q and k = k and a = a and df = df] by blast
  obtain n where n: "fold (option_apply df) opts ((option_apply df a q)\<lparr>qo_workerCount := k'\<rparr>) =
      (fold (option_apply df) opts (option_apply df a q))\<lparr>qo_workerCount := n\<rparr>"
    "0 < defaultWorkerCount df \<and> 0 < k' \<longrightarrow> 0 < n" "(\<forall>j. WithWorkerCount j \<notin> set opts) \<longrightarrow> n = k'"
    using Cons.IH [where q = "option_apply df a q" and k = k'] by blast
  have "fold (option_apply df) (a # opts) (q\<lparr>qo_workerCount := k\<rparr>) =
      (fold (option_apply df) (a # opts) q)\<lparr>qo_workerCount := n\<rparr>"
    by (simp only: fold_simps k'(1) n(1))
  moreover have "0 < defaultWorkerCount df \<and> 0 < k \<longrightarrow> 0 < n" using k'(2) n(2) by blast
  moreover have "(\<forall>j. WithWorkerCount j \<notin> set (a # opts)) \<longrightarrow> n = k" using k'(3) n(3) by fastforce
  ultimately show ?case by blast
qed

lemma or_default_Some [simp]: "or_default v d \<noteq> None" "\<exists>x. or_default v d = Some x"
  by (auto simp: or_default_def split: option.split)

lemma pool_options:
  fixes opts :: "('t, 'h, 'b) queue_option list"
  assumes "\<forall>w. WithWorker w \<notin> set opts"
  obtains n where "queue_NewOptions df ([WithWorkerCount num, WithWorker w'] @ opts) =
      (queue_NewOptions df opts)\<lparr>qo_worker := w', qo_workerCount := n\<rparr>"
    and "0 < defaultWorkerCount df \<longrightarrow> 0 < n"
    and "(\<forall>j. WithWorkerCount j \<notin> set opts) \<longrightarrow> n = (if num \<le> 0 then defaultWorkerCount df else num)"
proof -
  define k where "k = (if num \<le> 0 then defaultWorkerCount df else num)"
  define q where "q = (default_options df :: ('t, 'h, 'b) QueueOptions)"
  obtain n where n: "fold (option_apply df) opts (q\<lparr>qo_workerCount := k\<rparr>) =
      (fold (option_apply df) opts q)\<lparr>qo_workerCount := n\<rparr>"
    "0 < defaultWorkerCount df \<and> 0 < k \<longrightarrow> 0 < n" "(\<forall>j. WithWorkerCount j \<notin> set opts) \<longrightarrow> n = k"
    using fold_option_count [where q = q and k = k and df = df and opts = opts] by blast
  have "fold (option_apply df) ([WithWorkerCount num, WithWorker w'] @ opts) q =
      fold (option_apply df) opts (q\<lparr>qo_workerCount := k\<rparr>\<lparr>qo_worker := w'\<rparr>)"
    by (simp add: k_def)
  also have "\<dots> = (fold (option_apply df) opts q)\<lparr>qo_workerCount := n\<rparr>\<lparr>qo_worker := w'\<rparr>"
    using fold_option_worker [OF assms] n(1) by metis
  finally have "queue_NewOptions df ([WithWorkerCount num, WithWorker w'] @ opts) =
      (queue_NewOptions df opts)\<lparr>qo_worker := w', qo_workerCount := n\<rparr>"
    by (simp add: queue_NewOptions_def q_def Let_def)
  moreover have "0 < defaultWorkerCount df \<longrightarrow> 0 < n" using n(2) by (auto simp: k_def)
  ultimately show ?thesis using that n(3) by (simp add: k_def)
qed

text \<open>
  A pool whose options name no other worker is built, or panics, by its resolved options alone:
  it panics exactly on a negative queue size, a retry interval that is not positive or any
  configured lifecycle, which a ring cannot serve. Otherwise the pool is started over a new empty
  ring of the resolved capacity with the resolved handler, has a positive worker count, the one it
  was given unless an option overrides it, and none of its logger, metric and observer is nil.
\<close>

theorem NewPool_builds:
  assumes "0 < defaultWorkerCount df" and "\<forall>w. WithWorker w \<notin> set opts"
    and "o' = queue_NewOptions df opts"
  shows "if qo_queueSize o' < 0 \<or> qo_retryInterval o' \<le> 0 \<or> qo_lifecycleConfigured o'
    then NewPool df status num opts = None
    else \<exists>ring q. NewPool df status num opts = Some q \<and> q_worker q = RingWorker ring \<and>
      ring_ok ring \<and> ring_contents ring = [] \<and> capacity ring = qo_queueSize o' \<and>
      Some (runFunc ring) = qo_fn o' \<and> q_started q \<and> 0 < q_workerCount q \<and>
      ((\<forall>j. WithWorkerCount j \<notin> set opts) \<longrightarrow>
         q_workerCount q = (if num \<le> 0 then defaultWorkerCount df else num)) \<and>
      q_logger q \<noteq> None \<and> q_metric q \<noteq> None \<and> q_observer q \<noteq> None"
proof (cases "qo_queueSize o' < 0")
  case True
  then show ?thesis by (simp add: NewPool_def NewRing_def assms(3) Let_def)
next
  case False
  have "qo_fn o' \<noteq> None" by (simp add: assms(3) queue_NewOptions_def Let_def)
  then obtain fn where fn: "qo_fn o' = Some fn" by blast
  then obtain ring where ring: "NewRing (qo_queueSize o') fn = Some ring" "runFunc ring = fn"
    using False by (auto simp: NewRing_def)
  obtain n where n: "queue_NewOptions df ([WithWorkerCount num, WithWorker (Some (RingWorker ring))] @ opts) =
      o'\<lparr>qo_worker := Some (RingWorker ring), qo_workerCount := n\<rparr>" "0 < n"
    "(\<forall>j. WithWorkerCount j \<notin> set opts) \<longrightarrow> n = (if num \<le> 0 then defaultWorkerCount df else num)"
    using pool_options [OF assms(2), of df num "Some (RingWorker ring)"] assms(1,3) by metis
  have set: "qo_logger o' \<noteq> None" "qo_metric o' \<noteq> None" "qo_observer o' \<noteq> None"
    by (simp_all add: assms(3) queue_NewOptions_def Let_def)
  have pool: "NewPool df status num opts =
      (case NewQueue df status ([WithWorkerCount num, WithWorker (Some (RingWorker ring))] @ opts) of
         Inl err \<Rightarrow> None | Inr q \<Rightarrow> Some (Queue_Start q))"
    by (simp add: NewPool_def Let_def assms(3) [symmetric] fn ring(1))
  show ?thesis
    using False n(2,3) set NewRing_ok [OF ring(1)] fn ring(2)
    unfolding pool NewQueue_def n(1) Let_def
    by (simp add: Queue_Start_def)
qed

definition sample_defaults :: "string package_defaults" where
  "sample_defaults = \<lparr>defaultWorkerCount = 8, defaultNewLogger = ''logger'', defaultMetric = ''metric'',
     emptyObserver = ''observer''\<rparr>"

theorem queue_options_permute_witness:
  "queue_NewOptions sample_defaults [WithQueueSize 5, NilOption, WithWorkerCount 3 :: (nat, string, nat) queue_option] =
   queue_NewOptions sample_defaults [WithWorkerCount 3, WithQueueSize 5]"
  by (rule queue_options_permute) (simp_all add: independent_options_def)

theorem NewPool_builds_witness:
  "\<exists>q :: (nat, string, nat) Queue. NewPool sample_defaults (\<lambda>b. True) 0 [WithQueueSize 5] = Some q \<and> q_workerCount q = 8"
  using NewPool_builds [of sample_defaults "[WithQueueSize 5] :: (nat, string, nat) queue_option list"
      "queue_NewOptions sample_defaults [WithQueueSize 5]" "\<lambda>b. True" 0]
  by (auto simp: sample_defaults_def queue_NewOptions_def default_options_def duration_units Let_def)

end
