(* ===== verification/Go_Threads.thy ===== *)
theory Go_Threads
  imports Go_Prelude
begin

text \<open>
  Counting goroutines by their program point. A system keeps the program point of every goroutine
  in a function; \<open>at_pc P pc\<close> are the goroutines at a program point of which P holds. The lemmas say how that
  set and its size change when one goroutine moves.
\<close>

definition at_pc :: "('p \<Rightarrow> bool) \<Rightarrow> (nat \<Rightarrow> 'p) \<Rightarrow> nat set" where
  "at_pc P pc = {i. P (pc i)}"

lemma at_pc_update:
  "at_pc P (pc(i := p)) = (if P p then insert i (at_pc P pc) else at_pc P pc - {i})"
  by (auto simp: at_pc_def)

lemma mem_at_pc [simp]: "i \<in> at_pc P pc \<longleftrightarrow> P (pc i)"
  by (simp add: at_pc_def)

lemma finite_at_update [simp]: "finite (at_pc P (pc(i := p))) \<longleftrightarrow> finite (at_pc P pc)"
  by (auto simp: at_pc_update finite_insert)

lemma card_at_move:
  assumes "finite (at_pc P pc)"
  shows "int (card (at_pc P (pc(i := p)))) =
    int (card (at_pc P pc)) + (if P p then 1 else 0) - (if P (pc i) then 1 else 0)"
proof (cases "P (pc i)")
  case True
  then have mem: "i \<in> at_pc P pc" by simp
  then have "card (at_pc P pc) > 0" using assms card_gt_0_iff by blast
  then show ?thesis
    using True mem assms by (simp add: at_pc_update insert_absorb card_Diff_singleton of_nat_diff)
next
  case False
  then have "i \<notin> at_pc P pc" by simp
  then show ?thesis
    using False assms by (simp add: at_pc_update)
qed

lemma card_at_zero: "finite (at_pc P pc) \<Longrightarrow> card (at_pc P pc) = 0 \<longleftrightarrow> (\<forall>i. \<not> P (pc i))"
  by (auto simp: at_pc_def)

lemma at_pc_initial [simp]: "\<not> P p \<Longrightarrow> at_pc P (\<lambda>i. p) = {}"
  by (simp add: at_pc_def)

lemma card_at_move_bool:
  assumes "finite (at_pc P pc)"
  shows "int (card (at_pc P (pc(i := p)))) = int (card (at_pc P pc)) + of_bool (P p) - of_bool (P (pc i))"
  using card_at_move [OF assms, of i p] by simp

lemma card_at_one: "card (at_pc P pc) = 1 \<Longrightarrow> P (pc i) \<Longrightarrow> P (pc j) \<Longrightarrow> i = j"
  by (metis card_1_singletonE mem_at_pc singletonD)

lemma at_pc_stay: "P p = P (pc i) \<Longrightarrow> at_pc P (pc(i := p)) = at_pc P pc"
  by (auto simp: at_pc_def)

end
