(* ===== verification/Queue_Admission.thy ===== *)
theory Queue_Admission
  imports Ring Job Go_Threads
begin

text \<open>
  Admission and release of a queue (src/queue.go): \<^verbatim>\<open>queue\<close>, \<^verbatim>\<open>beginAdmission\<close>,
  \<^verbatim>\<open>endAdmission\<close>, \<^verbatim>\<open>CloseAdmission\<close>, \<^verbatim>\<open>drainContext\<close>, \<^verbatim>\<open>ReleaseContext\<close>, \<^verbatim>\<open>Shutdown\<close> and
  \<^verbatim>\<open>Release\<close>, by any number of goroutines. A step is one critical section of \<^verbatim>\<open>admissionMu\<close>,
  one channel operation, one decision of a \<^verbatim>\<open>sync.Once\<close> or one call of the worker. What the worker
  returns, whether a context ends and when the scheduler's routines are done is arbitrary.
\<close>

section \<open>The state under the admission mutex\<close>

definition ErrWorkerShutdownPanic :: go_err where
  "ErrWorkerShutdownPanic = sentinel ''queue.ErrWorkerShutdownPanic''"

text \<open>A channel that only ever is closed: None is the nil channel, otherwise whether it is closed.\<close>

record admission =
  qs_stopFlag :: bool
  qs_drainFlag :: bool
  qs_admissions :: int
  qs_admissionsDone :: "bool option"
  qs_drain :: bool
  qs_quit :: bool
  qs_notify :: bool
  qs_started :: bool
  qs_submitted :: "64 word"
  qs_shutdownErr :: error

definition new_admission :: admission where
  "new_admission = \<lparr>qs_stopFlag = False, qs_drainFlag = False, qs_admissions = 0, qs_admissionsDone = None,
     qs_drain = False, qs_quit = False, qs_notify = False, qs_started = False, qs_submitted = 0,
     qs_shutdownErr = None\<rparr>"

definition beginAdmission :: "admission \<Rightarrow> bool \<times> admission" where
  "beginAdmission q =
     (if qs_stopFlag q \<or> qs_drainFlag q then (False, q)
      else (True, q\<lparr>qs_admissions := qs_admissions q + 1\<rparr>))"

text \<open>Closing a closed channel panics: None.\<close>

definition endAdmission :: "admission \<Rightarrow> admission option" where
  "endAdmission q =
     (let q = q\<lparr>qs_admissions := qs_admissions q - 1\<rparr>
      in case qs_admissionsDone q of
           None \<Rightarrow> Some q
         | Some isClosed \<Rightarrow>
             if qs_admissions q = 0
             then (if isClosed then None else Some (q\<lparr>qs_admissionsDone := Some True\<rparr>))
             else Some q)"

definition closeAdmission_locked :: "admission \<Rightarrow> admission" where
  "closeAdmission_locked q =
     q\<lparr>qs_drainFlag := True, qs_admissionsDone := Some (qs_admissions q = 0)\<rparr>"

text \<open>
  The rest of CloseAdmission: a ring stops its intake and an idle request is woken, for any other
  worker the drain channel is closed.
\<close>

definition closeAdmission_tail :: "bool \<Rightarrow> admission \<Rightarrow> admission option" where
  "closeAdmission_tail ring q =
     (if ring then Some (q\<lparr>qs_notify := True\<rparr>)
      else if qs_drain q then None else Some (q\<lparr>qs_drain := True\<rparr>))"

definition accepted :: "admission \<Rightarrow> admission" where
  "accepted q = q\<lparr>qs_submitted := qs_submitted q + 1, qs_notify := True\<rparr>"

definition closeQuit :: "admission \<Rightarrow> admission option" where
  "closeQuit q = (if qs_quit q then None else Some (q\<lparr>qs_quit := True\<rparr>))"

definition startQueue :: "int \<Rightarrow> admission \<Rightarrow> admission" where
  "startQueue workerCount q = (if qs_stopFlag q \<or> workerCount = 0 then q else q\<lparr>qs_started := True\<rparr>)"

text \<open>\<^verbatim>\<open>shutdownWorker\<close>: what its caller gets of the worker's answer.\<close>

definition shutdownWorker :: "error outcome \<Rightarrow> error" where
  "shutdownWorker answer = (case answer of Returns err \<Rightarrow> err | Panics p \<Rightarrow> Some ErrWorkerShutdownPanic)"

section \<open>Goroutines\<close>

datatype once = OnceNew | OnceRunning | OnceDone

text \<open>Who calls Shutdown, and whether CloseAdmission is called on its own or by ReleaseContext.\<close>

datatype shutdown_caller = ByShutdown | ByRelease | ByReleaseContext

datatype 'w qa_pc =
    QaIdle
  | QaAdmitted "'w Message"
  | QaPublishing "'w Message"
  | QaEnding "error outcome"
  | QaReturned "error outcome"
  | CloseOnce bool
  | CloseBody bool
  | CloseTail bool
  | CloseDone
  | WaitAdmissions
  | WaitExit
  | WaitRoutines
  | StopOnce shutdown_caller
  | StopBody shutdown_caller
  | StopDecide shutdown_caller
  | StopCalling shutdown_caller
  | StopQuit shutdown_caller
  | JoinRoutines shutdown_caller
  | ShutdownReturned shutdown_caller error

record 'w qa_sys =
  qa_q :: admission
  qa_pc :: "nat \<Rightarrow> 'w qa_pc"
  qa_drainOnce :: once
  qa_stopOnce :: once
  qa_exit :: bool
  qa_shutdowns :: nat
  qa_panicked :: bool

abbreviation qa_goto :: "nat \<Rightarrow> 'w qa_pc \<Rightarrow> 'w qa_sys \<Rightarrow> 'w qa_sys" where
  "qa_goto i p g \<equiv> g\<lparr>qa_pc := (qa_pc g)(i := p)\<rparr>"

text \<open>A call that may panic: the new state, or the system marked as panicked.\<close>

definition qa_try :: "admission option \<Rightarrow> 'w qa_sys \<Rightarrow> 'w qa_sys" where
  "qa_try r g = (case r of None \<Rightarrow> g\<lparr>qa_panicked := True\<rparr> | Some q \<Rightarrow> g\<lparr>qa_q := q\<rparr>)"

inductive qa_step :: "bool \<Rightarrow> int \<Rightarrow> 'w qa_sys \<Rightarrow> 'w qa_sys \<Rightarrow> bool"
  for ring :: bool and workerCount :: int where
  queue_refused: "qa_pc g i = QaIdle \<Longrightarrow> beginAdmission (qa_q g) = (False, q) \<Longrightarrow>
    qa_step ring workerCount g (qa_goto i (QaReturned (Returns (Some ErrQueueShutdown))) (g\<lparr>qa_q := q\<rparr>))"
| queue_admitted: "qa_pc g i = QaIdle \<Longrightarrow> beginAdmission (qa_q g) = (True, q) \<Longrightarrow>
    qa_step ring workerCount g (qa_goto i (QaAdmitted m) (g\<lparr>qa_q := q\<rparr>))"
| queue_invalid: "qa_pc g i = QaAdmitted m \<Longrightarrow> Message_Validate m = Some e \<Longrightarrow>
    qa_step ring workerCount g (qa_goto i (QaEnding (Returns (Some e))) g)"
| queue_publish: "qa_pc g i = QaAdmitted m \<Longrightarrow> Message_Validate m = None \<Longrightarrow>
    qa_step ring workerCount g (qa_goto i (QaPublishing m) g)"
| queue_failed: "qa_pc g i = QaPublishing m \<Longrightarrow> result \<noteq> Returns None \<Longrightarrow>
    qa_step ring workerCount g (qa_goto i (QaEnding result) g)"
| queue_accepted: "qa_pc g i = QaPublishing m \<Longrightarrow>
    qa_step ring workerCount g (qa_goto i (QaEnding (Returns None)) (g\<lparr>qa_q := accepted (qa_q g)\<rparr>))"
| queue_end: "qa_pc g i = QaEnding result \<Longrightarrow>
    qa_step ring workerCount g (qa_goto i (QaReturned result) (qa_try (endAdmission (qa_q g)) g))"
| queue_again: "qa_pc g i = QaReturned result \<Longrightarrow> qa_step ring workerCount g (qa_goto i QaIdle g)"
| close_call: "qa_pc g i = QaIdle \<Longrightarrow> qa_step ring workerCount g (qa_goto i (CloseOnce False) g)"
| release_context_nil: "qa_pc g i = QaIdle \<Longrightarrow>
    qa_step ring workerCount g (qa_goto i (ShutdownReturned ByReleaseContext (Some Canceled)) g)"
| release_context_start: "qa_pc g i = QaIdle \<Longrightarrow> ring \<Longrightarrow> \<not> qs_started (qa_q g) \<Longrightarrow>
    qa_step ring workerCount g (qa_goto i (CloseOnce True) (g\<lparr>qa_q := startQueue workerCount (qa_q g)\<rparr>))"
| release_context_call: "qa_pc g i = QaIdle \<Longrightarrow> \<not> ring \<or> qs_started (qa_q g) \<Longrightarrow>
    qa_step ring workerCount g (qa_goto i (CloseOnce True) g)"
| close_first: "qa_pc g i = CloseOnce rel \<Longrightarrow> qa_drainOnce g = OnceNew \<Longrightarrow>
    qa_step ring workerCount g (qa_goto i (CloseBody rel) (g\<lparr>qa_drainOnce := OnceRunning\<rparr>))"
| close_later: "qa_pc g i = CloseOnce rel \<Longrightarrow> qa_drainOnce g = OnceDone \<Longrightarrow>
    qa_step ring workerCount g (qa_goto i (if rel then WaitAdmissions else CloseDone) g)"
| close_body: "qa_pc g i = CloseBody rel \<Longrightarrow>
    qa_step ring workerCount g (qa_goto i (CloseTail rel) (g\<lparr>qa_q := closeAdmission_locked (qa_q g)\<rparr>))"
| close_tail: "qa_pc g i = CloseTail rel \<Longrightarrow>
    qa_step ring workerCount g (qa_goto i (if rel then WaitAdmissions else CloseDone)
      (qa_try (closeAdmission_tail ring (qa_q g)) (g\<lparr>qa_drainOnce := OnceDone\<rparr>)))"
| close_again: "qa_pc g i = CloseDone \<Longrightarrow> qa_step ring workerCount g (qa_goto i QaIdle g)"
| ring_exit: "ring \<Longrightarrow> qs_drainFlag (qa_q g) \<or> qs_stopFlag (qa_q g) \<Longrightarrow>
    qa_step ring workerCount g (g\<lparr>qa_exit := True\<rparr>)"
| admissions_done: "qa_pc g i = WaitAdmissions \<Longrightarrow> qs_admissionsDone (qa_q g) = Some True \<Longrightarrow>
    qa_step ring workerCount g (qa_goto i (if ring then WaitExit else WaitRoutines) g)"
| exit_done: "qa_pc g i = WaitExit \<Longrightarrow> qa_exit g \<Longrightarrow> qa_step ring workerCount g (qa_goto i WaitRoutines g)"
| routines_done: "qa_pc g i = WaitRoutines \<Longrightarrow> qa_step ring workerCount g (qa_goto i (StopOnce ByReleaseContext) g)"
| release_expired: "qa_pc g i \<in> {WaitAdmissions, WaitExit, WaitRoutines} \<Longrightarrow> e \<in> {Canceled, DeadlineExceeded} \<Longrightarrow>
    qa_step ring workerCount g (qa_goto i (ShutdownReturned ByReleaseContext (Some e)) g)"
| shutdown_call: "qa_pc g i = QaIdle \<Longrightarrow> qa_step ring workerCount g (qa_goto i (StopOnce ByShutdown) g)"
| release_call: "qa_pc g i = QaIdle \<Longrightarrow>
    qa_step ring workerCount g (qa_goto i (StopOnce ByRelease)
      (g\<lparr>qa_q := (if ring \<and> \<not> qs_started (qa_q g) then startQueue workerCount (qa_q g) else qa_q g)\<rparr>))"
| stop_first: "qa_pc g i = StopOnce k \<Longrightarrow> qa_stopOnce g = OnceNew \<Longrightarrow>
    qa_step ring workerCount g (qa_goto i (StopBody k) (g\<lparr>qa_stopOnce := OnceRunning\<rparr>))"
| stop_later: "qa_pc g i = StopOnce k \<Longrightarrow> qa_stopOnce g = OnceDone \<Longrightarrow>
    qa_step ring workerCount g (qa_goto i (JoinRoutines k) g)"
| stop_body: "qa_pc g i = StopBody k \<Longrightarrow>
    qa_step ring workerCount g (qa_goto i (StopDecide k) (g\<lparr>qa_q := (qa_q g)\<lparr>qs_stopFlag := True\<rparr>\<rparr>))"
| stop_skip: "qa_pc g i = StopDecide k \<Longrightarrow> ring \<Longrightarrow> qs_drainFlag (qa_q g) \<Longrightarrow>
    qa_step ring workerCount g (qa_goto i (StopQuit k) g)"
| stop_worker: "qa_pc g i = StopDecide k \<Longrightarrow> \<not> (ring \<and> qs_drainFlag (qa_q g)) \<Longrightarrow>
    qa_step ring workerCount g (qa_goto i (StopCalling k) (g\<lparr>qa_shutdowns := qa_shutdowns g + 1\<rparr>))"
| stop_answer: "qa_pc g i = StopCalling k \<Longrightarrow>
    qa_step ring workerCount g (qa_goto i (StopQuit k)
      (g\<lparr>qa_q := (qa_q g)\<lparr>qs_shutdownErr := shutdownWorker answer\<rparr>\<rparr>))"
| stop_quit: "qa_pc g i = StopQuit k \<Longrightarrow>
    qa_step ring workerCount g (qa_goto i (JoinRoutines k) (qa_try (closeQuit (qa_q g)) (g\<lparr>qa_stopOnce := OnceDone\<rparr>)))"
| join_context: "qa_pc g i = JoinRoutines ByReleaseContext \<Longrightarrow> err \<in> {None, Some Canceled, Some DeadlineExceeded} \<Longrightarrow>
    qa_step ring workerCount g (qa_goto i (ShutdownReturned ByReleaseContext (errors_Join [qs_shutdownErr (qa_q g), err])) g)"
| join_plain: "qa_pc g i = JoinRoutines k \<Longrightarrow> k \<noteq> ByReleaseContext \<Longrightarrow>
    qa_step ring workerCount g (qa_goto i (ShutdownReturned k None) g)"
| shutdown_again: "qa_pc g i = ShutdownReturned k err \<Longrightarrow> qa_step ring workerCount g (qa_goto i QaIdle g)"

inductive_cases qa_stepE: "qa_step ring workerCount g h"

definition qa_start :: "'w qa_sys \<Rightarrow> bool" where
  "qa_start g \<longleftrightarrow> g = \<lparr>qa_q = new_admission, qa_pc = (\<lambda>i. QaIdle), qa_drainOnce = OnceNew,
     qa_stopOnce = OnceNew, qa_exit = False, qa_shutdowns = 0, qa_panicked = False\<rparr>"

section \<open>The invariant\<close>

fun in_flight :: "'w qa_pc \<Rightarrow> bool" where
  "in_flight (QaAdmitted m) = True"
| "in_flight (QaPublishing m) = True"
| "in_flight (QaEnding result) = True"
| "in_flight p = False"

fun closing :: "'w qa_pc \<Rightarrow> bool" where
  "closing (CloseBody rel) = True"
| "closing (CloseTail rel) = True"
| "closing p = False"

fun stopping :: "'w qa_pc \<Rightarrow> bool" where
  "stopping (StopBody k) = True"
| "stopping (StopDecide k) = True"
| "stopping (StopCalling k) = True"
| "stopping (StopQuit k) = True"
| "stopping p = False"

abbreviation drained :: "admission \<Rightarrow> bool" where
  "drained q \<equiv> qs_admissionsDone q = Some True"

definition by_context :: "shutdown_caller \<Rightarrow> admission \<Rightarrow> bool" where
  "by_context k q \<longleftrightarrow> k = ByReleaseContext \<longrightarrow> drained q"

text \<open>What a goroutine at a program point knows of the shared state.\<close>

fun pc_ok :: "admission \<Rightarrow> once \<Rightarrow> nat \<Rightarrow> 'w qa_pc \<Rightarrow> bool" where
  "pc_ok q st n (CloseBody rel) \<longleftrightarrow> \<not> qs_drainFlag q \<and> \<not> qs_drain q"
| "pc_ok q st n (CloseTail rel) \<longleftrightarrow> qs_drainFlag q \<and> \<not> qs_drain q"
| "pc_ok q st n WaitAdmissions \<longleftrightarrow> qs_drainFlag q"
| "pc_ok q st n WaitExit \<longleftrightarrow> drained q"
| "pc_ok q st n WaitRoutines \<longleftrightarrow> drained q"
| "pc_ok q st n (StopOnce k) \<longleftrightarrow> by_context k q"
| "pc_ok q st n (StopBody k) \<longleftrightarrow> by_context k q \<and> \<not> qs_quit q \<and> n = 0"
| "pc_ok q st n (StopDecide k) \<longleftrightarrow> by_context k q \<and> \<not> qs_quit q \<and> n = 0 \<and> qs_stopFlag q"
| "pc_ok q st n (StopCalling k) \<longleftrightarrow> by_context k q \<and> \<not> qs_quit q \<and> n = 1 \<and> qs_stopFlag q"
| "pc_ok q st n (StopQuit k) \<longleftrightarrow> by_context k q \<and> \<not> qs_quit q \<and> n \<le> 1 \<and> qs_stopFlag q"
| "pc_ok q st n (JoinRoutines k) \<longleftrightarrow> by_context k q \<and> qs_quit q \<and> st = OnceDone"
| "pc_ok q st n (ShutdownReturned k err) \<longleftrightarrow>
     (k = ByReleaseContext \<and> err = None \<longrightarrow> drained q \<and> qs_quit q \<and> st = OnceDone \<and> qs_shutdownErr q = None)"
| "pc_ok q st n p \<longleftrightarrow> True"

definition shared_ok :: "admission \<Rightarrow> once \<Rightarrow> once \<Rightarrow> nat \<Rightarrow> bool" where
  "shared_ok q dr st n \<longleftrightarrow>
     (qs_admissionsDone q = None \<longleftrightarrow> \<not> qs_drainFlag q) \<and>
     (\<forall>isClosed. qs_admissionsDone q = Some isClosed \<longrightarrow> (isClosed \<longleftrightarrow> qs_admissions q = 0)) \<and>
     (dr = OnceNew \<longrightarrow> \<not> qs_drainFlag q \<and> \<not> qs_drain q) \<and> (dr = OnceDone \<longrightarrow> qs_drainFlag q) \<and>
     (st = OnceNew \<longrightarrow> \<not> qs_stopFlag q \<and> \<not> qs_quit q \<and> n = 0) \<and>
     (st = OnceDone \<longrightarrow> qs_stopFlag q \<and> qs_quit q) \<and> n \<le> 1"

definition counts_ok :: "int \<Rightarrow> ('w qa_pc \<Rightarrow> bool) \<Rightarrow> (nat \<Rightarrow> 'w qa_pc) \<Rightarrow> bool" where
  "counts_ok n P pc \<longleftrightarrow> finite (at_pc P pc) \<and> int (card (at_pc P pc)) = n"

definition qa_inv :: "'w qa_sys \<Rightarrow> bool" where
  "qa_inv g \<longleftrightarrow> shared_ok (qa_q g) (qa_drainOnce g) (qa_stopOnce g) (qa_shutdowns g) \<and> \<not> qa_panicked g \<and>
     (\<forall>i. pc_ok (qa_q g) (qa_stopOnce g) (qa_shutdowns g) (qa_pc g i)) \<and>
     counts_ok (qs_admissions (qa_q g)) in_flight (qa_pc g) \<and>
     counts_ok (of_bool (qa_drainOnce g = OnceRunning)) closing (qa_pc g) \<and>
     counts_ok (of_bool (qa_stopOnce g = OnceRunning)) stopping (qa_pc g)"

lemma counts_ok_move:
  "counts_ok n P pc \<Longrightarrow> n' = n + of_bool (P p) - of_bool (P (pc i)) \<Longrightarrow> counts_ok n' P (pc(i := p))"
  by (simp add: counts_ok_def card_at_move_bool)

lemma counts_ok_one: "counts_ok 1 P pc \<Longrightarrow> P (pc i) \<Longrightarrow> P (pc j) \<Longrightarrow> i = j"
  using card_at_one [of P pc i j] by (simp add: counts_ok_def)

lemma counts_ok_none: "counts_ok 0 P pc \<Longrightarrow> \<not> P (pc i)"
  using card_at_zero [of P pc] by (simp add: counts_ok_def)

lemma counts_ok_bool: "counts_ok (of_bool b) P pc \<Longrightarrow> P (pc i) \<Longrightarrow> b"
  using counts_ok_none [of P pc i] by (cases b) auto

lemma qa_invI:
  assumes "qa_inv g" and "\<not> qa_panicked h" and "qa_pc h = (qa_pc g)(i := p)"
    and "shared_ok (qa_q h) (qa_drainOnce h) (qa_stopOnce h) (qa_shutdowns h)"
    and "pc_ok (qa_q h) (qa_stopOnce h) (qa_shutdowns h) p"
    and "\<And>j. j \<noteq> i \<Longrightarrow> pc_ok (qa_q g) (qa_stopOnce g) (qa_shutdowns g) (qa_pc g j) \<Longrightarrow>
      pc_ok (qa_q h) (qa_stopOnce h) (qa_shutdowns h) (qa_pc g j)"
    and "qs_admissions (qa_q h) = qs_admissions (qa_q g) + of_bool (in_flight p) - of_bool (in_flight (qa_pc g i))"
    and "of_bool (qa_drainOnce h = OnceRunning) =
      of_bool (qa_drainOnce g = OnceRunning) + of_bool (closing p) - (of_bool (closing (qa_pc g i)) :: int)"
    and "of_bool (qa_stopOnce h = OnceRunning) =
      of_bool (qa_stopOnce g = OnceRunning) + of_bool (stopping p) - (of_bool (stopping (qa_pc g i)) :: int)"
  shows "qa_inv h"
  using assms(1) unfolding qa_inv_def
  by (auto simp only: assms(2-5,7) fun_upd_apply intro: assms(6) counts_ok_move assms(7-9) split: if_splits)

lemma qa_invD:
  assumes "qa_inv g"
  shows "shared_ok (qa_q g) (qa_drainOnce g) (qa_stopOnce g) (qa_shutdowns g)" and "\<not> qa_panicked g"
    and "pc_ok (qa_q g) (qa_stopOnce g) (qa_shutdowns g) (qa_pc g i)"
    and "counts_ok (qs_admissions (qa_q g)) in_flight (qa_pc g)"
    and "closing (qa_pc g i) \<Longrightarrow> qa_drainOnce g = OnceRunning"
    and "closing (qa_pc g i) \<Longrightarrow> closing (qa_pc g j) \<Longrightarrow> i = j"
    and "stopping (qa_pc g i) \<Longrightarrow> qa_stopOnce g = OnceRunning"
    and "stopping (qa_pc g i) \<Longrightarrow> stopping (qa_pc g j) \<Longrightarrow> i = j"
proof -
  have close: "counts_ok (of_bool (qa_drainOnce g = OnceRunning)) closing (qa_pc g)"
    and stop: "counts_ok (of_bool (qa_stopOnce g = OnceRunning)) stopping (qa_pc g)"
    using assms by (simp_all add: qa_inv_def)
  show c: "qa_drainOnce g = OnceRunning" if "closing (qa_pc g i)" for i
    using counts_ok_bool [OF close that] .
  show s: "qa_stopOnce g = OnceRunning" if "stopping (qa_pc g i)" for i
    using counts_ok_bool [OF stop that] .
  show "i = j" if "closing (qa_pc g i)" "closing (qa_pc g j)"
    using counts_ok_one [of closing "qa_pc g" i j] close that c [OF that(1)] by simp
  show "i = j" if "stopping (qa_pc g i)" "stopping (qa_pc g j)"
    using counts_ok_one [of stopping "qa_pc g" i j] stop that s [OF that(1)] by simp
qed (use assms in \<open>simp_all add: qa_inv_def\<close>)

lemma pc_ok_cong:
  "pc_ok q st n p \<Longrightarrow> qs_drainFlag q' = qs_drainFlag q \<Longrightarrow> qs_drain q' = qs_drain q \<Longrightarrow>
    qs_admissionsDone q' = qs_admissionsDone q \<Longrightarrow> qs_quit q' = qs_quit q \<Longrightarrow> qs_stopFlag q' = qs_stopFlag q \<Longrightarrow>
    qs_shutdownErr q' = qs_shutdownErr q \<Longrightarrow> pc_ok q' st n p"
  by (cases p) (auto simp: by_context_def)

lemma shared_ok_cong:
  "shared_ok q dr st n \<Longrightarrow> qs_drainFlag q' = qs_drainFlag q \<Longrightarrow> qs_drain q' = qs_drain q \<Longrightarrow>
    qs_admissionsDone q' = qs_admissionsDone q \<Longrightarrow> qs_quit q' = qs_quit q \<Longrightarrow> qs_stopFlag q' = qs_stopFlag q \<Longrightarrow>
    qs_admissions q' = qs_admissions q \<or> \<not> qs_drainFlag q \<Longrightarrow> shared_ok q' dr st n"
  unfolding shared_ok_def by (elim disjE) simp_all

text \<open>The state after a goroutine moved and the shared part changed.\<close>

definition qa_after :: "'w qa_sys \<Rightarrow> nat \<Rightarrow> 'w qa_pc \<Rightarrow> admission \<Rightarrow> once \<Rightarrow> once \<Rightarrow> nat \<Rightarrow> 'w qa_sys" where
  "qa_after g i p q dr st n = g\<lparr>qa_q := q, qa_pc := (qa_pc g)(i := p), qa_drainOnce := dr, qa_stopOnce := st,
     qa_shutdowns := n\<rparr>"

lemma qa_after_inv:
  assumes "qa_inv g" and "shared_ok q dr st n" and "pc_ok q st n p"
    and "\<And>j. j \<noteq> i \<Longrightarrow> pc_ok (qa_q g) (qa_stopOnce g) (qa_shutdowns g) (qa_pc g j) \<Longrightarrow> pc_ok q st n (qa_pc g j)"
    and "qs_admissions q = qs_admissions (qa_q g) + of_bool (in_flight p) - of_bool (in_flight (qa_pc g i))"
    and "of_bool (dr = OnceRunning) =
      of_bool (qa_drainOnce g = OnceRunning) + of_bool (closing p) - (of_bool (closing (qa_pc g i)) :: int)"
    and "of_bool (st = OnceRunning) =
      of_bool (qa_stopOnce g = OnceRunning) + of_bool (stopping p) - (of_bool (stopping (qa_pc g i)) :: int)"
  shows "qa_inv (qa_after g i p q dr st n)"
  by (rule qa_invI [OF assms(1), where i = i and p = p])
    (simp_all add: qa_after_def assms qa_invD(2) [OF assms(1)])

lemma qa_inv_same:
  "qa_inv h \<Longrightarrow> qa_q h' = qa_q h \<Longrightarrow> qa_pc h' = qa_pc h \<Longrightarrow> qa_drainOnce h' = qa_drainOnce h \<Longrightarrow>
    qa_stopOnce h' = qa_stopOnce h \<Longrightarrow> qa_shutdowns h' = qa_shutdowns h \<Longrightarrow> qa_panicked h' = qa_panicked h \<Longrightarrow> qa_inv h'"
  by (simp add: qa_inv_def)

text \<open>A goroutine that moves without changing what the invariant reads.\<close>

lemma qa_quiet:
  assumes "qa_inv g" and "pc_ok (qa_q g) (qa_stopOnce g) (qa_shutdowns g) p"
    and "in_flight p = in_flight (qa_pc g i)" "closing p = closing (qa_pc g i)" "stopping p = stopping (qa_pc g i)"
    and "qs_drainFlag q' = qs_drainFlag (qa_q g)" "qs_drain q' = qs_drain (qa_q g)"
    "qs_admissionsDone q' = qs_admissionsDone (qa_q g)" "qs_quit q' = qs_quit (qa_q g)"
    "qs_stopFlag q' = qs_stopFlag (qa_q g)" "qs_shutdownErr q' = qs_shutdownErr (qa_q g)"
    "qs_admissions q' = qs_admissions (qa_q g)"
  shows "qa_inv (qa_goto i p (g\<lparr>qa_q := q'\<rparr>))"
proof -
  have ok: "pc_ok q' (qa_stopOnce g) (qa_shutdowns g) p'" if "pc_ok (qa_q g) (qa_stopOnce g) (qa_shutdowns g) p'" for p'
    using that assms(6-11) by (rule pc_ok_cong)
  have "qa_inv (qa_after g i p q' (qa_drainOnce g) (qa_stopOnce g) (qa_shutdowns g))"
    using shared_ok_cong [OF qa_invD(1) [OF assms(1)], of q'] ok assms(2-12)
    by (intro qa_after_inv [OF assms(1)]) simp_all
  then show ?thesis by (rule qa_inv_same) (simp_all add: qa_after_def)
qed

lemma qa_move:
  "qa_inv g \<Longrightarrow> pc_ok (qa_q g) (qa_stopOnce g) (qa_shutdowns g) p \<Longrightarrow>
    in_flight p = in_flight (qa_pc g i) \<Longrightarrow> closing p = closing (qa_pc g i) \<Longrightarrow>
    stopping p = stopping (qa_pc g i) \<Longrightarrow> qa_inv (qa_goto i p g)"
  using qa_quiet [of g p i "qa_q g"] by simp

section \<open>Every step keeps the invariant\<close>

lemmas admission_defs = beginAdmission_def endAdmission_def closeAdmission_locked_def closeAdmission_tail_def
  accepted_def closeQuit_def startQueue_def

lemma qa_admit_inv:
  assumes "qa_inv g" and "qa_pc g i = QaIdle" and "beginAdmission (qa_q g) = (True, q)"
  shows "qa_inv (qa_goto i (QaAdmitted m) (g\<lparr>qa_q := q\<rparr>))"
proof -
  have q: "q = (qa_q g)\<lparr>qs_admissions := qs_admissions (qa_q g) + 1\<rparr>" "\<not> qs_drainFlag (qa_q g)"
    using assms(3) by (auto simp: beginAdmission_def split: if_splits)
  have "qa_inv (qa_after g i (QaAdmitted m) q (qa_drainOnce g) (qa_stopOnce g) (qa_shutdowns g))"
    using shared_ok_cong [OF qa_invD(1) [OF assms(1)], of q] q
    by (intro qa_after_inv [OF assms(1)]) (simp_all add: assms(2) pc_ok_cong)
  then show ?thesis by (rule qa_inv_same) (simp_all add: qa_after_def)
qed

lemma endAdmission_some:
  assumes "qs_admissions q \<noteq> 0" and "\<forall>c. qs_admissionsDone q = Some c \<longrightarrow> (c \<longleftrightarrow> qs_admissions q = 0)"
  shows "endAdmission q = Some (q\<lparr>qs_admissions := qs_admissions q - 1,
    qs_admissionsDone := map_option (\<lambda>c. qs_admissions q = 1) (qs_admissionsDone q)\<rparr>)"
  using assms by (cases q) (auto simp: endAdmission_def Let_def split: option.split)

lemma qa_end_inv:
  assumes "qa_inv g" and "qa_pc g i = QaEnding result"
  shows "qa_inv (qa_goto i (QaReturned result) (qa_try (endAdmission (qa_q g)) g))"
proof -
  have "qs_admissions (qa_q g) \<noteq> 0"
    using counts_ok_none [of in_flight "qa_pc g" i] qa_invD(4) [OF assms(1)] assms(2) by auto
  moreover note sh = qa_invD(1) [OF assms(1)]
  ultimately have open': "\<not> drained (qa_q g)" by (auto simp: shared_ok_def)
  define q where "q = (qa_q g)\<lparr>qs_admissions := qs_admissions (qa_q g) - 1,
    qs_admissionsDone := map_option (\<lambda>c. qs_admissions (qa_q g) = 1) (qs_admissionsDone (qa_q g))\<rparr>"
  have some: "endAdmission (qa_q g) = Some q"
    unfolding q_def using \<open>qs_admissions (qa_q g) \<noteq> 0\<close> sh by (intro endAdmission_some) (auto simp: shared_ok_def)
  have "shared_ok q (qa_drainOnce g) (qa_stopOnce g) (qa_shutdowns g)"
    using sh by (simp add: shared_ok_def q_def)
  moreover have "pc_ok q st n p" if "pc_ok (qa_q g) st n p" for st n and p :: "'a qa_pc"
    using that open' by (cases p) (auto simp: by_context_def q_def)
  ultimately have "qa_inv (qa_after g i (QaReturned result) q (qa_drainOnce g) (qa_stopOnce g) (qa_shutdowns g))"
    using assms(2) by (intro qa_after_inv [OF assms(1)]) (simp_all add: q_def)
  then show ?thesis by (rule qa_inv_same) (simp_all add: qa_after_def qa_try_def some)
qed

lemma qa_close_first_inv:
  assumes "qa_inv g" and "qa_pc g i = CloseOnce rel" and "qa_drainOnce g = OnceNew"
  shows "qa_inv (qa_goto i (CloseBody rel) (g\<lparr>qa_drainOnce := OnceRunning\<rparr>))"
proof -
  have "qa_inv (qa_after g i (CloseBody rel) (qa_q g) OnceRunning (qa_stopOnce g) (qa_shutdowns g))"
    using qa_invD(1) [OF assms(1)] assms(2,3)
    by (intro qa_after_inv [OF assms(1)]) (simp_all add: shared_ok_def)
  then show ?thesis by (rule qa_inv_same) (simp_all add: qa_after_def)
qed

lemma qa_close_body_inv:
  assumes "qa_inv g" and "qa_pc g i = CloseBody rel"
  shows "qa_inv (qa_goto i (CloseTail rel) (g\<lparr>qa_q := closeAdmission_locked (qa_q g)\<rparr>))"
proof -
  let ?q = "closeAdmission_locked (qa_q g)"
  note sh = qa_invD(1) [OF assms(1)]
  have own: "\<not> qs_drainFlag (qa_q g)" "\<not> qs_drain (qa_q g)"
    using qa_invD(3) [OF assms(1), of i] assms(2) by simp_all
  then have none: "qs_admissionsDone (qa_q g) = None" using sh by (simp add: shared_ok_def)
  have running: "qa_drainOnce g = OnceRunning" using qa_invD(5) [OF assms(1), of i] assms(2) by simp
  have other: "\<not> closing (qa_pc g j)" if "j \<noteq> i" for j
    using qa_invD(6) [OF assms(1), of i j] assms(2) that by auto
  have "pc_ok ?q st n p" if "pc_ok (qa_q g) st n p" "\<not> closing p" for st n and p :: "'a qa_pc"
    using that own none by (cases p) (auto simp: by_context_def closeAdmission_locked_def)
  then have "qa_inv (qa_after g i (CloseTail rel) ?q (qa_drainOnce g) (qa_stopOnce g) (qa_shutdowns g))"
    using sh own none running assms(2) other
    by (intro qa_after_inv [OF assms(1)]) (simp_all add: closeAdmission_locked_def shared_ok_def)
  then show ?thesis by (rule qa_inv_same) (simp_all add: qa_after_def)
qed

lemma qa_close_tail_inv:
  assumes "qa_inv g" and "qa_pc g i = CloseTail rel"
  shows "qa_inv (qa_goto i (if rel then WaitAdmissions else CloseDone)
    (qa_try (closeAdmission_tail ring (qa_q g)) (g\<lparr>qa_drainOnce := OnceDone\<rparr>)))"
proof -
  note sh = qa_invD(1) [OF assms(1)]
  have own: "qs_drainFlag (qa_q g)" "\<not> qs_drain (qa_q g)"
    using qa_invD(3) [OF assms(1), of i] assms(2) by simp_all
  define q where "q = (if ring then (qa_q g)\<lparr>qs_notify := True\<rparr> else (qa_q g)\<lparr>qs_drain := True\<rparr>)"
  have some: "closeAdmission_tail ring (qa_q g) = Some q"
    using own by (simp add: closeAdmission_tail_def q_def)
  have running: "qa_drainOnce g = OnceRunning" using qa_invD(5) [OF assms(1), of i] assms(2) by simp
  have other: "\<not> closing (qa_pc g j)" if "j \<noteq> i" for j
    using qa_invD(6) [OF assms(1), of i j] assms(2) that by auto
  let ?p = "if rel then WaitAdmissions else CloseDone :: 'a qa_pc"
  have "pc_ok q st n p" if "pc_ok (qa_q g) st n p" "\<not> closing p" for st n and p :: "'a qa_pc"
    using that by (cases p) (auto simp: by_context_def q_def)
  moreover have "shared_ok q OnceDone (qa_stopOnce g) (qa_shutdowns g)"
    using sh own by (simp add: shared_ok_def q_def)
  ultimately have "qa_inv (qa_after g i ?p q OnceDone (qa_stopOnce g) (qa_shutdowns g))"
    using own running assms(2) other by (intro qa_after_inv [OF assms(1)]) (simp_all add: q_def)
  then show ?thesis by (rule qa_inv_same) (simp_all add: qa_after_def qa_try_def some)
qed

lemma qa_stop_first_inv:
  assumes "qa_inv g" and "qa_pc g i = StopOnce k" and "qa_stopOnce g = OnceNew"
  shows "qa_inv (qa_goto i (StopBody k) (g\<lparr>qa_stopOnce := OnceRunning\<rparr>))"
proof -
  note sh = qa_invD(1) [OF assms(1)]
  have "pc_ok (qa_q g) OnceRunning n p" if "pc_ok (qa_q g) OnceNew n p" for n and p :: "'a qa_pc"
    using that by (cases p) auto
  then have "qa_inv (qa_after g i (StopBody k) (qa_q g) (qa_drainOnce g) OnceRunning (qa_shutdowns g))"
    using sh qa_invD(3) [OF assms(1), of i] assms(2,3)
    by (intro qa_after_inv [OF assms(1)]) (simp_all add: shared_ok_def)
  then show ?thesis by (rule qa_inv_same) (simp_all add: qa_after_def)
qed

lemma stopping_alone: "stopping p \<Longrightarrow> \<not> in_flight p \<and> \<not> closing p"
  by (cases p) simp_all

text \<open>The steps of the one goroutine inside \<^verbatim>\<open>stopOnce\<close>, up to the last.\<close>

lemma qa_stopping_inv:
  assumes "qa_inv g" and "stopping (qa_pc g i)" and "stopping p" and "pc_ok q OnceRunning n p" and "n \<le> 1"
    and "q = (qa_q g)\<lparr>qs_stopFlag := flag, qs_shutdownErr := err\<rparr>"
  shows "qa_inv (g\<lparr>qa_pc := (qa_pc g)(i := p), qa_q := q, qa_shutdowns := n\<rparr>)"
proof -
  note sh = qa_invD(1) [OF assms(1)]
  have running: "qa_stopOnce g = OnceRunning" using qa_invD(7) [OF assms(1,2)] .
  have other: "\<not> stopping (qa_pc g j)" if "j \<noteq> i" for j
    using qa_invD(8) [OF assms(1,2), of j] that by auto
  have "pc_ok q OnceRunning n p" if "pc_ok (qa_q g) OnceRunning n' p" "\<not> stopping p" for n' and p :: "'a qa_pc"
    using that by (cases p) (auto simp: by_context_def assms(6))
  moreover note stopping_alone [OF assms(3)] stopping_alone [OF assms(2)]
  moreover have "shared_ok q (qa_drainOnce g) OnceRunning n"
    using sh assms(5) by (simp add: shared_ok_def assms(6))
  ultimately have "qa_inv (qa_after g i p q (qa_drainOnce g) OnceRunning n)"
    using running assms(2,3,4) other by (intro qa_after_inv [OF assms(1)]) (simp_all add: assms(6))
  then show ?thesis by (rule qa_inv_same) (simp_all add: qa_after_def running)
qed

lemma qa_stop_quit_inv:
  assumes "qa_inv g" and "qa_pc g i = StopQuit k"
  shows "qa_inv (qa_goto i (JoinRoutines k) (qa_try (closeQuit (qa_q g)) (g\<lparr>qa_stopOnce := OnceDone\<rparr>)))"
proof -
  note sh = qa_invD(1) [OF assms(1)]
  have own: "by_context k (qa_q g)" "\<not> qs_quit (qa_q g)" "qs_stopFlag (qa_q g)"
    using qa_invD(3) [OF assms(1), of i] assms(2) by simp_all
  let ?q = "(qa_q g)\<lparr>qs_quit := True\<rparr>"
  have some: "closeQuit (qa_q g) = Some ?q" using own by (simp add: closeQuit_def)
  have running: "qa_stopOnce g = OnceRunning" using qa_invD(7) [OF assms(1), of i] assms(2) by simp
  have other: "\<not> stopping (qa_pc g j)" if "j \<noteq> i" for j
    using qa_invD(8) [OF assms(1), of i j] assms(2) that by auto
  have "pc_ok ?q OnceDone n p" if "pc_ok (qa_q g) OnceRunning n p" "\<not> stopping p" for n and p :: "'a qa_pc"
    using that by (cases p) (auto simp: by_context_def)
  then have "qa_inv (qa_after g i (JoinRoutines k) ?q (qa_drainOnce g) OnceDone (qa_shutdowns g))"
    using sh own running assms(2) other
    by (intro qa_after_inv [OF assms(1)]) (simp_all add: by_context_def shared_ok_def)
  then show ?thesis by (rule qa_inv_same) (simp_all add: qa_after_def qa_try_def some)
qed

lemma qa_step_inv:
  assumes inv: "qa_inv g" and "qa_step ring workerCount g h"
  shows "qa_inv h"
  using assms(2)
proof cases
  case (queue_refused i q)
  then have "q = qa_q g" by (simp add: beginAdmission_def split: if_splits)
  then show ?thesis using queue_refused inv by (simp add: qa_move)
next
  case (queue_admitted i q m)
  then show ?thesis using qa_admit_inv [OF inv] by simp
next
  case (queue_accepted i m)
  then show ?thesis using qa_quiet [OF inv, of "QaEnding (Returns None)" i] by (simp add: accepted_def)
next
  case (queue_end i result)
  then show ?thesis using qa_end_inv [OF inv] by simp
next
  case (release_context_start i)
  then show ?thesis using qa_quiet [OF inv, of "CloseOnce True" i] by (simp add: startQueue_def)
next
  case (close_first i rel)
  then show ?thesis using qa_close_first_inv [OF inv] by simp
next
  case (close_later i rel)
  then show ?thesis using inv qa_invD(1) [OF inv] by (simp add: qa_move shared_ok_def)
next
  case (close_body i rel)
  then show ?thesis using qa_close_body_inv [OF inv] by simp
next
  case (close_tail i rel)
  then show ?thesis using qa_close_tail_inv [OF inv] by simp
next
  case ring_exit
  then show ?thesis using qa_inv_same [OF inv] by simp
next
  case (release_call i)
  then show ?thesis
    using qa_quiet [OF inv, of "StopOnce ByRelease" i] by (simp add: startQueue_def by_context_def)
next
  case (stop_first i k)
  then show ?thesis using qa_stop_first_inv [OF inv] by simp
next
  case (stop_later i k)
  then show ?thesis using inv qa_invD(1) [OF inv] qa_invD(3) [OF inv, of i] by (simp add: qa_move shared_ok_def)
next
  case (stop_body i k)
  have "qa_inv (g\<lparr>qa_pc := (qa_pc g)(i := StopDecide k),
      qa_q := (qa_q g)\<lparr>qs_stopFlag := True, qs_shutdownErr := qs_shutdownErr (qa_q g)\<rparr>, qa_shutdowns := 0\<rparr>)"
    using qa_invD(3) [OF inv, of i] stop_body(2)
    by (intro qa_stopping_inv [OF inv, where flag = True and err = "qs_shutdownErr (qa_q g)"]) (simp_all add: by_context_def)
  then show ?thesis
    using qa_invD(3) [OF inv, of i] stop_body by (elim qa_inv_same) simp_all
next
  case (stop_worker i k)
  have "qa_inv (g\<lparr>qa_pc := (qa_pc g)(i := StopCalling k),
      qa_q := (qa_q g)\<lparr>qs_stopFlag := qs_stopFlag (qa_q g), qs_shutdownErr := qs_shutdownErr (qa_q g)\<rparr>,
      qa_shutdowns := 1\<rparr>)"
    using qa_invD(3) [OF inv, of i] stop_worker(2)
    by (intro qa_stopping_inv [OF inv, where flag = "qs_stopFlag (qa_q g)" and err = "qs_shutdownErr (qa_q g)"]) (simp_all add: by_context_def)
  then show ?thesis
    using qa_invD(3) [OF inv, of i] stop_worker by (elim qa_inv_same) simp_all
next
  case (stop_answer i k answer)
  have "qa_inv (g\<lparr>qa_pc := (qa_pc g)(i := StopQuit k),
      qa_q := (qa_q g)\<lparr>qs_stopFlag := qs_stopFlag (qa_q g), qs_shutdownErr := shutdownWorker answer\<rparr>,
      qa_shutdowns := 1\<rparr>)"
    using qa_invD(3) [OF inv, of i] stop_answer(2)
    by (intro qa_stopping_inv [OF inv, where flag = "qs_stopFlag (qa_q g)" and err = "shutdownWorker answer"]) (simp_all add: by_context_def)
  then show ?thesis
    using qa_invD(3) [OF inv, of i] stop_answer by (elim qa_inv_same) simp_all
next
  case (stop_quit i k)
  then show ?thesis using qa_stop_quit_inv [OF inv] by simp
next
  case (exit_done i)
  then show ?thesis using inv qa_invD(3) [OF inv, of i] by (simp add: qa_move)
next
  case (routines_done i)
  then show ?thesis using inv qa_invD(3) [OF inv, of i] by (simp add: qa_move by_context_def)
next
  case (stop_skip i k)
  then show ?thesis using inv qa_invD(3) [OF inv, of i] by (simp add: qa_move)
next
  case (release_expired i e)
  then show ?thesis using inv by (auto intro!: qa_move)
next
  case (join_context i err)
  then show ?thesis using inv qa_invD(3) [OF inv, of i] by (auto intro!: qa_move simp: by_context_def)
qed (use inv in \<open>auto intro!: qa_move dest: qa_invD(3) simp: by_context_def\<close>)

interpretation qa: step_system qa_start "qa_step ring workerCount" qa_inv for ring workerCount
proof unfold_locales
  show "qa_inv g" if "qa_start g" for g :: "'w qa_sys"
    using that by (simp add: qa_start_def qa_inv_def new_admission_def shared_ok_def counts_ok_def)
qed (rule qa_step_inv)

lemma drained_quiet: "qa_inv g \<Longrightarrow> drained (qa_q g) \<Longrightarrow> \<not> in_flight (qa_pc g i)"
  using counts_ok_none [of in_flight "qa_pc g" i] qa_invD(1,4) [of g] by (auto simp: shared_ok_def)

lemma drained_step:
  assumes "qa_inv g" and "drained (qa_q g)" and "qa_step ring workerCount g h"
  shows "drained (qa_q h)"
  using assms(3)
proof cases
  case (queue_end i result)
  then show ?thesis using drained_quiet [OF assms(1,2), of i] by simp
next
  case (close_body i rel)
  then show ?thesis
    using qa_invD(1) [OF assms(1)] qa_invD(3) [OF assms(1), of i] assms(2) by (simp add: shared_ok_def)
qed (use assms(2) in \<open>auto simp: admission_defs qa_try_def split: if_splits option.splits\<close>)

section \<open>Properties\<close>


text \<open>A submission in flight can always finish, whatever the others do meanwhile.\<close>

definition finishes :: "bool \<Rightarrow> int \<Rightarrow> nat \<Rightarrow> 'w qa_sys \<Rightarrow> bool" where
  "finishes ring workerCount j g \<longleftrightarrow> (\<exists>h p. (qa_step ring workerCount)\<^sup>*\<^sup>* g h \<and>
     qa_pc h = (qa_pc g)(j := p) \<and> \<not> in_flight p \<and> qs_drainFlag (qa_q h) = qs_drainFlag (qa_q g))"

lemma finishes_step:
  assumes "qa_step ring workerCount g g'" and "qa_pc g' = (qa_pc g)(j := p')"
    and "qs_drainFlag (qa_q g') = qs_drainFlag (qa_q g)" and "finishes ring workerCount j g'"
  shows "finishes ring workerCount j g"
  using assms unfolding finishes_def by (metis converse_rtranclp_into_rtranclp fun_upd_upd)

lemma finishes_ending:
  assumes "qa_pc g j = QaEnding result"
  shows "finishes ring workerCount j g"
proof -
  let ?h = "qa_goto j (QaReturned result) (qa_try (endAdmission (qa_q g)) g)"
  have "(qa_step ring workerCount)\<^sup>*\<^sup>* g ?h"
    using qa_step.queue_end [OF assms] by (rule r_into_rtranclp)
  moreover have "qa_pc ?h = (qa_pc g)(j := QaReturned result)" "qs_drainFlag (qa_q ?h) = qs_drainFlag (qa_q g)"
    by (simp_all add: qa_try_def endAdmission_def Let_def split: option.split)
  ultimately show ?thesis unfolding finishes_def by (metis in_flight.simps(5))
qed

lemma finishes_in_flight:
  assumes "in_flight (qa_pc g j)"
  shows "finishes ring workerCount j g"
proof -
  have publishing: "finishes ring workerCount j g" if "qa_pc g j = QaPublishing m" for m and g :: "'a qa_sys"
    using that by (intro finishes_step [OF qa_step.queue_failed [OF that, of "Panics ''''"]])
      (auto intro: finishes_ending)
  show ?thesis
  proof (cases "qa_pc g j")
    case (QaAdmitted m)
    show ?thesis
    proof (cases "Message_Validate m")
      case None
      then show ?thesis
        using finishes_step [OF qa_step.queue_publish [OF QaAdmitted None]] publishing by fastforce
    next
      case (Some e)
      then show ?thesis
        using finishes_step [OF qa_step.queue_invalid [OF QaAdmitted Some]] finishes_ending by fastforce
    qed
  qed (use assms publishing finishes_ending in auto)
qed

lemma drain_completes:
  "qa_inv g \<Longrightarrow> qs_drainFlag (qa_q g) \<Longrightarrow> \<not> in_flight (qa_pc g i) \<Longrightarrow>
    \<exists>h. (qa_step ring workerCount)\<^sup>*\<^sup>* g h \<and> qa_pc h i = qa_pc g i \<and> drained (qa_q h)"
proof (induction "card (at_pc in_flight (qa_pc g))" arbitrary: g rule: less_induct)
  case less
  have counts: "counts_ok (qs_admissions (qa_q g)) in_flight (qa_pc g)" using qa_invD(4) [OF less.prems(1)] .
  show ?case
  proof (cases "\<exists>j. in_flight (qa_pc g j)")
    case False
    then have "qs_admissions (qa_q g) = 0"
      using counts card_at_zero [of in_flight "qa_pc g"] by (simp add: counts_ok_def)
    then show ?thesis
      using qa_invD(1) [OF less.prems(1)] less.prems(2) by (auto simp: shared_ok_def)
  next
    case True
    then obtain j where j: "in_flight (qa_pc g j)" by blast
    obtain h p where h: "(qa_step ring workerCount)\<^sup>*\<^sup>* g h" "qa_pc h = (qa_pc g)(j := p)" "\<not> in_flight p"
      "qs_drainFlag (qa_q h)"
      using finishes_in_flight [OF j, of ring workerCount] less.prems(2) by (auto simp: finishes_def)
    have "int (card (at_pc in_flight (qa_pc h))) = int (card (at_pc in_flight (qa_pc g))) - 1"
      using counts j h(2,3) by (simp add: card_at_move_bool counts_ok_def)
    then have "card (at_pc in_flight (qa_pc h)) < card (at_pc in_flight (qa_pc g))" by linarith
    moreover have "qa_inv h" using qa.invar_steps [OF h(1) less.prems(1)] .
    moreover have "qa_pc h i = qa_pc g i" using j less.prems(3) h(2) by auto
    ultimately obtain k where "(qa_step ring workerCount)\<^sup>*\<^sup>* h k" "qa_pc k i = qa_pc g i" "drained (qa_q k)"
      using less.hyps [of h] h(4) less.prems(3) by auto
    then show ?thesis using h(1) by (meson rtranclp_trans)
  qed
qed

text \<open>
  C27: a graceful release that waits for the accepted submissions is never stuck: as long as the
  completion is not signalled some accepted submission is still in flight, and when those finish
  the signal is given and the waiter goes on.
\<close>

theorem queue_release_progress:
  assumes "reachable_from qa_start (qa_step ring workerCount) g" and "qa_pc g i = WaitAdmissions"
  shows "(qs_admissionsDone (qa_q g) = Some True \<longleftrightarrow> (\<forall>j. \<not> in_flight (qa_pc g j))) \<and>
    (\<exists>h. (qa_step ring workerCount)\<^sup>*\<^sup>* g h \<and> qa_pc h i = (if ring then WaitExit else WaitRoutines))"
proof -
  note inv = qa.invar_reachable [OF assms(1)]
  have drain: "qs_drainFlag (qa_q g)" using qa_invD(3) [OF inv, of i] assms(2) by simp
  obtain h where h: "(qa_step ring workerCount)\<^sup>*\<^sup>* g h" "qa_pc h i = WaitAdmissions" "drained (qa_q h)"
    using drain_completes [OF inv drain, of i ring workerCount] assms(2) by auto
  have "(qa_step ring workerCount)\<^sup>*\<^sup>* g (qa_goto i (if ring then WaitExit else WaitRoutines) h)"
    using h(1) qa_step.admissions_done [OF h(2,3), of ring workerCount] by (rule rtranclp.rtrancl_into_rtrancl)
  moreover have "qs_admissions (qa_q g) = 0" if "\<forall>j. \<not> in_flight (qa_pc g j)"
    using qa_invD(4) [OF inv] card_at_zero [of in_flight "qa_pc g"] that by (simp add: counts_ok_def)
  ultimately show ?thesis
    using drained_quiet [OF inv] qa_invD(1) [OF inv] drain by (fastforce simp: shared_ok_def)
qed

section \<open>A concrete run\<close>

text \<open>Goroutine 0 has submitted a message, goroutine 1 releases the queue of a backend.\<close>

definition qa_at :: "admission \<Rightarrow> unit qa_pc \<Rightarrow> once \<Rightarrow> unit qa_sys" where
  "qa_at q p dr = \<lparr>qa_q = q, qa_pc = (\<lambda>i. QaIdle)(0 := QaAdmitted (NewMessage ''p'' []), 1 := p), qa_drainOnce = dr,
     qa_stopOnce = OnceNew, qa_exit = False, qa_shutdowns = 0, qa_panicked = False\<rparr>"

definition one_admitted :: admission where
  "one_admitted = new_admission\<lparr>qs_admissions := 1\<rparr>"

definition one_draining :: admission where
  "one_draining = one_admitted\<lparr>qs_drainFlag := True, qs_admissionsDone := Some False\<rparr>"

lemmas qa_at_simps = qa_at_def one_admitted_def one_draining_def new_admission_def

lemma qa_at_start: "reachable_from qa_start (qa_step False 4) (qa_at one_admitted QaIdle OnceNew)"
proof -
  let ?g = "\<lparr>qa_q = new_admission, qa_pc = (\<lambda>i. QaIdle :: unit qa_pc), qa_drainOnce = OnceNew,
    qa_stopOnce = OnceNew, qa_exit = False, qa_shutdowns = 0, qa_panicked = False\<rparr>"
  have "qa_step False 4 ?g (qa_at one_admitted QaIdle OnceNew)"
    using qa_step.queue_admitted [of ?g 0 one_admitted False 4 "NewMessage ''p'' []"]
    by (simp add: qa_at_simps beginAdmission_def fun_upd_idem)
  moreover have "reachable_from qa_start (qa_step False 4) ?g"
    by (rule reachable_from.reach_start) (simp add: qa_start_def)
  ultimately show ?thesis by (rule reachable_from.reach_step [rotated])
qed

lemma qa_at_waiting:
  "reachable_from qa_start (qa_step False 4) (qa_at (one_draining\<lparr>qs_drain := True\<rparr>) WaitAdmissions OnceDone)"
proof -
  have "qa_step False 4 (qa_at one_admitted QaIdle OnceNew) (qa_at one_admitted (CloseOnce True) OnceNew)"
    using qa_step.release_context_call [of "qa_at one_admitted QaIdle OnceNew" 1 False 4] by (simp add: qa_at_simps)
  moreover have "qa_step False 4 (qa_at one_admitted (CloseOnce True) OnceNew) (qa_at one_admitted (CloseBody True) OnceRunning)"
    using qa_step.close_first [of "qa_at one_admitted (CloseOnce True) OnceNew" 1 True False 4] by (simp add: qa_at_simps)
  moreover have "qa_step False 4 (qa_at one_admitted (CloseBody True) OnceRunning) (qa_at one_draining (CloseTail True) OnceRunning)"
    using qa_step.close_body [of "qa_at one_admitted (CloseBody True) OnceRunning" 1 True False 4]
    by (simp add: qa_at_simps closeAdmission_locked_def)
  moreover have "qa_step False 4 (qa_at one_draining (CloseTail True) OnceRunning)
      (qa_at (one_draining\<lparr>qs_drain := True\<rparr>) WaitAdmissions OnceDone)"
    using qa_step.close_tail [of "qa_at one_draining (CloseTail True) OnceRunning" 1 True False 4]
    by (simp add: qa_at_simps closeAdmission_tail_def qa_try_def)
  ultimately show ?thesis
    using qa_at_start by (meson reachable_from.reach_step)
qed


theorem queue_release_progress_witness:
  "\<exists>h. (qa_step False 4)\<^sup>*\<^sup>* (qa_at (one_draining\<lparr>qs_drain := True\<rparr>) WaitAdmissions OnceDone) h \<and>
     qa_pc h 1 = WaitRoutines"
  using queue_release_progress [OF qa_at_waiting, of 1] by (simp add: qa_at_def)

end
