(* ===== verification/Scheduler.thy ===== *)
theory Scheduler
  imports Lifecycle
begin

text \<open>
  The scheduler of src/queue.go: the loop \<^verbatim>\<open>start\<close>, its request goroutine, \<^verbatim>\<open>schedule\<close> under the
  queue's mutex, \<^verbatim>\<open>hasWorkerCapacity\<close>, \<^verbatim>\<open>UpdateWorkerCount\<close>, \<^verbatim>\<open>releaseReadyAdmission\<close> and
  \<^verbatim>\<open>workManaged\<close> around the work wrapper. A step is one access to shared state: an atomic load or
  add, a channel operation, a lifecycle call, a call of the worker. The answers of the worker, the
  ends of handlers, the ticker, notifications, lifecycle transitions, closing of admission and
  shutdown come at any time. There are fewer than \<open>2 ^ 32\<close> tracked jobs at any time.
\<close>

section \<open>State\<close>

text \<open>What a request goroutine was told besides a task, as far as the loop tells errors apart.\<close>

datatype request_error = NoError | EmptyError | OtherError

text \<open>What is sent on \<^verbatim>\<open>tasks\<close>: a value without a task, or a task.\<close>

datatype admittedTask = AdmittedNone | AdmittedTask

datatype main_pc =
    MSchedule
  | MScheduling
  | MSelect
  | MReady
  | MRelease bool
  | MCapacity
  | MLaunch
  | MReceive
  | MGot admittedTask
  | MExit

datatype request_pc =
    RNone
  | RRequest
  | RAnswer bool request_error
  | RHave request_error
  | RWaitSend
  | RSend
  | RNoTask request_error
  | RWait request_error
  | RDrain request_error
  | RBegin request_error
  | RQuit request_error
  | RSendEmpty
  | RClose
  | RClosed

datatype schedule_pc = SCheck | SBusy | SBegin | SSend | SRelease

datatype schedule_caller = CMain | CWrapper | CCall

text \<open>CloseAdmission of a queue whose worker is not a ring: flag, drain channel, ready token.\<close>

datatype close_pc = ClOpen | ClFlag | ClDrain | ClRelease | ClClosed

record scheduler =
  sc_workerCount :: int
  sc_active :: int
  sc_drainFlag :: bool
  sc_drain :: bool
  sc_quit :: bool
  sc_ready :: bool
  sc_tasks :: "admittedTask option"
  sc_closed :: bool
  sc_lifecycle :: "WorkerLifecycle option"
  sc_lock :: "(schedule_pc \<times> schedule_caller) option"
  sc_main :: main_pc
  sc_request :: request_pc
  sc_closing :: close_pc
  sc_calls :: nat
  sc_running :: nat
  sc_finishing :: nat
  sc_ending :: nat
  sc_requested :: nat
  sc_launched :: nat
  sc_peak :: int
  sc_panicked :: bool

section \<open>Lifecycle calls of an optional lifecycle\<close>

definition lcBegin :: "WorkerLifecycle option \<Rightarrow> bool \<times> WorkerLifecycle option" where
  "lcBegin lc = (case lc of None \<Rightarrow> (True, None) | Some l \<Rightarrow> (fst (BeginAdmission l), Some (snd (BeginAdmission l))))"

definition lcEndAdmission :: "WorkerLifecycle option \<Rightarrow> WorkerLifecycle option" where
  "lcEndAdmission lc = map_option (\<lambda>l. snd (EndAdmission l)) lc"

definition lcPromote :: "WorkerLifecycle option \<Rightarrow> WorkerLifecycle option" where
  "lcPromote lc = map_option (\<lambda>l. snd (PromoteAdmissionToJob l)) lc"

definition lcEndJob :: "WorkerLifecycle option \<Rightarrow> WorkerLifecycle option" where
  "lcEndJob lc = map_option (\<lambda>l. snd (EndJob l)) lc"

section \<open>Steps\<close>

text \<open>The end of a call of schedule: the mutex is released and its caller goes on.\<close>

fun schedule_return :: "schedule_caller \<Rightarrow> scheduler \<Rightarrow> scheduler" where
  "schedule_return CMain s = s\<lparr>sc_lock := None, sc_main := MSelect\<rparr>"
| "schedule_return CWrapper s = s\<lparr>sc_lock := None, sc_ending := sc_ending s + 1\<rparr>"
| "schedule_return CCall s = s\<lparr>sc_lock := None\<rparr>"

fun request_tracked :: "request_pc \<Rightarrow> bool" where
  "request_tracked (RHave err) = True"
| "request_tracked RWaitSend = True"
| "request_tracked RSend = True"
| "request_tracked p = False"

definition tracked_tasks :: "scheduler \<Rightarrow> nat" where
  "tracked_tasks s =
     of_bool (request_tracked (sc_request s)) + of_bool (sc_tasks s = Some AdmittedTask) +
     of_bool (sc_main s = MGot AdmittedTask) +
     sc_running s + sc_finishing s + sc_ending s + of_bool (\<exists>p. sc_lock s = Some (p, CWrapper))"

inductive sc_step :: "bool \<Rightarrow> scheduler \<Rightarrow> scheduler \<Rightarrow> bool" for ring :: bool where
  main_schedule: "sc_main s = MSchedule \<Longrightarrow> sc_lock s = None \<Longrightarrow>
    sc_step ring s (s\<lparr>sc_main := MScheduling, sc_lock := Some (SCheck, CMain)\<rparr>)"
| schedule_drained: "sc_lock s = Some (SCheck, c) \<Longrightarrow> sc_drainFlag s \<Longrightarrow> \<not> ring \<Longrightarrow>
    sc_step ring s (schedule_return c s)"
| schedule_check: "sc_lock s = Some (SCheck, c) \<Longrightarrow> \<not> sc_drainFlag s \<or> ring \<Longrightarrow>
    sc_step ring s (s\<lparr>sc_lock := Some (SBusy, c)\<rparr>)"
| schedule_busy: "sc_lock s = Some (SBusy, c) \<Longrightarrow> sc_active s \<ge> sc_workerCount s \<Longrightarrow>
    sc_step ring s (schedule_return c s)"
| schedule_capacity: "sc_lock s = Some (SBusy, c) \<Longrightarrow> sc_active s < sc_workerCount s \<Longrightarrow>
    sc_step ring s (s\<lparr>sc_lock := Some (SBegin, c)\<rparr>)"
| schedule_refused: "sc_lock s = Some (SBegin, c) \<Longrightarrow> lcBegin (sc_lifecycle s) = (False, lc) \<Longrightarrow>
    sc_step ring s (schedule_return c (s\<lparr>sc_lifecycle := lc\<rparr>))"
| schedule_reserved: "sc_lock s = Some (SBegin, c) \<Longrightarrow> lcBegin (sc_lifecycle s) = (True, lc) \<Longrightarrow>
    sc_step ring s (s\<lparr>sc_lifecycle := lc, sc_lock := Some (SSend, c)\<rparr>)"
| schedule_sent: "sc_lock s = Some (SSend, c) \<Longrightarrow> \<not> sc_ready s \<Longrightarrow>
    sc_step ring s (schedule_return c (s\<lparr>sc_ready := True\<rparr>))"
| schedule_full: "sc_lock s = Some (SSend, c) \<Longrightarrow> sc_ready s \<Longrightarrow>
    sc_step ring s (s\<lparr>sc_lock := Some (SRelease, c)\<rparr>)"
| schedule_release: "sc_lock s = Some (SRelease, c) \<Longrightarrow>
    sc_step ring s (schedule_return c (s\<lparr>sc_lifecycle := lcEndAdmission (sc_lifecycle s)\<rparr>))"
| main_ready: "sc_main s = MSelect \<Longrightarrow> sc_ready s \<Longrightarrow>
    sc_step ring s (s\<lparr>sc_main := MReady, sc_ready := False\<rparr>)"
| main_quit: "sc_main s = MSelect \<Longrightarrow> sc_quit s \<Longrightarrow> sc_step ring s (s\<lparr>sc_main := MExit\<rparr>)"
| main_drain: "sc_main s = MSelect \<Longrightarrow> sc_drain s \<Longrightarrow> sc_step ring s (s\<lparr>sc_main := MExit\<rparr>)"
| main_ready_drained: "sc_main s = MReady \<Longrightarrow> sc_drainFlag s \<Longrightarrow> \<not> ring \<Longrightarrow>
    sc_step ring s (s\<lparr>sc_main := MRelease True\<rparr>)"
| main_ready_check: "sc_main s = MReady \<Longrightarrow> \<not> sc_drainFlag s \<or> ring \<Longrightarrow>
    sc_step ring s (s\<lparr>sc_main := MCapacity\<rparr>)"
| main_busy: "sc_main s = MCapacity \<Longrightarrow> sc_lock s = None \<Longrightarrow> sc_active s \<ge> sc_workerCount s \<Longrightarrow>
    sc_step ring s (s\<lparr>sc_main := MRelease False\<rparr>)"
| main_release: "sc_main s = MRelease exiting \<Longrightarrow>
    sc_step ring s (s\<lparr>sc_lifecycle := lcEndAdmission (sc_lifecycle s),
      sc_main := (if exiting then MExit else MSchedule)\<rparr>)"
| main_capacity: "sc_main s = MCapacity \<Longrightarrow> sc_lock s = None \<Longrightarrow> sc_active s < sc_workerCount s \<Longrightarrow>
    sc_step ring s (s\<lparr>sc_main := MLaunch\<rparr>)"
| main_launch: "sc_main s = MLaunch \<Longrightarrow>
    sc_step ring s (s\<lparr>sc_main := MReceive, sc_request := RRequest\<rparr>)"
| request_answer: "sc_request s = RRequest \<Longrightarrow>
    sc_step ring s (s\<lparr>sc_request := RAnswer hasTask err,
      sc_requested := sc_requested s + (if hasTask then 1 else 0)\<rparr>)"
| request_promote: "sc_request s = RAnswer True err \<Longrightarrow> tracked_tasks s < 2 ^ 32 - 1 \<Longrightarrow>
    sc_step ring s (s\<lparr>sc_request := RHave err, sc_lifecycle := lcPromote (sc_lifecycle s)\<rparr>)"
| request_none: "sc_request s = RAnswer False err \<Longrightarrow>
    sc_step ring s (s\<lparr>sc_request := RNoTask err, sc_lifecycle := lcEndAdmission (sc_lifecycle s)\<rparr>)"
| request_have: "sc_request s = RHave err \<Longrightarrow>
    sc_step ring s (s\<lparr>sc_request := (if err \<noteq> NoError \<and> \<not> sc_drainFlag s then RWaitSend else RSend)\<rparr>)"
| request_waited: "sc_request s = RWaitSend \<Longrightarrow> sc_step ring s (s\<lparr>sc_request := RSend\<rparr>)"
| request_send: "sc_request s = RSend \<Longrightarrow> sc_tasks s = None \<Longrightarrow>
    sc_step ring s (s\<lparr>sc_request := RNone, sc_tasks := Some AdmittedTask, sc_panicked := sc_panicked s \<or> sc_closed s\<rparr>)"
| request_drained: "sc_request s = RNoTask err \<Longrightarrow> sc_drainFlag s \<Longrightarrow>
    sc_step ring s (s\<lparr>sc_request := RSendEmpty\<rparr>)"
| request_poll: "sc_request s = RNoTask err \<Longrightarrow> \<not> sc_drainFlag s \<Longrightarrow>
    sc_step ring s (s\<lparr>sc_request := (if err \<noteq> NoError then RWait err else RDrain err)\<rparr>)"
| request_woken: "sc_request s = RWait err \<Longrightarrow> sc_step ring s (s\<lparr>sc_request := RDrain err\<rparr>)"
| request_drain: "sc_request s = RDrain err \<Longrightarrow>
    sc_step ring s (s\<lparr>sc_request := (if sc_drain s then RSendEmpty else RBegin err)\<rparr>)"
| request_refused: "sc_request s = RBegin err \<Longrightarrow> lcBegin (sc_lifecycle s) = (False, lc) \<Longrightarrow>
    sc_step ring s (s\<lparr>sc_request := RSendEmpty, sc_lifecycle := lc\<rparr>)"
| request_reserved: "sc_request s = RBegin err \<Longrightarrow> lcBegin (sc_lifecycle s) = (True, lc) \<Longrightarrow>
    sc_step ring s (s\<lparr>sc_request := RQuit err, sc_lifecycle := lc\<rparr>)"
| request_quit: "sc_request s = RQuit err \<Longrightarrow>
    sc_step ring s (s\<lparr>sc_request := (if sc_quit s \<and> err \<noteq> EmptyError then RClose else RRequest)\<rparr>)"
| request_send_empty: "sc_request s = RSendEmpty \<Longrightarrow> sc_tasks s = None \<Longrightarrow>
    sc_step ring s (s\<lparr>sc_request := RNone, sc_tasks := Some AdmittedNone, sc_panicked := sc_panicked s \<or> sc_closed s\<rparr>)"
| request_close: "sc_request s = RClose \<Longrightarrow>
    sc_step ring s (s\<lparr>sc_request := RClosed, sc_closed := True, sc_panicked := sc_panicked s \<or> sc_closed s\<rparr>)"
| main_receive: "sc_main s = MReceive \<Longrightarrow> sc_tasks s = Some a \<Longrightarrow>
    sc_step ring s (s\<lparr>sc_main := MGot a, sc_tasks := None\<rparr>)"
| main_closed: "sc_main s = MReceive \<Longrightarrow> sc_tasks s = None \<Longrightarrow> sc_closed s \<Longrightarrow>
    sc_step ring s (s\<lparr>sc_main := MExit\<rparr>)"
| main_none: "sc_main s = MGot AdmittedNone \<Longrightarrow>
    sc_step ring s (s\<lparr>sc_main := (if sc_drainFlag s then MExit else MSchedule)\<rparr>)"
| main_work: "sc_main s = MGot AdmittedTask \<Longrightarrow>
    sc_step ring s (s\<lparr>sc_main := MSchedule, sc_active := sc_active s + 1, sc_running := sc_running s + 1,
      sc_launched := sc_launched s + 1\<rparr>)"
| work_done: "sc_running s > 0 \<Longrightarrow>
    sc_step ring s (s\<lparr>sc_running := sc_running s - 1, sc_active := sc_active s - 1, sc_finishing := sc_finishing s + 1\<rparr>)"
| work_schedule: "sc_finishing s > 0 \<Longrightarrow> sc_lock s = None \<Longrightarrow>
    sc_step ring s (s\<lparr>sc_finishing := sc_finishing s - 1, sc_lock := Some (SCheck, CWrapper)\<rparr>)"
| work_end: "sc_ending s > 0 \<Longrightarrow>
    sc_step ring s (s\<lparr>sc_ending := sc_ending s - 1, sc_lifecycle := lcEndJob (sc_lifecycle s)\<rparr>)"
| update_count: "sc_lock s = None \<Longrightarrow>
    sc_step ring s (s\<lparr>sc_workerCount := num, sc_peak := max (sc_peak s) num, sc_calls := sc_calls s + 1\<rparr>)"
| call_schedule: "sc_calls s > 0 \<Longrightarrow> sc_lock s = None \<Longrightarrow>
    sc_step ring s (s\<lparr>sc_calls := sc_calls s - 1, sc_lock := Some (SCheck, CCall)\<rparr>)"
| lifecycle_transition: "sc_lifecycle s = Some l \<Longrightarrow> transition_set state l = Inr l' \<Longrightarrow>
    sc_step ring s (s\<lparr>sc_lifecycle := Some l', sc_calls := sc_calls s + (if state = DesiredActive then 1 else 0)\<rparr>)"
| lifecycle_other: "sc_lifecycle s = Some l \<Longrightarrow> lc_state l' = lc_state l \<Longrightarrow> lc_admissions l' = lc_admissions l \<Longrightarrow>
    lc_jobs l' = lc_jobs l \<Longrightarrow> sc_step ring s (s\<lparr>sc_lifecycle := Some l'\<rparr>)"
| close_flag: "sc_closing s = ClOpen \<Longrightarrow> sc_step ring s (s\<lparr>sc_closing := ClFlag, sc_drainFlag := True\<rparr>)"
| close_drain: "sc_closing s = ClFlag \<Longrightarrow> \<not> ring \<Longrightarrow> sc_step ring s (s\<lparr>sc_closing := ClDrain, sc_drain := True\<rparr>)"
| close_take: "sc_closing s = ClDrain \<Longrightarrow> sc_ready s \<Longrightarrow>
    sc_step ring s (s\<lparr>sc_closing := ClRelease, sc_ready := False\<rparr>)"
| close_empty: "sc_closing s = ClDrain \<Longrightarrow> \<not> sc_ready s \<Longrightarrow> sc_step ring s (s\<lparr>sc_closing := ClClosed\<rparr>)"
| close_release: "sc_closing s = ClRelease \<Longrightarrow>
    sc_step ring s (s\<lparr>sc_closing := ClClosed, sc_lifecycle := lcEndAdmission (sc_lifecycle s)\<rparr>)"
| shutdown: "sc_step ring s (s\<lparr>sc_quit := True\<rparr>)"

inductive_cases sc_stepE: "sc_step ring s t"

text \<open>The state in which Start launches the loop.\<close>

definition sc_new :: "int \<Rightarrow> WorkerLifecycle option \<Rightarrow> scheduler" where
  "sc_new workerCount lifecycle =
     \<lparr>sc_workerCount = workerCount, sc_active = 0, sc_drainFlag = False, sc_drain = False, sc_quit = False,
      sc_ready = False, sc_tasks = None, sc_closed = False, sc_lifecycle = lifecycle, sc_lock = None,
      sc_main = MSchedule, sc_request = RNone, sc_closing = ClOpen, sc_calls = 0, sc_running = 0, sc_finishing = 0,
      sc_ending = 0, sc_requested = 0, sc_launched = 0, sc_peak = max 0 workerCount, sc_panicked = False\<rparr>"

definition sc_start :: "scheduler \<Rightarrow> bool" where
  "sc_start s \<longleftrightarrow> (\<exists>workerCount lifecycle. s = sc_new workerCount lifecycle \<and>
     (\<forall>l. lifecycle = Some l \<longrightarrow> lc_admissions l = 0 \<and> lc_jobs l = 0))"

section \<open>Invariants\<close>

text \<open>One request goroutine at a time, and the channel is closed only as its last act.\<close>

definition protocol_inv :: "scheduler \<Rightarrow> bool" where
  "protocol_inv s \<longleftrightarrow>
     (sc_request s \<notin> {RNone, RClosed} \<longrightarrow> sc_main s = MReceive \<and> sc_tasks s = None) \<and>
     (sc_request s = RClosed \<longrightarrow> sc_tasks s = None \<and> sc_main s \<in> {MReceive, MExit}) \<and>
     (sc_closed s \<longleftrightarrow> sc_request s = RClosed) \<and>
     (sc_tasks s \<noteq> None \<longrightarrow> sc_main s = MReceive) \<and>
     (sc_main s = MReceive \<longrightarrow> sc_request s \<noteq> RNone \<or> sc_tasks s \<noteq> None) \<and> \<not> sc_panicked s"

definition lock_inv :: "scheduler \<Rightarrow> bool" where
  "lock_inv s \<longleftrightarrow> ((\<exists>p. sc_lock s = Some (p, CMain)) \<longleftrightarrow> sc_main s = MScheduling)"

fun past_capacity :: "main_pc \<Rightarrow> bool" where
  "past_capacity MLaunch = True"
| "past_capacity MReceive = True"
| "past_capacity (MGot a) = True"
| "past_capacity p = False"

definition active_inv :: "scheduler \<Rightarrow> bool" where
  "active_inv s \<longleftrightarrow> sc_active s = int (sc_running s) \<and> sc_active s \<le> sc_peak s \<and> sc_workerCount s \<le> sc_peak s \<and>
     (past_capacity (sc_main s) \<longrightarrow> sc_active s < sc_peak s)"

fun holds_task :: "request_pc \<Rightarrow> bool" where
  "holds_task (RAnswer hasTask err) = hasTask"
| "holds_task (RHave err) = True"
| "holds_task RWaitSend = True"
| "holds_task RSend = True"
| "holds_task p = False"

definition in_transit :: "scheduler \<Rightarrow> nat" where
  "in_transit s = of_bool (holds_task (sc_request s)) + of_bool (sc_tasks s = Some AdmittedTask) +
     of_bool (sc_main s = MGot AdmittedTask)"

definition task_inv :: "scheduler \<Rightarrow> bool" where
  "task_inv s \<longleftrightarrow> sc_requested s = sc_launched s + in_transit s"

lemma schedule_return_sel [simp]:
  "sc_workerCount (schedule_return c s) = sc_workerCount s" "sc_active (schedule_return c s) = sc_active s"
  "sc_drainFlag (schedule_return c s) = sc_drainFlag s" "sc_drain (schedule_return c s) = sc_drain s"
  "sc_quit (schedule_return c s) = sc_quit s" "sc_ready (schedule_return c s) = sc_ready s"
  "sc_tasks (schedule_return c s) = sc_tasks s" "sc_closed (schedule_return c s) = sc_closed s"
  "sc_lifecycle (schedule_return c s) = sc_lifecycle s" "sc_lock (schedule_return c s) = None"
  "sc_main (schedule_return c s) = (if c = CMain then MSelect else sc_main s)"
  "sc_request (schedule_return c s) = sc_request s" "sc_closing (schedule_return c s) = sc_closing s"
  "sc_calls (schedule_return c s) = sc_calls s" "sc_running (schedule_return c s) = sc_running s"
  "sc_finishing (schedule_return c s) = sc_finishing s"
  "sc_ending (schedule_return c s) = sc_ending s + of_bool (c = CWrapper)"
  "sc_requested (schedule_return c s) = sc_requested s" "sc_launched (schedule_return c s) = sc_launched s"
  "sc_peak (schedule_return c s) = sc_peak s" "sc_panicked (schedule_return c s) = sc_panicked s"
  by (cases c; simp)+

lemma lock_step: "lock_inv s \<Longrightarrow> protocol_inv s \<Longrightarrow> sc_step ring s t \<Longrightarrow> lock_inv t"
  by (erule sc_step.cases) (auto simp: lock_inv_def protocol_inv_def)

lemma protocol_step: "protocol_inv s \<Longrightarrow> lock_inv s \<Longrightarrow> sc_step ring s t \<Longrightarrow> protocol_inv t"
  by (erule sc_step.cases) (auto simp: protocol_inv_def lock_inv_def)

lemma active_step: "active_inv s \<Longrightarrow> protocol_inv s \<Longrightarrow> sc_step ring s t \<Longrightarrow> active_inv t"
  by (erule sc_step.cases) (auto simp: active_inv_def)

lemma task_step: "task_inv s \<Longrightarrow> protocol_inv s \<Longrightarrow> lock_inv s \<Longrightarrow> sc_step ring s t \<Longrightarrow> task_inv t"
  by (erule sc_step.cases) (auto simp: task_inv_def in_transit_def protocol_inv_def lock_inv_def)

section \<open>Lifecycle accounting\<close>

fun main_reserved :: "main_pc \<Rightarrow> bool" where
  "main_reserved MReady = True"
| "main_reserved (MRelease exiting) = True"
| "main_reserved MCapacity = True"
| "main_reserved MLaunch = True"
| "main_reserved p = False"

fun request_reserved :: "request_pc \<Rightarrow> bool" where
  "request_reserved RRequest = True"
| "request_reserved (RAnswer hasTask err) = True"
| "request_reserved (RQuit err) = True"
| "request_reserved RClose = True"
| "request_reserved RClosed = True"
| "request_reserved p = False"

definition schedule_reserved :: "(schedule_pc \<times> schedule_caller) option \<Rightarrow> bool" where
  "schedule_reserved lock \<longleftrightarrow> (case lock of Some (p, c) \<Rightarrow> p = SSend \<or> p = SRelease | None \<Rightarrow> False)"

text \<open>The reservations that some goroutine or the ready token stands for.\<close>

definition reservations :: "scheduler \<Rightarrow> nat" where
  "reservations s = of_bool (sc_ready s) + of_bool (main_reserved (sc_main s)) +
     of_bool (request_reserved (sc_request s)) + of_bool (schedule_reserved (sc_lock s)) +
     of_bool (sc_closing s = ClRelease)"

definition account_inv :: "scheduler \<Rightarrow> bool" where
  "account_inv s \<longleftrightarrow> (\<forall>l. sc_lifecycle s = Some l \<longrightarrow>
     unat (lc_admissions l) = reservations s \<and> unat (lc_jobs l) = tracked_tasks s)"

lemma reservations_le: "reservations s \<le> 5"
  by (simp add: reservations_def of_bool_def)

lemma unat_inc: "unat (w :: 32 word) < 2 ^ 32 - 1 \<Longrightarrow> unat (w + 1) = unat w + 1"
  by (simp add: unat_word_ariths)

lemma unat_dec: "unat (w :: 32 word) = Suc n \<Longrightarrow> unat (w - 1) = n \<and> w \<noteq> 0"
  by (metis Suc_eq_plus1 add_diff_cancel_right' nat.simps(3) unat_0 unat_minus_one)

text \<open>The lifecycle calls of the loop, each with the effect its counter allows.\<close>

lemma lcBegin_account:
  assumes "lcBegin lc = (ok, lc')" and "lc' = Some l'"
  obtains l where "lc = Some l" and "lc_jobs l' = lc_jobs l"
    and "unat (lc_admissions l) < 2 ^ 32 - 1 \<longrightarrow> unat (lc_admissions l') = unat (lc_admissions l) + of_bool ok"
proof -
  obtain l where l: "lc = Some l" "ok = fst (BeginAdmission l)" "l' = snd (BeginAdmission l)"
    using assms by (cases lc) (auto simp: lcBegin_def)
  then show ?thesis
    by (intro that [of l]) (simp_all add: BeginAdmission_def notifyLocked_def unat_inc)
qed

lemma lcEndAdmission_account:
  assumes "lcEndAdmission lc = Some l'"
  obtains l where "lc = Some l" and "lc_jobs l' = lc_jobs l"
    and "\<And>n. unat (lc_admissions l) = Suc n \<Longrightarrow> unat (lc_admissions l') = n"
proof -
  obtain l where l: "lc = Some l" "l' = snd (EndAdmission l)"
    using assms by (auto simp: lcEndAdmission_def)
  then show ?thesis
    by (intro that [of l]) (auto simp: EndAdmission_def notifyLocked_def dest: unat_dec)
qed

lemma lcPromote_account:
  assumes "lcPromote lc = Some l'"
  obtains l where "lc = Some l" and "\<And>n. unat (lc_admissions l) = Suc n \<Longrightarrow> unat (lc_admissions l') = n"
    and "\<And>n. unat (lc_admissions l) = Suc n \<Longrightarrow> unat (lc_jobs l) < 2 ^ 32 - 1 \<Longrightarrow> unat (lc_jobs l') = unat (lc_jobs l) + 1"
proof -
  obtain l where l: "lc = Some l" "l' = snd (PromoteAdmissionToJob l)"
    using assms by (auto simp: lcPromote_def)
  then show ?thesis
    by (intro that [of l]) (auto simp: PromoteAdmissionToJob_def notifyLocked_def unat_inc dest: unat_dec)
qed

lemma lcEndJob_account:
  assumes "lcEndJob lc = Some l'"
  obtains l where "lc = Some l" and "lc_admissions l' = lc_admissions l"
    and "\<And>n. unat (lc_jobs l) = Suc n \<Longrightarrow> unat (lc_jobs l') = n"
proof -
  obtain l where l: "lc = Some l" "l' = snd (EndJob l)"
    using assms by (auto simp: lcEndJob_def)
  then show ?thesis
    by (intro that [of l]) (auto simp: EndJob_def notifyLocked_def dest: unat_dec)
qed


lemma account_same:
  "account_inv s \<Longrightarrow> sc_lifecycle t = sc_lifecycle s \<Longrightarrow> reservations t = reservations s \<Longrightarrow>
    tracked_tasks t = tracked_tasks s \<Longrightarrow> account_inv t"
  by (simp add: account_inv_def)

lemma account_begin:
  assumes "account_inv s" and "lcBegin (sc_lifecycle s) = (ok, sc_lifecycle t)"
    and "reservations t = reservations s + of_bool ok" and "tracked_tasks t = tracked_tasks s"
  shows "account_inv t"
  unfolding account_inv_def
proof (intro allI impI)
  fix l' assume l': "sc_lifecycle t = Some l'"
  obtain l where "sc_lifecycle s = Some l" "lc_jobs l' = lc_jobs l"
    "unat (lc_admissions l) < 2 ^ 32 - 1 \<longrightarrow> unat (lc_admissions l') = unat (lc_admissions l) + of_bool ok"
    using lcBegin_account [OF assms(2) l'] by blast
  then show "unat (lc_admissions l') = reservations t \<and> unat (lc_jobs l') = tracked_tasks t"
    using assms(1,3,4) reservations_le [of s] by (simp add: account_inv_def)
qed

lemma account_end_admission:
  assumes "account_inv s" and "sc_lifecycle t = lcEndAdmission (sc_lifecycle s)"
    and "reservations s = Suc (reservations t)" and "tracked_tasks t = tracked_tasks s"
  shows "account_inv t"
  unfolding account_inv_def
proof (intro allI impI)
  fix l' assume "sc_lifecycle t = Some l'"
  then obtain l where "sc_lifecycle s = Some l" "lc_jobs l' = lc_jobs l"
    "\<And>n. unat (lc_admissions l) = Suc n \<Longrightarrow> unat (lc_admissions l') = n"
    using lcEndAdmission_account [of "sc_lifecycle s" l'] assms(2) by metis
  then show "unat (lc_admissions l') = reservations t \<and> unat (lc_jobs l') = tracked_tasks t"
    using assms(1,3,4) by (simp add: account_inv_def)
qed

lemma account_promote:
  assumes "account_inv s" and "sc_lifecycle t = lcPromote (sc_lifecycle s)" and "tracked_tasks s < 2 ^ 32 - 1"
    and "reservations s = Suc (reservations t)" and "tracked_tasks t = tracked_tasks s + 1"
  shows "account_inv t"
  unfolding account_inv_def
proof (intro allI impI)
  fix l' assume "sc_lifecycle t = Some l'"
  then obtain l where "sc_lifecycle s = Some l"
    "\<And>n. unat (lc_admissions l) = Suc n \<Longrightarrow> unat (lc_admissions l') = n"
    "\<And>n. unat (lc_admissions l) = Suc n \<Longrightarrow> unat (lc_jobs l) < 2 ^ 32 - 1 \<Longrightarrow> unat (lc_jobs l') = unat (lc_jobs l) + 1"
    using lcPromote_account [of "sc_lifecycle s" l'] assms(2) by metis
  then show "unat (lc_admissions l') = reservations t \<and> unat (lc_jobs l') = tracked_tasks t"
    using assms(1,3,4,5) by (simp add: account_inv_def)
qed

lemma account_end_job:
  assumes "account_inv s" and "sc_lifecycle t = lcEndJob (sc_lifecycle s)"
    and "reservations t = reservations s" and "tracked_tasks s = Suc (tracked_tasks t)"
  shows "account_inv t"
  unfolding account_inv_def
proof (intro allI impI)
  fix l' assume "sc_lifecycle t = Some l'"
  then obtain l where "sc_lifecycle s = Some l" "lc_admissions l' = lc_admissions l"
    "\<And>n. unat (lc_jobs l) = Suc n \<Longrightarrow> unat (lc_jobs l') = n"
    using lcEndJob_account [of "sc_lifecycle s" l'] assms(2) by metis
  then show "unat (lc_admissions l') = reservations t \<and> unat (lc_jobs l') = tracked_tasks t"
    using assms(1,3,4) by (simp add: account_inv_def)
qed

lemmas count_defs = reservations_def tracked_tasks_def schedule_reserved_def

lemma account_lifecycle:
  assumes "account_inv s" and "sc_lifecycle s = Some l" and "lc_admissions l' = lc_admissions l" "lc_jobs l' = lc_jobs l"
  shows "account_inv (s\<lparr>sc_lifecycle := Some l', sc_calls := n\<rparr>)"
proof -
  have "reservations (s\<lparr>sc_lifecycle := Some l', sc_calls := n\<rparr>) = reservations s"
    "tracked_tasks (s\<lparr>sc_lifecycle := Some l', sc_calls := n\<rparr>) = tracked_tasks s"
    by (simp_all add: count_defs)
  then show ?thesis using assms by (simp add: account_inv_def)
qed

lemma account_step:
  assumes inv: "account_inv s" "protocol_inv s" "lock_inv s" and "sc_step ring s t"
  shows "account_inv t"
  using assms(4)
proof cases
  case (schedule_refused c lc)
  then show ?thesis using inv(3) by (intro account_begin [OF inv(1), of False]) (auto simp: count_defs lock_inv_def)
next
  case (schedule_reserved c lc)
  then show ?thesis by (intro account_begin [OF inv(1), of True]) (auto simp: count_defs)
next
  case (request_refused err lc)
  then show ?thesis by (intro account_begin [OF inv(1), of False]) (auto simp: count_defs)
next
  case (request_reserved err lc)
  then show ?thesis by (intro account_begin [OF inv(1), of True]) (auto simp: count_defs)
next
  case (schedule_release c)
  then show ?thesis using inv(3) by (intro account_end_admission [OF inv(1)]) (auto simp: count_defs lock_inv_def)
next
  case (main_release exiting)
  then show ?thesis by (intro account_end_admission [OF inv(1)]) (auto simp: count_defs)
next
  case (request_none err)
  then show ?thesis by (intro account_end_admission [OF inv(1)]) (auto simp: count_defs)
next
  case close_release
  then show ?thesis by (intro account_end_admission [OF inv(1)]) (auto simp: count_defs)
next
  case (request_promote err)
  then show ?thesis by (intro account_promote [OF inv(1)]) (auto simp: count_defs)
next
  case work_end
  then show ?thesis by (intro account_end_job [OF inv(1)]) (simp_all add: count_defs)
next
  case (lifecycle_transition l state l')
  then have "lc_admissions l' = lc_admissions l" "lc_jobs l' = lc_jobs l"
    by (auto simp: transition_set_def notifyLocked_def split: if_splits)
  then show ?thesis using lifecycle_transition account_lifecycle [OF inv(1)] by simp
next
  case (lifecycle_other l l')
  then show ?thesis using account_lifecycle [OF inv(1), of l l' "sc_calls s"] by simp
next
  case main_launch
  then show ?thesis
    using inv(2) by (intro account_same [OF inv(1)]) (auto simp: count_defs protocol_inv_def)
qed (rule account_same [OF inv(1)]; use inv(2,3) in \<open>simp add: count_defs protocol_inv_def lock_inv_def\<close>)+

section \<open>Readiness is not lost\<close>

text \<open>Why schedule may decide not to signal readiness.\<close>

definition blocked :: "bool \<Rightarrow> scheduler \<Rightarrow> bool" where
  "blocked ring s \<longleftrightarrow> (sc_drainFlag s \<and> \<not> ring) \<or> sc_active s \<ge> sc_workerCount s \<or>
     (\<exists>l. sc_lifecycle s = Some l \<and> lc_state l \<noteq> DesiredActive)"

fun past_drain :: "close_pc \<Rightarrow> bool" where
  "past_drain ClOpen = False"
| "past_drain ClFlag = False"
| "past_drain p = True"

definition closing_inv :: "bool \<Rightarrow> scheduler \<Rightarrow> bool" where
  "closing_inv ring s \<longleftrightarrow> (sc_closing s \<noteq> ClOpen \<longrightarrow> sc_drainFlag s) \<and> (past_drain (sc_closing s) \<longrightarrow> \<not> ring) \<and>
     (sc_drain s \<longrightarrow> past_drain (sc_closing s))"

definition ready_inv :: "bool \<Rightarrow> scheduler \<Rightarrow> bool" where
  "ready_inv ring s \<longleftrightarrow>
     (\<forall>c. sc_lock s = Some (SRelease, c) \<and> sc_main s \<in> {MSelect, MScheduling} \<longrightarrow>
        sc_ready s \<or> (sc_drainFlag s \<and> \<not> ring)) \<and>
     (sc_main s = MSelect \<and> \<not> sc_ready s \<longrightarrow>
        blocked ring s \<or> sc_calls s > 0 \<or> sc_finishing s > 0 \<or>
        (\<exists>p c. sc_lock s = Some (p, c) \<and> p \<noteq> SRelease))"

lemma closing_step: "closing_inv ring s \<Longrightarrow> sc_step ring s t \<Longrightarrow> closing_inv ring t"
  by (erule sc_step.cases) (auto simp: closing_inv_def)

lemma lcBegin_refused:
  "lcBegin lc = (False, lc') \<Longrightarrow> \<exists>l. lc = Some l \<and> lc' = Some l \<and> lc_state l \<noteq> DesiredActive"
  by (auto simp: lcBegin_def BeginAdmission_def split: option.splits if_splits)

lemma lcBegin_state:
  "lcBegin lc = (True, lc') \<Longrightarrow> (lc' = None \<longleftrightarrow> lc = None) \<and> (\<forall>l'. lc' = Some l' \<longrightarrow> (\<exists>l. lc = Some l \<and> lc_state l' = lc_state l))"
  by (auto simp: lcBegin_def BeginAdmission_def notifyLocked_def split: option.splits if_splits)

lemma lc_state_stay [simp]:
  "lc_state (snd (EndAdmission l)) = lc_state l" "lc_state (snd (PromoteAdmissionToJob l)) = lc_state l"
  "lc_state (snd (EndJob l)) = lc_state l"
  by (simp_all add: EndAdmission_def PromoteAdmissionToJob_def EndJob_def notifyLocked_def)

text \<open>A step that keeps what blocking depends on, up to the lifecycle's counters.\<close>

definition same_state :: "WorkerLifecycle option \<Rightarrow> WorkerLifecycle option \<Rightarrow> bool" where
  "same_state lc lc' \<longleftrightarrow> map_option lc_state lc = map_option lc_state lc'"

lemma same_state_calls:
  "same_state (lcEndAdmission lc) lc" "same_state (lcPromote lc) lc" "same_state (lcEndJob lc) lc"
  "lcBegin lc = (ok, lc') \<Longrightarrow> same_state lc' lc"
  by (auto simp: same_state_def lcEndAdmission_def lcPromote_def lcEndJob_def lcBegin_def BeginAdmission_def
      notifyLocked_def option.map_comp comp_def split: option.splits if_splits)

lemma blocked_cong:
  "blocked ring s \<Longrightarrow> sc_drainFlag s \<longrightarrow> sc_drainFlag t \<Longrightarrow> sc_active s \<le> sc_active t \<Longrightarrow>
    sc_workerCount t = sc_workerCount s \<Longrightarrow> same_state (sc_lifecycle t) (sc_lifecycle s) \<Longrightarrow> blocked ring t"
  by (cases "sc_lifecycle s"; cases "sc_lifecycle t") (auto simp: blocked_def same_state_def)

lemma same_state_refl [simp]: "same_state lc lc"
  by (simp add: same_state_def)

lemma ready_quiet:
  assumes "ready_inv ring s" and "sc_main t = sc_main s" "sc_ready t = sc_ready s" "sc_lock t = sc_lock s"
    "sc_calls t \<ge> sc_calls s" "sc_finishing t \<ge> sc_finishing s" "sc_drainFlag s \<longrightarrow> sc_drainFlag t"
    "sc_active s \<le> sc_active t" "sc_workerCount t = sc_workerCount s" "same_state (sc_lifecycle t) (sc_lifecycle s)"
  shows "ready_inv ring t"
proof -
  have blocked: "blocked ring s \<Longrightarrow> blocked ring t" using blocked_cong [of ring s t] assms(7-10) by blast
  have more: "0 < sc_calls s \<Longrightarrow> 0 < sc_calls t" "0 < sc_finishing s \<Longrightarrow> 0 < sc_finishing t"
    using assms(5,6) by linarith+
  show ?thesis
    unfolding ready_inv_def assms(2-4)
  proof (intro conjI allI impI)
    show "sc_ready s \<or> sc_drainFlag t \<and> \<not> ring"
      if "sc_lock s = Some (SRelease, c) \<and> sc_main s \<in> {MSelect, MScheduling}" for c
      using assms(1,7) that by (auto simp: ready_inv_def)
    show "blocked ring t \<or> 0 < sc_calls t \<or> 0 < sc_finishing t \<or> (\<exists>p c. sc_lock s = Some (p, c) \<and> p \<noteq> SRelease)"
      if "sc_main s = MSelect \<and> \<not> sc_ready s"
      using assms(1) that blocked more unfolding ready_inv_def by blast
  qed
qed


text \<open>Outside its select the loop owes nothing, unless it still holds the mutex in schedule.\<close>

lemma ready_away:
  assumes "sc_main t \<notin> {MSelect, MScheduling}"
  shows "ready_inv ring t"
  using assms by (simp add: ready_inv_def)

lemma ready_scheduling:
  assumes "sc_main t = MScheduling" and "\<And>c. sc_lock t = Some (SRelease, c) \<Longrightarrow> sc_ready t \<or> (sc_drainFlag t \<and> \<not> ring)"
  shows "ready_inv ring t"
  using assms by (simp add: ready_inv_def)

lemma ready_locked:
  "sc_lock t = Some (p, c) \<Longrightarrow> p \<noteq> SRelease \<Longrightarrow> ready_inv ring t"
  by (auto simp: ready_inv_def)

lemma ready_unlocked:
  "sc_lock t = None \<Longrightarrow> blocked ring t \<or> sc_ready t \<or> sc_calls t > 0 \<or> sc_finishing t > 0 \<Longrightarrow> ready_inv ring t"
  by (auto simp: ready_inv_def)

lemma ready_drained: "sc_drainFlag t \<Longrightarrow> \<not> ring \<Longrightarrow> ready_inv ring t"
  by (simp add: ready_inv_def blocked_def)

lemma ready_step:
  assumes inv: "ready_inv ring s" "lock_inv s" "protocol_inv s" "closing_inv ring s" and "sc_step ring s t"
  shows "ready_inv ring t"
  using assms(5)
proof cases
  case main_schedule
  then show ?thesis by (auto intro: ready_locked)
next
  case (schedule_drained c)
  then show ?thesis by (auto intro!: ready_drained)
next
  case (schedule_check c)
  then show ?thesis by (auto intro: ready_locked)
next
  case (schedule_busy c)
  then show ?thesis by (auto intro!: ready_unlocked simp: blocked_def)
next
  case (schedule_capacity c)
  then show ?thesis by (auto intro: ready_locked)
next
  case (schedule_refused c lc)
  then show ?thesis using lcBegin_refused [of "sc_lifecycle s" lc] by (auto intro!: ready_unlocked simp: blocked_def)
next
  case (schedule_reserved c lc)
  then show ?thesis by (auto intro: ready_locked)
next
  case (schedule_sent c)
  then show ?thesis by (auto intro!: ready_unlocked)
next
  case (schedule_full c)
  then show ?thesis by (simp add: ready_inv_def)
next
  case (schedule_release c)
  show ?thesis
  proof (cases "sc_main s \<in> {MSelect, MScheduling}")
    case True
    then have "sc_ready s \<or> (sc_drainFlag s \<and> \<not> ring)"
      using inv(1) schedule_release(2) by (auto simp: ready_inv_def)
    then show ?thesis using schedule_release(1) by (auto intro!: ready_unlocked simp: blocked_def)
  next
    case False
    then show ?thesis using inv(2) schedule_release by (auto intro!: ready_away simp: lock_inv_def)
  qed
next
  case work_done
  then show ?thesis using inv(1) by (auto simp: ready_inv_def)
next
  case work_schedule
  then show ?thesis by (auto intro: ready_locked)
next
  case (update_count num)
  then show ?thesis using inv(1) by (auto simp: ready_inv_def)
next
  case call_schedule
  then show ?thesis by (auto intro: ready_locked)
next
  case (lifecycle_transition l state l')
  then have "lc_state l' = state" by (auto simp: transition_set_def notifyLocked_def split: if_splits)
  then show ?thesis
    using inv(1) lifecycle_transition(1,2) by (cases "state = DesiredActive") (auto simp: ready_inv_def blocked_def)
next
  case (request_refused err lc)
  then show ?thesis using same_state_calls(4) [OF request_refused(3)] by (intro ready_quiet [OF inv(1)]) simp_all
next
  case (request_reserved err lc)
  then show ?thesis using same_state_calls(4) [OF request_reserved(3)] by (intro ready_quiet [OF inv(1)]) simp_all
next
  case (lifecycle_other l l')
  then show ?thesis by (intro ready_quiet [OF inv(1)]) (simp_all add: same_state_def)
next
  case close_take
  then show ?thesis using inv(4) by (auto intro!: ready_drained simp: closing_inv_def)
qed
  ((rule ready_away; (simp; fail)) | (rule ready_quiet [OF inv(1)]; (simp add: same_state_calls; fail)))+

section \<open>Properties\<close>

definition sc_inv :: "bool \<Rightarrow> scheduler \<Rightarrow> bool" where
  "sc_inv ring s \<longleftrightarrow> protocol_inv s \<and> lock_inv s \<and> active_inv s \<and> task_inv s \<and> account_inv s \<and>
     closing_inv ring s \<and> ready_inv ring s"

interpretation sc: step_system sc_start "sc_step ring" "sc_inv ring" for ring
proof unfold_locales
  show "sc_inv ring s" if start: "sc_start s" for s
  proof -
    obtain n lc where s: "s = sc_new n lc" and lc: "\<forall>l. lc = Some l \<longrightarrow> lc_admissions l = 0 \<and> lc_jobs l = 0"
      using start by (auto simp: sc_start_def)
    have "protocol_inv s" "lock_inv s" "active_inv s" "task_inv s" "closing_inv ring s" "ready_inv ring s"
      by (simp_all add: s sc_new_def protocol_inv_def lock_inv_def active_inv_def task_inv_def in_transit_def
          closing_inv_def ready_inv_def)
    moreover have "reservations s = 0" "tracked_tasks s = 0" "sc_lifecycle s = lc"
      by (simp_all add: s sc_new_def count_defs)
    ultimately show ?thesis using lc by (simp add: sc_inv_def account_inv_def)
  qed
  show "sc_inv ring t" if "sc_inv ring s" "sc_step ring s t" for s t
    using that(1) protocol_step [OF _ _ that(2)] lock_step [OF _ _ that(2)] active_step [OF _ _ that(2)]
      task_step [OF _ _ _ that(2)] account_step [OF _ _ _ that(2)] closing_step [OF _ that(2)]
      ready_step [OF _ _ _ _ that(2)]
    unfolding sc_inv_def by blast
qed

text \<open>
  C4: the number of active workers the queue reports is the number of work wrappers that run, and
  it never exceeds the highest worker count that was configured so far.
\<close>

theorem scheduler_concurrency_bound:
  assumes "reachable_from sc_start (sc_step ring) s"
  shows "sc_active s = int (sc_running s) \<and> 0 \<le> sc_active s \<and> sc_active s \<le> sc_peak s"
  using sc.invar_reachable [OF assms] by (simp add: sc_inv_def active_inv_def)

text \<open>
  C5: the scheduler loses no task and hands out none twice: every task the worker gave is launched
  in exactly one work wrapper or is the one task still on its way there, and none is on its way
  once the loop has ended, whether by quit, drain or a closed channel. Nothing is sent on or
  closed after the task channel was closed, and the loop waits for a task only while a request
  goroutine will still answer or has answered.
\<close>

theorem scheduler_no_task_lost:
  assumes "reachable_from sc_start (sc_step ring) s"
  shows "sc_requested s = sc_launched s + in_transit s \<and> in_transit s \<le> 1 \<and>
    (sc_main s = MExit \<longrightarrow> sc_requested s = sc_launched s) \<and> \<not> sc_panicked s \<and>
    (sc_main s = MReceive \<longrightarrow> sc_request s \<noteq> RNone \<or> sc_tasks s \<noteq> None)"
proof -
  have inv: "protocol_inv s" "task_inv s"
    using sc.invar_reachable [OF assms] by (simp_all add: sc_inv_def)
  have "holds_task (sc_request s) \<longrightarrow> sc_request s \<notin> {RNone, RClosed}" by (cases "sc_request s") simp_all
  then have "in_transit s \<le> 1 \<and> (sc_main s = MExit \<longrightarrow> in_transit s = 0)"
    using inv(1) by (auto simp: in_transit_def protocol_inv_def)
  then show ?thesis
    using inv by (simp add: task_inv_def protocol_inv_def)
qed

text \<open>
  C24: readiness is never lost: when the loop waits without a ready token, and no schedule call is
  under way or due, then capacity is used up, the lifecycle does not admit, or a backend is
  drained; each of these ends with a call of schedule.
\<close>

theorem scheduler_ready_not_lost:
  assumes "reachable_from sc_start (sc_step ring) s" and "sc_main s = MSelect" "\<not> sc_ready s"
    and "sc_lock s = None" "sc_calls s = 0" "sc_finishing s = 0"
  shows "sc_workerCount s \<le> int (sc_running s) \<or> (sc_drainFlag s \<and> \<not> ring) \<or>
    (\<exists>l. sc_lifecycle s = Some l \<and> lc_state l \<noteq> DesiredActive)"
  using sc.invar_reachable [OF assms(1)] assms(2-)
  by (auto simp: sc_inv_def ready_inv_def blocked_def active_inv_def)


text \<open>
  C26: a request goroutine that ends by closing the task channel keeps its admission reserved: in
  every later state the lifecycle still counts it, and neither a pause nor a drain can complete.
\<close>

theorem scheduler_shutdown_leaks:
  assumes "reachable_from sc_start (sc_step ring) s" and "sc_request s = RClosed" and "sc_lifecycle s = Some l"
    and "(sc_step ring)\<^sup>*\<^sup>* s t"
  shows "\<exists>l'. sc_lifecycle t = Some l' \<and> \<not> transitionCompleteLocked l' DesiredPaused \<and>
    \<not> transitionCompleteLocked l' DesiredDraining"
proof -
  have "sc_request b = RClosed \<and> sc_lifecycle b \<noteq> None"
    if "sc_inv ring a" "sc_request a = RClosed \<and> sc_lifecycle a \<noteq> None" "sc_step ring a b" for a b
    using that(3,1,2)
    by cases (auto simp: sc_inv_def protocol_inv_def lcEndAdmission_def lcBegin_def lcEndJob_def split: option.splits)
  then have closed: "sc_request t = RClosed \<and> sc_lifecycle t \<noteq> None"
    using sc.stable_along [of ring "\<lambda>s. sc_request s = RClosed \<and> sc_lifecycle s \<noteq> None" s t] assms
      sc.invar_reachable by blast
  then obtain l' where l': "sc_lifecycle t = Some l'" by blast
  have "sc_inv ring t" using sc.invar_steps [OF assms(4) sc.invar_reachable [OF assms(1)]] .
  then have "unat (lc_admissions l') = reservations t" using l' by (simp add: sc_inv_def account_inv_def)
  then have "lc_admissions l' \<noteq> 0" using closed by (auto simp: reservations_def)
  then show ?thesis using l' by (simp add: transitionCompleteLocked_def)
qed

section \<open>A concrete run\<close>

text \<open>
  A managed backend with one worker slot and nothing to hand out: the loop schedules itself, its
  request finds no task, the queue is shut down while the request waits, and the request closes
  the task channel.
\<close>

definition sc_at :: "main_pc \<Rightarrow> request_pc \<Rightarrow> (schedule_pc \<times> schedule_caller) option \<Rightarrow> bool \<Rightarrow> 32 word \<Rightarrow> nat \<Rightarrow> bool \<Rightarrow>
    scheduler" where
  "sc_at main request lock ready admissions changed quit =
     (sc_new 1 (Some (sample_lifecycle\<lparr>lc_admissions := admissions, lc_changed := changed\<rparr>)))
       \<lparr>sc_main := main, sc_request := request, sc_lock := lock, sc_ready := ready, sc_quit := quit,
        sc_closed := (request = RClosed)\<rparr>"

lemma sc_step_to: "sc_step ring s t \<Longrightarrow> t = t' \<Longrightarrow> sc_step ring s t'"
  by simp

lemmas sc_at_simps = sc_at_def sc_new_def sample_lifecycle_def lcBegin_def BeginAdmission_def notifyLocked_def
  lcEndAdmission_def EndAdmission_def

lemma sc_run_ready: "(sc_step False)\<^sup>*\<^sup>* (sc_at MSchedule RNone None False 0 0 False) (sc_at MSelect RNone None True 1 1 False)"
proof -
  have "sc_step False (sc_at MSchedule RNone None False 0 0 False) (sc_at MScheduling RNone (Some (SCheck, CMain)) False 0 0 False)"
    by (rule sc_step_to [OF sc_step.main_schedule]) (simp_all add: sc_at_simps)
  moreover have "sc_step False (sc_at MScheduling RNone (Some (SCheck, CMain)) False 0 0 False) (sc_at MScheduling RNone (Some (SBusy, CMain)) False 0 0 False)"
    by (rule sc_step_to [OF sc_step.schedule_check [where c = CMain]]) (simp_all add: sc_at_simps)
  moreover have "sc_step False (sc_at MScheduling RNone (Some (SBusy, CMain)) False 0 0 False) (sc_at MScheduling RNone (Some (SBegin, CMain)) False 0 0 False)"
    by (rule sc_step_to [OF sc_step.schedule_capacity [where c = CMain]]) (simp_all add: sc_at_simps)
  moreover have "sc_step False (sc_at MScheduling RNone (Some (SBegin, CMain)) False 0 0 False) (sc_at MScheduling RNone (Some (SSend, CMain)) False 1 1 False)"
    by (rule sc_step_to [OF sc_step.schedule_reserved [where c = CMain and lc = "Some (sample_lifecycle\<lparr>lc_admissions := 1, lc_changed := 1\<rparr>)"]]) (simp_all add: sc_at_simps)
  moreover have "sc_step False (sc_at MScheduling RNone (Some (SSend, CMain)) False 1 1 False) (sc_at MSelect RNone None True 1 1 False)"
    by (rule sc_step_to [OF sc_step.schedule_sent [where c = CMain]]) (simp_all add: sc_at_simps)
  ultimately show ?thesis by (meson converse_rtranclp_into_rtranclp r_into_rtranclp)
qed

lemma sc_run_request: "(sc_step False)\<^sup>*\<^sup>* (sc_at MSelect RNone None True 1 1 False) (sc_at MReceive RRequest None False 1 1 False)"
proof -
  have "sc_step False (sc_at MSelect RNone None True 1 1 False) (sc_at MReady RNone None False 1 1 False)"
    by (rule sc_step_to [OF sc_step.main_ready]) (simp_all add: sc_at_simps)
  moreover have "sc_step False (sc_at MReady RNone None False 1 1 False) (sc_at MCapacity RNone None False 1 1 False)"
    by (rule sc_step_to [OF sc_step.main_ready_check]) (simp_all add: sc_at_simps)
  moreover have "sc_step False (sc_at MCapacity RNone None False 1 1 False) (sc_at MLaunch RNone None False 1 1 False)"
    by (rule sc_step_to [OF sc_step.main_capacity]) (simp_all add: sc_at_simps)
  moreover have "sc_step False (sc_at MLaunch RNone None False 1 1 False) (sc_at MReceive RRequest None False 1 1 False)"
    by (rule sc_step_to [OF sc_step.main_launch]) (simp_all add: sc_at_simps)
  ultimately show ?thesis by (meson converse_rtranclp_into_rtranclp r_into_rtranclp)
qed

lemma sc_run_poll: "(sc_step False)\<^sup>*\<^sup>* (sc_at MReceive RRequest None False 1 1 False) (sc_at MReceive (RBegin OtherError) None False 0 2 False)"
proof -
  have "sc_step False (sc_at MReceive RRequest None False 1 1 False) (sc_at MReceive (RAnswer False OtherError) None False 1 1 False)"
    by (rule sc_step_to [OF sc_step.request_answer [where hasTask = False and err = OtherError]]) (simp_all add: sc_at_simps)
  moreover have "sc_step False (sc_at MReceive (RAnswer False OtherError) None False 1 1 False) (sc_at MReceive (RNoTask OtherError) None False 0 2 False)"
    by (rule sc_step_to [OF sc_step.request_none [where err = OtherError]]) (simp_all add: sc_at_simps)
  moreover have "sc_step False (sc_at MReceive (RNoTask OtherError) None False 0 2 False) (sc_at MReceive (RWait OtherError) None False 0 2 False)"
    by (rule sc_step_to [OF sc_step.request_poll [where err = OtherError]]) (simp_all add: sc_at_simps)
  moreover have "sc_step False (sc_at MReceive (RWait OtherError) None False 0 2 False) (sc_at MReceive (RDrain OtherError) None False 0 2 False)"
    by (rule sc_step_to [OF sc_step.request_woken [where err = OtherError]]) (simp_all add: sc_at_simps)
  moreover have "sc_step False (sc_at MReceive (RDrain OtherError) None False 0 2 False) (sc_at MReceive (RBegin OtherError) None False 0 2 False)"
    by (rule sc_step_to [OF sc_step.request_drain [where err = OtherError]]) (simp_all add: sc_at_simps)
  ultimately show ?thesis by (meson converse_rtranclp_into_rtranclp r_into_rtranclp)
qed

lemma sc_run_closed: "(sc_step False)\<^sup>*\<^sup>* (sc_at MReceive (RBegin OtherError) None False 0 2 False) (sc_at MReceive RClosed None False 1 3 True)"
proof -
  have "sc_step False (sc_at MReceive (RBegin OtherError) None False 0 2 False) (sc_at MReceive (RBegin OtherError) None False 0 2 True)"
    by (rule sc_step_to [OF sc_step.shutdown]) (simp_all add: sc_at_simps)
  moreover have "sc_step False (sc_at MReceive (RBegin OtherError) None False 0 2 True) (sc_at MReceive (RQuit OtherError) None False 1 3 True)"
    by (rule sc_step_to [OF sc_step.request_reserved [where err = OtherError and lc = "Some (sample_lifecycle\<lparr>lc_admissions := 1, lc_changed := 3\<rparr>)"]]) (simp_all add: sc_at_simps)
  moreover have "sc_step False (sc_at MReceive (RQuit OtherError) None False 1 3 True) (sc_at MReceive RClose None False 1 3 True)"
    by (rule sc_step_to [OF sc_step.request_quit [where err = OtherError]]) (simp_all add: sc_at_simps)
  moreover have "sc_step False (sc_at MReceive RClose None False 1 3 True) (sc_at MReceive RClosed None False 1 3 True)"
    by (rule sc_step_to [OF sc_step.request_close]) (simp_all add: sc_at_simps)
  ultimately show ?thesis by (meson converse_rtranclp_into_rtranclp r_into_rtranclp)
qed

lemma sc_at_start: "reachable_from sc_start (sc_step False) (sc_at MSchedule RNone None False 0 0 False)"
  by (rule reachable_from.reach_start) (auto simp: sc_start_def sc_at_def sc_new_def sample_lifecycle_def)

lemmas sc_at_ready = reachable_from_steps [OF sc_run_ready sc_at_start]

lemmas sc_at_request = reachable_from_steps [OF sc_run_request sc_at_ready]

lemmas sc_at_closed = reachable_from_steps [OF sc_run_closed reachable_from_steps [OF sc_run_poll sc_at_request]]

theorem scheduler_concurrency_bound_witness: "sc_active (sc_at MReceive RRequest None False 1 1 False) \<le> 1"
  using scheduler_concurrency_bound [OF sc_at_request] by (simp add: sc_at_def sc_new_def)

theorem scheduler_no_task_lost_witness: "sc_requested (sc_at MReceive RRequest None False 1 1 False) = 0 \<and> in_transit (sc_at MReceive RRequest None False 1 1 False) = 0"
  using scheduler_no_task_lost [OF sc_at_request] by (simp add: sc_at_def sc_new_def)


theorem scheduler_shutdown_leaks_witness:
  "\<exists>l. sc_lifecycle (sc_at MReceive RClosed None False 1 3 True) = Some l \<and> \<not> transitionCompleteLocked l DesiredDraining"
  using scheduler_shutdown_leaks [OF sc_at_closed _ _ rtranclp.rtrancl_refl,
      of "sample_lifecycle\<lparr>lc_admissions := 1, lc_changed := 3\<rparr>"]
  by (simp add: sc_at_def sc_new_def)


text \<open>Without capacity the loop waits for a call of schedule.\<close>

definition sc_idle :: "main_pc \<Rightarrow> (schedule_pc \<times> schedule_caller) option \<Rightarrow> scheduler" where
  "sc_idle main lock = (sc_new 0 None)\<lparr>sc_main := main, sc_lock := lock\<rparr>"

lemma sc_idle_reachable: "reachable_from sc_start (sc_step False) (sc_idle MSelect None)"
proof -
  have "reachable_from sc_start (sc_step False) (sc_idle MSchedule None)"
    by (rule reachable_from.reach_start) (auto simp: sc_start_def sc_idle_def sc_new_def)
  moreover have "sc_step False (sc_idle MSchedule None) (sc_idle MScheduling (Some (SCheck, CMain)))"
    by (rule sc_step_to [OF sc_step.main_schedule]) (simp_all add: sc_idle_def sc_new_def)
  moreover have "sc_step False (sc_idle MScheduling (Some (SCheck, CMain))) (sc_idle MScheduling (Some (SBusy, CMain)))"
    by (rule sc_step_to [OF sc_step.schedule_check [where c = CMain]]) (simp_all add: sc_idle_def sc_new_def)
  moreover have "sc_step False (sc_idle MScheduling (Some (SBusy, CMain))) (sc_idle MSelect None)"
    by (rule sc_step_to [OF sc_step.schedule_busy [where c = CMain]]) (simp_all add: sc_idle_def sc_new_def)
  ultimately show ?thesis by (meson reachable_from.reach_step)
qed

theorem scheduler_ready_not_lost_witness: "sc_workerCount (sc_idle MSelect None) \<le> 0"
  using scheduler_ready_not_lost [OF sc_idle_reachable] by (simp add: sc_idle_def sc_new_def)

end
