(* ===== verification/Stream_Semantics.thy ===== *)
theory Stream_Semantics
  imports Records Go_Text
begin

text \<open>
  The transport-neutral stream semantics of src/internal/streamqueue: requests and their
  validation, consumer-group depth at 64 bits, the age of a server-generated identifier, and the
  metadata a failure record takes from a job envelope. A \<^verbatim>\<open>RequestError\<close> unwraps to the stable
  classification and its cause; its command and field are only part of its text.
\<close>

section \<open>Errors\<close>

definition ErrInvalidSemanticRequest :: go_err where
  "ErrInvalidSemanticRequest = sentinel ''streamqueue.ErrInvalidSemanticRequest''"

definition ErrMalformedDelivery :: go_err where
  "ErrMalformedDelivery = sentinel ''streamqueue.ErrMalformedDelivery''"

definition invalidRequest :: "error \<Rightarrow> error" where
  "invalidRequest cause = Some (Joined [Some ErrInvalidSemanticRequest, cause])"

definition malformedIdentifier :: go_err where
  "malformedIdentifier = Wrapped (Some ErrMalformedDelivery)"

section \<open>Requests\<close>

definition MaxBatchSize :: int where "MaxBatchSize = 256"

record Delivery =
  dl_ID :: string
  dl_Body :: bytes
  dl_Attempts :: int
  dl_Reclaimed :: bool
  dl_OriginalDeadLetterID :: string
  dl_PriorDeadLetterID :: string
  dl_ReplayGeneration :: "32 word"

record FailureMetadata =
  fm_Classification :: classification
  fm_Code :: string

definition FailureMetadata_Validate :: "FailureMetadata \<Rightarrow> error" where
  "FailureMetadata_Validate m = Failure_Validate (fm_Classification m) (fm_Code m)"

record AddRequest =
  add_Stream :: string
  add_MaxLength :: int
  add_Body :: bytes

definition AddRequest_Validate :: "AddRequest \<Rightarrow> int \<Rightarrow> error" where
  "AddRequest_Validate r maxPayloadBytes =
     (if TrimSpace (add_Stream r) = '''' then invalidRequest (Some (sentinel ''stream is required''))
      else if add_MaxLength r \<le> 0 then invalidRequest (Some (sentinel ''maximum length must be positive''))
      else if maxPayloadBytes \<le> 0 then invalidRequest (Some (sentinel ''payload limit must be positive''))
      else if int (length (add_Body r)) > maxPayloadBytes
      then invalidRequest (Some (sentinel ''payload exceeds limit''))
      else None)"

fun validateIdentity_loop :: "(string \<times> string) list \<Rightarrow> error" where
  "validateIdentity_loop [] = None"
| "validateIdentity_loop ((name, v) # rest) =
     (if TrimSpace v = '''' then invalidRequest (Some (sentinel (name @ '' is required'')))
      else validateIdentity_loop rest)"

definition validateIdentity :: "string \<Rightarrow> string \<Rightarrow> string \<Rightarrow> error" where
  "validateIdentity stream grp consumer =
     validateIdentity_loop [(''stream'', stream), (''group'', grp), (''consumer'', consumer)]"

record ReadRequest =
  rd_Stream :: string
  rd_Group :: string
  rd_Consumer :: string
  rd_Count :: int
  rd_Block :: duration

definition ReadRequest_Validate :: "ReadRequest \<Rightarrow> error" where
  "ReadRequest_Validate r =
     (case validateIdentity (rd_Stream r) (rd_Group r) (rd_Consumer r) of
        Some err \<Rightarrow> Some err
      | None \<Rightarrow>
          if rd_Count r \<le> 0 \<or> rd_Count r > MaxBatchSize
          then invalidRequest (Some (sentinel ''batch size is outside bounds''))
          else if rd_Block r \<le> 0 then invalidRequest (Some (sentinel ''block time must be positive''))
          else None)"

record ClaimRequest =
  cl_Stream :: string
  cl_Group :: string
  cl_Consumer :: string
  cl_MinIdle :: duration
  cl_Start :: string
  cl_Count :: int

definition ClaimRequest_Validate :: "ClaimRequest \<Rightarrow> error" where
  "ClaimRequest_Validate r =
     (case validateIdentity (cl_Stream r) (cl_Group r) (cl_Consumer r) of
        Some err \<Rightarrow> Some err
      | None \<Rightarrow>
          if cl_MinIdle r \<le> 0 then invalidRequest (Some (sentinel ''minimum idle time must be positive''))
          else if TrimSpace (cl_Start r) = '''' then invalidRequest (Some (sentinel ''cursor is required''))
          else if cl_Count r \<le> 0 \<or> cl_Count r > MaxBatchSize
          then invalidRequest (Some (sentinel ''batch size is outside bounds''))
          else None)"

record ClaimResult =
  cr_Next :: string
  cr_Deliveries :: "Delivery list"

record AckRequest =
  ack_Stream :: string
  ack_Group :: string
  ack_ID :: string

definition AckRequest_Validate :: "AckRequest \<Rightarrow> error" where
  "AckRequest_Validate r =
     (if TrimSpace (ack_Stream r) = '''' then invalidRequest (Some (sentinel ''stream is required''))
      else if TrimSpace (ack_Group r) = '''' then invalidRequest (Some (sentinel ''group is required''))
      else if TrimSpace (ack_ID r) = '''' then invalidRequest (Some (sentinel ''identifier is required''))
      else None)"

definition validateReplayLineage :: "Delivery \<Rightarrow> error" where
  "validateReplayLineage d =
     (let hasAny = dl_OriginalDeadLetterID d \<noteq> '''' \<or> dl_PriorDeadLetterID d \<noteq> '''' \<or> dl_ReplayGeneration d \<noteq> 0
      in if \<not> hasAny then None
         else if TrimSpace (dl_OriginalDeadLetterID d) = '''' \<or> TrimSpace (dl_PriorDeadLetterID d) = '''' \<or>
                 length (dl_OriginalDeadLetterID d) > MaxIdentityBytes \<or>
                 length (dl_PriorDeadLetterID d) > MaxIdentityBytes \<or> dl_ReplayGeneration d = 0
         then Some (sentinel ''replay lineage must be complete and bounded'')
         else None)"

record DeadLetterRequest =
  dlr_Source :: string
  dlr_Destination :: string
  dlr_Group :: string
  dlr_Delivery :: Delivery
  dlr_Failure :: FailureMetadata

definition DeadLetterRequest_Validate :: "DeadLetterRequest \<Rightarrow> int \<Rightarrow> error" where
  "DeadLetterRequest_Validate r maxPayloadBytes =
     (if TrimSpace (dlr_Source r) = '''' then invalidRequest (Some (sentinel ''source is required''))
      else if TrimSpace (dlr_Destination r) = '''' \<or> dlr_Destination r = dlr_Source r
      then invalidRequest (Some (sentinel ''destination must be distinct''))
      else if TrimSpace (dlr_Group r) = '''' then invalidRequest (Some (sentinel ''group is required''))
      else if TrimSpace (dl_ID (dlr_Delivery r)) = ''''
      then invalidRequest (Some (sentinel ''identifier is required''))
      else if dl_Attempts (dlr_Delivery r) < 1
      then invalidRequest (Some (sentinel ''attempts must be positive''))
      else case validateReplayLineage (dlr_Delivery r) of
          Some err \<Rightarrow> invalidRequest (Some err)
        | None \<Rightarrow>
            (case FailureMetadata_Validate (dlr_Failure r) of
               Some err \<Rightarrow> invalidRequest (Some err)
             | None \<Rightarrow> AddRequest_Validate \<lparr>add_Stream = dlr_Destination r, add_MaxLength = 1,
                          add_Body = dl_Body (dlr_Delivery r)\<rparr> maxPayloadBytes))"

section \<open>Depth and age\<close>

record GroupState =
  gs_Pending :: "64 word"
  gs_Lag :: "64 word"
  gs_OldestPendingID :: string

record Stats =
  st_Depth :: "64 word"
  st_Pending :: "64 word"
  st_Lag :: "64 word"
  st_LagKnown :: bool

text \<open>\<^verbatim>\<open>GroupState.Stats\<close> on int64 values: the sum of pending and lag may wrap.\<close>

definition GroupState_Stats :: "GroupState \<Rightarrow> Stats" where
  "GroupState_Stats s =
     (let stats = \<lparr>st_Depth = - 1, st_Pending = gs_Pending s, st_Lag = gs_Lag s, st_LagKnown = False\<rparr>
      in if sint (gs_Lag s) \<ge> 0
         then stats\<lparr>st_Depth := gs_Pending s + gs_Lag s, st_LagKnown := True\<rparr> else stats)"

text \<open>\<^verbatim>\<open>strings.Cut\<close> at a byte, \<^verbatim>\<open>strconv.ParseUint\<close>, \<^verbatim>\<open>time.UnixMilli\<close> and \<^verbatim>\<open>Time.Sub\<close>.\<close>

fun strings_Cut :: "char \<Rightarrow> string \<Rightarrow> (string \<times> string) option" where
  "strings_Cut sep [] = None"
| "strings_Cut sep (c # cs) =
     (if c = sep then Some ('''', cs) else map_option (\<lambda>(before, after). (c # before, after)) (strings_Cut sep cs))"

definition ParseUint64 :: "string \<Rightarrow> nat option" where
  "ParseUint64 s =
     (if s = '''' then None
      else case digits_value 0 s of None \<Rightarrow> None | Some n \<Rightarrow> if n < 2 ^ 64 then Some n else None)"

definition UnixMilli :: "int \<Rightarrow> go_time" where
  "UnixMilli ms = GoTime (62135596800 * 10 ^ 9 + ms * 10 ^ 6) 1"

definition time_Sub :: "go_time \<Rightarrow> go_time \<Rightarrow> duration" where
  "time_Sub t u = max (- (2 ^ 63)) (min (2 ^ 63 - 1) (nanos t - nanos u))"

definition MessageAge :: "string \<Rightarrow> go_time \<Rightarrow> go_err + duration" where
  "MessageAge ident now =
     (case strings_Cut (CHR ''-'') ident of
        None \<Rightarrow> Inl malformedIdentifier
      | Some (milliseconds, sequence) \<Rightarrow>
          (case Atoi milliseconds of
             None \<Rightarrow> Inl malformedIdentifier
           | Some timestamp \<Rightarrow>
               (case ParseUint64 sequence of
                  None \<Rightarrow> Inl malformedIdentifier
                | Some _ \<Rightarrow> Inr (max (time_Sub now (UnixMilli timestamp)) 0))))"

section \<open>Record metadata\<close>

text \<open>\<^verbatim>\<open>MessageMetadata\<close>: \<open>decode\<close> is the JSON codec of job.DecodeE.\<close>

definition MessageMetadata :: "(bytes \<Rightarrow> go_err + 'w Message) \<Rightarrow> bytes \<Rightarrow> Metadata option" where
  "MessageMetadata decode body =
     (case DecodeE decode body DefaultMaxMessageBytes of
        Inl err \<Rightarrow> None
      | Inr message \<Rightarrow> msg_Metadata message)"

definition ApplyMessageMetadata :: "JobRecord \<Rightarrow> Metadata option \<Rightarrow> JobRecord" where
  "ApplyMessageMetadata r metadata =
     (case metadata of None \<Rightarrow> r
      | Some m \<Rightarrow> r\<lparr>jr_OriginalID := (if md_OriginalID m \<noteq> '''' then md_OriginalID m else jr_OriginalID r),
          jr_PayloadSchemaVersion := md_PayloadSchemaVersion m,
          jr_Payload := (jr_Payload r)\<lparr>pl_ContentType := md_ContentType m\<rparr>,
          jr_EnqueuedAt := (case md_EnqueuedAt m of None \<Rightarrow> jr_EnqueuedAt r | Some t \<Rightarrow> Some t),
          jr_RetryPolicy := md_RetryPolicy m, jr_HandlerType := md_HandlerType m, jr_JobType := md_JobType m,
          jr_Tags := copy_map (md_Tags m), jr_TraceID := md_TraceID m, jr_TenantID := md_TenantID m,
          jr_ProducerVersion := md_ProducerVersion m\<rparr>)"

section \<open>Properties\<close>

lemma metadata_bounded_accepted: "Metadata_Validate m = None \<longleftrightarrow> metadata_bounded m"
  by (simp add: Metadata_Validate_verdict invalid_message_def)

lemma text_bounded_identity: "text_bounded 256 s \<longleftrightarrow> \<not> invalidIdentity s"
  by (auto simp: text_bounded_def invalidIdentity_def MaxIdentityBytes_def)

lemma JobRecord_Validate_v1:
  assumes "rearranges ifs" and "rearranges its" and "jr_EnvelopeVersion r = 1"
  shows "JobRecord_Validate ifs its r = None \<longleftrightarrow> kind_valid (jr_Kind r) \<and>
    \<not> invalidIdentity (jr_ID r) \<and> \<not> invalidIdentity (jr_Backend r) \<and> \<not> invalidIdentity (jr_Queue r) \<and>
    \<not> IsZero (jr_OccurredAt r) \<and> jr_Attempts r \<noteq> 0 \<and> \<not> invalidIdentity (jr_FailureCode r) \<and>
    payload_disclosure (jr_Payload r) \<and> v1_accepted r"
  unfolding validate_v1_iff [OF assms(1,2), symmetric]
  using assms(3) by (auto simp: JobRecord_Validate_def Payload_validate_iff CurrentEnvelopeVersion_def)

text \<open>
  A current record that was valid before stays valid when it takes the metadata of an accepted
  job envelope, as long as the job was not enqueued after its first delivery; the identities that
  come from the backend are never overwritten by the envelope.
\<close>

theorem ApplyMessageMetadata_valid:
  assumes "rearranges ifs" and "rearranges its" and "jr_EnvelopeVersion r = 1"
    and "JobRecord_Validate ifs its r = None"
    and "Metadata_Validate m = None" and "map_keys_distinct (md_Tags m)"
    and "\<forall>t first. md_EnqueuedAt m = Some t \<and> jr_FirstDeliveryAt r = Some first \<longrightarrow> nanos t \<le> nanos first"
    and "r' = ApplyMessageMetadata r (Some m)"
  shows "JobRecord_Validate ifs its r' = None \<and> jr_ID r' = jr_ID r \<and> jr_Backend r' = jr_Backend r \<and>
    jr_Queue r' = jr_Queue r \<and> jr_Stream r' = jr_Stream r \<and> jr_SourceRecordID r' = jr_SourceRecordID r \<and>
    jr_ConsumerGroup r' = jr_ConsumerGroup r \<and> jr_Tags r' = md_Tags m"
proof -
  have ver: "jr_EnvelopeVersion r' = 1" using assms(3,8) by (simp add: ApplyMessageMetadata_def)
  have m: "metadata_bounded m" using assms(5) by (simp add: metadata_bounded_accepted)
  then have vals: "\<forall>v \<in> set (metadata_values m). v = '''' \<or> \<not> invalidIdentity v"
    and enq: "\<forall>t. md_EnqueuedAt m = Some t \<longrightarrow> nanos t \<noteq> 0"
    and tags: "length (map_entries (md_Tags m)) \<le> 32"
      "\<forall>(k, v) \<in> set (map_entries (md_Tags m)). \<not> invalidIdentity k \<and> \<not> invalidIdentity v"
    by (auto simp: metadata_bounded_def entries_bounded_def text_bounded_identity)
  note r = assms(4) [unfolded JobRecord_Validate_v1 [OF assms(1-3)]]
  have upd: "r' = r\<lparr>jr_OriginalID := (if md_OriginalID m \<noteq> '''' then md_OriginalID m else jr_OriginalID r),
      jr_PayloadSchemaVersion := md_PayloadSchemaVersion m,
      jr_Payload := (jr_Payload r)\<lparr>pl_ContentType := md_ContentType m\<rparr>,
      jr_EnqueuedAt := (case md_EnqueuedAt m of None \<Rightarrow> jr_EnqueuedAt r | Some t \<Rightarrow> Some t),
      jr_RetryPolicy := md_RetryPolicy m, jr_HandlerType := md_HandlerType m, jr_JobType := md_JobType m,
      jr_Tags := md_Tags m, jr_TraceID := md_TraceID m, jr_TenantID := md_TenantID m,
      jr_ProducerVersion := md_ProducerVersion m\<rparr>"
    using assms(8) copy_map_id [OF assms(6)] by (simp add: ApplyMessageMetadata_def)
  have payload: "payload_disclosure (jr_Payload r')"
    using r vals by (simp add: upd payload_disclosure_def metadata_values_def)
  have fields: "\<forall>(f, v) \<in> set (optional_fields r'). v = '''' \<or> \<not> invalidIdentity v"
    using r vals by (auto simp: v1_accepted_def upd optional_fields_def metadata_values_def)
  have times: "ordered_times r'"
    using r assms(7) enq by (auto simp: v1_accepted_def upd ordered_times_def split: option.split)
  have "v1_accepted r'"
    using r fields times tags unfolding v1_accepted_def by (auto simp: upd lineage_complete_def)
  then have "JobRecord_Validate ifs its r' = None"
    unfolding JobRecord_Validate_v1 [OF assms(1,2) ver] using r payload by (simp add: upd)
  then show ?thesis by (simp add: upd)
qed

lemma strings_Cut_append: "sep \<notin> set before \<Longrightarrow> strings_Cut sep (before @ sep # after) = Some (before, after)"
  by (induction before) auto

lemma Itoa_nat_digits: "c \<in> set (Itoa_nat n) \<Longrightarrow> \<exists>d < 10. c = digit_char d"
proof (induction n rule: Itoa_nat.induct)
  case (1 n)
  then show ?case
    by (subst (asm) (2) Itoa_nat.simps) (auto split: if_splits intro: exI [of _ "n mod 10"])
qed

lemma ParseUint64_Itoa: "n < 2 ^ 64 \<Longrightarrow> ParseUint64 (Itoa_nat n) = Some n"
  by (simp add: ParseUint64_def digits_value_Itoa)

text \<open>
  C38: the age of an entry whose identifier the server formed from a time in milliseconds and a
  sequence number is the time since then, never negative and cut off at the longest duration;
  the clock being behind the server gives age zero.
\<close>

theorem MessageAge_of_identifier:
  assumes "int ms < 2 ^ 63" and "number < 2 ^ 64"
  shows "MessageAge (Itoa (int ms) @ ''-'' @ Itoa (int number)) now =
    Inr (max 0 (min (2 ^ 63 - 1) (nanos now - (62135596800 * 10 ^ 9 + int ms * 10 ^ 6))))"
proof -
  have ids: "Itoa (int ms) = Itoa_nat ms" "Itoa (int number) = Itoa_nat number" by (simp_all add: Itoa_def)
  have "CHR ''-'' \<notin> set (Itoa_nat ms)"
    using Itoa_nat_digits digit_char_sign by metis
  then have "strings_Cut (CHR ''-'') (Itoa_nat ms @ CHR ''-'' # Itoa_nat number) = Some (Itoa_nat ms, Itoa_nat number)"
    by (rule strings_Cut_append)
  moreover have "Atoi (Itoa_nat ms) = Some (int ms)"
    using Atoi_Itoa [OF assms(1)] by (simp add: ids)
  ultimately show ?thesis
    unfolding ids using ParseUint64_Itoa [OF assms(2)]
    by (simp add: MessageAge_def time_Sub_def UnixMilli_def max_def min_def)
qed

theorem MessageAge_of_identifier_witness:
  "MessageAge (Itoa (int 5) @ ''-'' @ Itoa (int 7)) (GoTime (62135596800 * 10 ^ 9 + 8 * 10 ^ 6) 0) = Inr 3000000"
  by (subst MessageAge_of_identifier) simp_all

theorem ApplyMessageMetadata_valid_witness:
  "JobRecord_Validate rev (\<lambda>xs. xs)
     (ApplyMessageMetadata sample_record (Some (sample_metadata [(''a'', ''x''), (''b'', ''y'')]))) = None"
proof -
  have "metadata_bounded (sample_metadata [(''a'', ''x''), (''b'', ''y'')])"
    by (simp add: metadata_bounded_def sample_metadata_def metadata_values_def map_entries_def text_bounded_def)
  then show ?thesis
    using ApplyMessageMetadata_valid [OF rearranges_rev rearranges_id, of sample_record
        "sample_metadata [(''a'', ''x''), (''b'', ''y'')]"] sample_record_valid
    by (simp add: metadata_bounded_accepted sample_record_def sample_metadata_def map_keys_distinct_def map_entries_def)
qed

end
