(* ===== verification/Queue_Management.thy ===== *)
theory Queue_Management
  imports Queue_Options
begin

text \<open>
  The management surface of a queue (src/management_lifecycle.go): commands and desired records
  go to the lifecycle, backend mutations to a worker that is a controller, and an accepted
  transition makes the queue schedule or shut down. The answers of the lifecycle and of the worker
  are parameters; what the queue does besides answering is a list of effects.
\<close>

abbreviation ErrManagementLifecycleDisabled :: go_err where
  "ErrManagementLifecycleDisabled \<equiv> sentinel ''queue.ErrManagementLifecycleDisabled''"

datatype queue_effect = CallSchedule | CallShutdown

fun nativeMutationAction :: "CommandAction \<Rightarrow> bool" where
  "nativeMutationAction CommandRetry = True"
| "nativeMutationAction CommandBulkRetry = True"
| "nativeMutationAction CommandDelete = True"
| "nativeMutationAction CommandPurge = True"
| "nativeMutationAction CommandReplay = True"
| "nativeMutationAction _ = False"

text \<open>
  \<open>lifecycle\<close> is None for a queue without one, otherwise what its Execute answers; \<open>controller\<close>
  is None for a worker that is not a controller.
\<close>

definition Queue_Execute ::
  "(Command \<Rightarrow> go_err + CommandResult) option \<Rightarrow> (Command \<Rightarrow> go_err + CommandResult) option \<Rightarrow> Command \<Rightarrow>
    (go_err + CommandResult) \<times> queue_effect list" where
  "Queue_Execute lifecycle controller command =
     (case lifecycle of
        None \<Rightarrow> (Inl ErrManagementLifecycleDisabled, [])
      | Some execute \<Rightarrow>
          if nativeMutationAction (cmd_Action command) \<and> controller \<noteq> None
          then (the controller command, [])
          else case execute command of
              Inl err \<Rightarrow> (Inl err, [])
            | Inr result \<Rightarrow>
                (Inr result,
                 if result_Status result = CommandAcknowledged
                 then (case cmd_Action command of
                         CommandResume \<Rightarrow> [CallSchedule]
                       | CommandTerminate \<Rightarrow> [CallShutdown]
                       | _ \<Rightarrow> [])
                 else []))"

text \<open>\<open>l\<close> is the lifecycle when its ApplyDesiredState has returned \<open>answer\<close>.\<close>

definition Queue_ApplyDesiredState :: "(WorkerLifecycle \<times> error) option \<Rightarrow> error \<times> queue_effect list" where
  "Queue_ApplyDesiredState lifecycle =
     (case lifecycle of
        None \<Rightarrow> (Some ErrManagementLifecycleDisabled, [])
      | Some (l, Some err) \<Rightarrow> (Some err, [])
      | Some (l, None) \<Rightarrow>
          (let snapshot = snapshotLocked l
           in (None,
               if snap_Terminating snapshot \<and> snap_DrainStatus snapshot = DrainCompleted then [CallShutdown]
               else if snap_State snapshot = WorkerRunning then [CallSchedule] else [])))"

definition Queue_ObserveWorker :: "WorkerLifecycle option \<Rightarrow> (go_err + WorkerStatus) \<Rightarrow> go_err + WorkerStatus" where
  "Queue_ObserveWorker lifecycle native =
     (case lifecycle of
        None \<Rightarrow> Inl ErrManagementLifecycleDisabled
      | Some l \<Rightarrow> (case native of Inl err \<Rightarrow> Inl err | Inr status \<Rightarrow> DecorateWorkerStatus l status))"

definition Queue_ObserveQueue :: "WorkerLifecycle option \<Rightarrow> (go_err + QueueStatus) \<Rightarrow> go_err + QueueStatus" where
  "Queue_ObserveQueue lifecycle native =
     (case lifecycle of None \<Rightarrow> Inl ErrManagementLifecycleDisabled | Some l \<Rightarrow> native)"

section \<open>Effects\<close>

lemma snapshot_terminated:
  "snap_Terminating (snapshotLocked l) \<and> snap_DrainStatus (snapshotLocked l) = DrainCompleted \<longleftrightarrow>
     lc_state l = DesiredTerminating \<and> \<not> lc_drainTimedOut l \<and> lc_admissions l = 0 \<and> lc_jobs l = 0"
  by (auto simp: snapshotLocked_def split: DesiredState.split)

lemma snapshot_running:
  "snap_State (snapshotLocked l) = WorkerRunning \<longleftrightarrow> lc_state l \<notin> {DesiredPaused, DesiredDraining, DesiredTerminating}"
  by (auto simp: snapshotLocked_def split: DesiredState.split)



end
