(* ===== verification/Valkey_Options.thy ===== *)
theory Valkey_Options
  imports Status Job
begin

text \<open>
  Configuration of the Valkey Streams worker, src/valkeystream/options.go and errors.go: the
  functional options, which may refuse their argument, the defaults they overlay and the final
  validation. Loggers, handlers and the parts of a TLS configuration the package does not read
  are opaque handles \<open>'h\<close>; the resolver of delivery limits is a function on decoded messages \<open>'m\<close>.
  A \<^verbatim>\<open>map[string]struct{}\<close> is the list of its keys.
\<close>

section \<open>Options\<close>

definition maxReadBatchSize :: int where "maxReadBatchSize = 256"
definition maxReclaimBatchSize :: int where "maxReclaimBatchSize = 256"
definition maxBlockingPoolSize :: int where "maxBlockingPoolSize = 128"
definition maxReplayDestinations :: nat where "maxReplayDestinations = 64"
definition maxCanceledDeadLetterCodes :: nat where "maxCanceledDeadLetterCodes = 32"
definition maxResolvedDeliveryAttempts :: int where "maxResolvedDeliveryAttempts = 100"

lemmas valkey_limits = maxReadBatchSize_def maxReclaimBatchSize_def maxBlockingPoolSize_def
  maxReplayDestinations_def maxCanceledDeadLetterCodes_def maxResolvedDeliveryAttempts_def

record 'h tls_Config =
  tls_MinVersion :: "16 word"
  tls_settings :: 'h

definition VersionTLS12 :: "16 word" where "VersionTLS12 = 0x0303"

record ('h, 'm) ValkeyOptions =
  vo_address :: string
  vo_username :: string
  vo_password :: string
  vo_db :: int
  vo_tlsConfig :: "'h tls_Config option"
  vo_clientName :: string
  vo_dialTimeout :: duration
  vo_commandTimeout :: duration
  vo_requestTimeout :: duration
  vo_blockTime :: duration
  vo_shutdownTimeout :: duration
  vo_blockingPoolMinSize :: int
  vo_blockingPoolSize :: int
  vo_blockingPoolCleanup :: duration
  vo_stream :: string
  vo_group :: string
  vo_consumer :: string
  vo_maxLength :: int
  vo_recordMaxLength :: int
  vo_readBatchSize :: int
  vo_reclaimMinIdle :: duration
  vo_reclaimInterval :: duration
  vo_reclaimBatchSize :: int
  vo_failureStream :: string
  vo_deadLetterStream :: string
  vo_maxDeliveryAttempts :: int
  vo_deliveryAttemptLimit :: "('m \<Rightarrow> int outcome) option"
  vo_canceledDeadLetterCodes :: "string list"
  vo_logger :: 'h
  vo_runFunc :: 'h
  vo_management :: "StatusMetadata option"
  vo_replayDestinations :: "string list"

abbreviation ErrInvalidValkeyConfiguration :: go_err where
  "ErrInvalidValkeyConfiguration \<equiv> sentinel ''valkeystream.ErrInvalidConfiguration''"

abbreviation ErrInvalidManagementStatus :: go_err where
  "ErrInvalidManagementStatus \<equiv> sentinel ''valkeystream.ErrInvalidManagementStatus''"

text \<open>A \<^verbatim>\<open>ConfigurationError\<close> unwraps to the classification and its cause; the field is in its text only.\<close>

definition invalidOption :: "string \<Rightarrow> go_err \<Rightarrow> go_err" where
  "invalidOption field cause = Joined [Some ErrInvalidValkeyConfiguration, Some cause]"

abbreviation unsafe_value :: go_err where "unsafe_value \<equiv> sentinel ''unsafe value''"

datatype ('h, 'm) valkey_option =
    NilOption
  | WithManagementStatus StatusMetadata
  | WithAddress string
  | WithAuthentication string string
  | WithDB int
  | WithTLSConfig "'h tls_Config option"
  | WithClientName string
  | WithDialTimeout duration
  | WithCommandTimeout duration
  | WithRequestTimeout duration
  | WithBlockTime duration
  | WithShutdownTimeout duration
  | WithBlockingPool int int duration
  | WithStreamName string
  | WithGroup string
  | WithConsumer string
  | WithMaxLength int
  | WithRecordRetention int
  | WithReadBatchSize int
  | WithReclaim duration duration int
  | WithFailureStream string
  | WithDeadLetter string int
  | WithDeliveryAttemptLimitResolver "('m \<Rightarrow> int outcome) option"
  | WithCanceledDeadLetterCodes "string list"
  | WithReplayDestinations "string list"
  | WithLogger "'h option"
  | WithRunFunc "'h option"

definition control_bytes :: string where "control_bytes = [CHR 0x00, CHR 0x0D, CHR 0x0A]"

fun canceled_codes_loop :: "string list \<Rightarrow> string list \<Rightarrow> go_err + string list" where
  "canceled_codes_loop allowed [] = Inr allowed"
| "canceled_codes_loop allowed (code # codes) =
     (if TrimSpace code \<noteq> code \<or> code = '''' \<or> length code > MaxIdentityBytes \<or> ContainsAny code control_bytes
      then Inl (invalidOption ''canceled dead-letter code'' unsafe_value)
      else if code \<in> set allowed
      then Inl (invalidOption ''canceled dead-letter code'' (sentinel ''duplicate value''))
      else canceled_codes_loop (allowed @ [code]) codes)"

fun replay_destinations_loop :: "string list \<Rightarrow> string list \<Rightarrow> go_err + string list" where
  "replay_destinations_loop allowed [] = Inr allowed"
| "replay_destinations_loop allowed (destination # destinations) =
     (let destination = TrimSpace destination
      in if destination = '''' \<or> length destination > MaxIdentityBytes \<or> ContainsAny destination control_bytes
         then Inl (invalidOption ''replay destination'' unsafe_value)
         else if destination \<in> set allowed
         then Inl (invalidOption ''replay destination'' (sentinel ''duplicate value''))
         else replay_destinations_loop (allowed @ [destination]) destinations)"

fun valkey_apply :: "('h, 'm) valkey_option \<Rightarrow> ('h, 'm) ValkeyOptions \<Rightarrow> go_err + ('h, 'm) ValkeyOptions" where
  "valkey_apply NilOption opts = Inl (invalidOption ''option'' (sentinel ''option is required''))"
| "valkey_apply (WithManagementStatus metadata) opts =
     (if StatusMetadata_Validate metadata \<noteq> None then Inl ErrInvalidManagementStatus
      else Inr (opts\<lparr>vo_management := Some metadata\<rparr>))"
| "valkey_apply (WithAddress address) opts = Inr (opts\<lparr>vo_address := TrimSpace address\<rparr>)"
| "valkey_apply (WithAuthentication username password) opts =
     Inr (opts\<lparr>vo_username := username, vo_password := password\<rparr>)"
| "valkey_apply (WithDB database) opts = Inr (opts\<lparr>vo_db := database\<rparr>)"
| "valkey_apply (WithTLSConfig config) opts =
     (case config of
        None \<Rightarrow> Inl (invalidOption ''tls'' (sentinel ''TLS configuration is required''))
      | Some c \<Rightarrow> Inr (opts\<lparr>vo_tlsConfig := Some (c\<lparr>tls_MinVersion := max (tls_MinVersion c) VersionTLS12\<rparr>)\<rparr>))"
| "valkey_apply (WithClientName name) opts = Inr (opts\<lparr>vo_clientName := TrimSpace name\<rparr>)"
| "valkey_apply (WithDialTimeout t) opts = Inr (opts\<lparr>vo_dialTimeout := t\<rparr>)"
| "valkey_apply (WithCommandTimeout t) opts = Inr (opts\<lparr>vo_commandTimeout := t\<rparr>)"
| "valkey_apply (WithRequestTimeout t) opts = Inr (opts\<lparr>vo_requestTimeout := t\<rparr>)"
| "valkey_apply (WithBlockTime t) opts = Inr (opts\<lparr>vo_blockTime := t\<rparr>)"
| "valkey_apply (WithShutdownTimeout t) opts = Inr (opts\<lparr>vo_shutdownTimeout := t\<rparr>)"
| "valkey_apply (WithBlockingPool minimum maximum cleanup) opts =
     Inr (opts\<lparr>vo_blockingPoolMinSize := minimum, vo_blockingPoolSize := maximum, vo_blockingPoolCleanup := cleanup\<rparr>)"
| "valkey_apply (WithStreamName name) opts = Inr (opts\<lparr>vo_stream := TrimSpace name\<rparr>)"
| "valkey_apply (WithGroup name) opts = Inr (opts\<lparr>vo_group := TrimSpace name\<rparr>)"
| "valkey_apply (WithConsumer name) opts = Inr (opts\<lparr>vo_consumer := TrimSpace name\<rparr>)"
| "valkey_apply (WithMaxLength n) opts = Inr (opts\<lparr>vo_maxLength := n\<rparr>)"
| "valkey_apply (WithRecordRetention maxRecords) opts =
     (if maxRecords \<le> 0 then Inl (invalidOption ''record retention'' unsafe_value)
      else Inr (opts\<lparr>vo_recordMaxLength := maxRecords\<rparr>))"
| "valkey_apply (WithReadBatchSize n) opts = Inr (opts\<lparr>vo_readBatchSize := n\<rparr>)"
| "valkey_apply (WithReclaim minIdle interval batchSize) opts =
     Inr (opts\<lparr>vo_reclaimMinIdle := minIdle, vo_reclaimInterval := interval, vo_reclaimBatchSize := batchSize\<rparr>)"
| "valkey_apply (WithFailureStream stream) opts = Inr (opts\<lparr>vo_failureStream := TrimSpace stream\<rparr>)"
| "valkey_apply (WithDeadLetter stream maxAttempts) opts =
     Inr (opts\<lparr>vo_deadLetterStream := TrimSpace stream, vo_maxDeliveryAttempts := maxAttempts\<rparr>)"
| "valkey_apply (WithDeliveryAttemptLimitResolver resolver) opts =
     (case resolver of
        None \<Rightarrow> Inl (invalidOption ''delivery attempt limit resolver'' (sentinel ''resolver is required''))
      | Some r \<Rightarrow> Inr (opts\<lparr>vo_deliveryAttemptLimit := Some r\<rparr>))"
| "valkey_apply (WithCanceledDeadLetterCodes codes) opts =
     (if codes = [] \<or> length codes > maxCanceledDeadLetterCodes
      then Inl (invalidOption ''canceled dead-letter codes'' unsafe_value)
      else case canceled_codes_loop [] codes of
          Inl err \<Rightarrow> Inl err
        | Inr allowed \<Rightarrow> Inr (opts\<lparr>vo_canceledDeadLetterCodes := allowed\<rparr>))"
| "valkey_apply (WithReplayDestinations destinations) opts =
     (if destinations = [] \<or> length destinations > maxReplayDestinations
      then Inl (invalidOption ''replay destinations'' unsafe_value)
      else case replay_destinations_loop [] destinations of
          Inl err \<Rightarrow> Inl err
        | Inr allowed \<Rightarrow> Inr (opts\<lparr>vo_replayDestinations := allowed\<rparr>))"
| "valkey_apply (WithLogger logger) opts =
     (case logger of
        None \<Rightarrow> Inl (invalidOption ''logger'' (sentinel ''logger is required''))
      | Some l \<Rightarrow> Inr (opts\<lparr>vo_logger := l\<rparr>))"
| "valkey_apply (WithRunFunc run) opts =
     (case run of
        None \<Rightarrow> Inl (invalidOption ''run function'' (sentinel ''run function is required''))
      | Some r \<Rightarrow> Inr (opts\<lparr>vo_runFunc := r\<rparr>))"

section \<open>Defaults and validation\<close>

text \<open>What the package reads from its process: the identifier in the consumer name, and two handles.\<close>

record 'h valkey_process =
  vp_pid :: nat
  vp_logger :: 'h
  vp_runFunc :: 'h

definition valkey_defaults :: "'h valkey_process \<Rightarrow> ('h, 'm) ValkeyOptions" where
  "valkey_defaults proc =
     \<lparr>vo_address = '''', vo_username = '''', vo_password = '''', vo_db = 0, vo_tlsConfig = None,
      vo_clientName = ''go-queue'', vo_dialTimeout = 5 * Second, vo_commandTimeout = 5 * Second,
      vo_requestTimeout = 6 * Second, vo_blockTime = Second, vo_shutdownTimeout = 10 * Second,
      vo_blockingPoolMinSize = 1, vo_blockingPoolSize = 8, vo_blockingPoolCleanup = Minute,
      vo_stream = ''golang-queue'', vo_group = ''golang-queue'', vo_consumer = ''go-queue-'' @ Itoa (int (vp_pid proc)),
      vo_maxLength = 10000, vo_recordMaxLength = 0, vo_readBatchSize = 16, vo_reclaimMinIdle = 30 * Second,
      vo_reclaimInterval = 5 * Second, vo_reclaimBatchSize = 16, vo_failureStream = ''golang-queue-failures'',
      vo_deadLetterStream = ''golang-queue-dead'', vo_maxDeliveryAttempts = 5, vo_deliveryAttemptLimit = None,
      vo_canceledDeadLetterCodes = [], vo_logger = vp_logger proc, vo_runFunc = vp_runFunc proc,
      vo_management = None, vo_replayDestinations = []\<rparr>"

definition valkey_checks :: "('h, 'm) ValkeyOptions \<Rightarrow> (bool \<times> string) list" where
  "valkey_checks opts =
     [(vo_address opts = '''' \<or> ContainsAny (vo_address opts) ''@/'', ''address''),
      (vo_db opts < 0, ''database''),
      (vo_clientName opts = '''', ''client name''),
      (vo_dialTimeout opts \<le> 0, ''dial timeout''),
      (vo_commandTimeout opts \<le> 0, ''command timeout''),
      (vo_requestTimeout opts \<le> 0, ''request timeout''),
      (vo_blockTime opts \<le> 0 \<or> vo_blockTime opts > vo_requestTimeout opts, ''block time''),
      (vo_shutdownTimeout opts \<le> 0, ''shutdown timeout''),
      (vo_blockingPoolMinSize opts < 0, ''blocking pool minimum''),
      (vo_blockingPoolSize opts \<le> 0 \<or> vo_blockingPoolSize opts > maxBlockingPoolSize, ''blocking pool size''),
      (vo_blockingPoolMinSize opts > vo_blockingPoolSize opts, ''blocking pool minimum''),
      (vo_blockingPoolCleanup opts \<le> 0, ''blocking pool cleanup''),
      (vo_stream opts = '''', ''stream''),
      (vo_group opts = '''', ''group''),
      (vo_consumer opts = '''', ''consumer''),
      (vo_maxLength opts \<le> 0, ''maximum stream length''),
      (vo_recordMaxLength opts < 0, ''record retention''),
      (vo_readBatchSize opts \<le> 0 \<or> vo_readBatchSize opts > maxReadBatchSize, ''read batch size''),
      (vo_reclaimMinIdle opts \<le> 0, ''reclaim minimum idle time''),
      (vo_reclaimInterval opts \<le> 0, ''reclaim interval''),
      (vo_reclaimBatchSize opts \<le> 0 \<or> vo_reclaimBatchSize opts > maxReclaimBatchSize, ''reclaim batch size''),
      (vo_failureStream opts = '''' \<or> vo_failureStream opts = vo_stream opts \<or>
         vo_failureStream opts = vo_deadLetterStream opts, ''failure stream''),
      (vo_deadLetterStream opts = '''' \<or> vo_deadLetterStream opts = vo_stream opts, ''dead-letter stream''),
      (vo_maxDeliveryAttempts opts < 1, ''maximum delivery attempts'')]"

definition valkey_validate :: "('h, 'm) ValkeyOptions \<Rightarrow> error" where
  "valkey_validate opts =
     (if \<exists>destination \<in> set (vo_replayDestinations opts).
           destination = vo_failureStream opts \<or> destination = vo_deadLetterStream opts
      then Some (invalidOption ''replay destination'' (sentinel ''conflicts with management stream''))
      else case find fst (valkey_checks opts) of
          Some (_, field) \<Rightarrow> Some (invalidOption field unsafe_value)
        | None \<Rightarrow> None)"

fun valkey_apply_all ::
  "('h, 'm) valkey_option list \<Rightarrow> ('h, 'm) ValkeyOptions \<Rightarrow> go_err + ('h, 'm) ValkeyOptions" where
  "valkey_apply_all [] opts = Inr opts"
| "valkey_apply_all (opt # rest) opts =
     (case valkey_apply opt opts of Inl err \<Rightarrow> Inl err | Inr opts' \<Rightarrow> valkey_apply_all rest opts')"

definition valkey_newOptions ::
  "'h valkey_process \<Rightarrow> ('h, 'm) valkey_option list \<Rightarrow> go_err + ('h, 'm) ValkeyOptions" where
  "valkey_newOptions proc option =
     (case valkey_apply_all option (valkey_defaults proc) of
        Inl err \<Rightarrow> Inl err
      | Inr opts \<Rightarrow> (case valkey_validate opts of Some err \<Rightarrow> Inl err | None \<Rightarrow> Inr opts))"


section \<open>What an accepted configuration guarantees\<close>

definition nonblank :: "string \<Rightarrow> bool" where
  "nonblank s \<longleftrightarrow> TrimSpace s \<noteq> ''''"

text \<open>What every option keeps, before the final validation.\<close>

definition trimmed :: "string \<Rightarrow> bool" where
  "trimmed s \<longleftrightarrow> s = '''' \<or> nonblank s"

definition identities :: "nat \<Rightarrow> string list \<Rightarrow> bool" where
  "identities n ss \<longleftrightarrow> distinct ss \<and> length ss \<le> n \<and> (\<forall>s \<in> set ss. \<not> invalidIdentity s)"

definition tls_raised :: "'h tls_Config option \<Rightarrow> bool" where
  "tls_raised config \<longleftrightarrow> (case config of None \<Rightarrow> True | Some c \<Rightarrow> VersionTLS12 \<le> tls_MinVersion c)"

definition status_accepted :: "StatusMetadata option \<Rightarrow> bool" where
  "status_accepted metadata \<longleftrightarrow> (case metadata of None \<Rightarrow> True | Some m \<Rightarrow> StatusMetadata_Validate m = None)"

definition valkey_shaped :: "('h, 'm) ValkeyOptions \<Rightarrow> bool" where
  "valkey_shaped opts \<longleftrightarrow>
     trimmed (vo_stream opts) \<and> trimmed (vo_group opts) \<and> trimmed (vo_consumer opts) \<and>
     trimmed (vo_failureStream opts) \<and> trimmed (vo_deadLetterStream opts) \<and>
     tls_raised (vo_tlsConfig opts) \<and> status_accepted (vo_management opts) \<and>
     identities maxCanceledDeadLetterCodes (vo_canceledDeadLetterCodes opts) \<and>
     identities maxReplayDestinations (vo_replayDestinations opts)"

lemma trimmed_TrimSpace [simp]: "trimmed (TrimSpace s)"
  by (simp add: trimmed_def nonblank_def)

lemma trimmed_identity: "TrimSpace s = s \<Longrightarrow> s \<noteq> '''' \<Longrightarrow> length s \<le> MaxIdentityBytes \<Longrightarrow> \<not> invalidIdentity s"
  by (simp add: invalidIdentity_def)

lemma canceled_codes_loop_sound:
  "canceled_codes_loop allowed codes = Inr r \<Longrightarrow> identities n allowed \<Longrightarrow> length allowed + length codes \<le> n \<Longrightarrow>
    identities n r"
  by (induction allowed codes rule: canceled_codes_loop.induct)
    (auto split: if_splits simp: trimmed_identity identities_def)

lemma replay_destinations_loop_sound:
  "replay_destinations_loop allowed ds = Inr r \<Longrightarrow> identities n allowed \<Longrightarrow> length allowed + length ds \<le> n \<Longrightarrow>
    identities n r"
  by (induction allowed ds rule: replay_destinations_loop.induct)
    (auto split: if_splits simp: Let_def trimmed_identity identities_def)

lemma identities_Nil [simp]: "identities n []"
  by (simp add: identities_def)

lemma valkey_apply_shaped:
  assumes "valkey_apply opt opts = Inr opts'" and "valkey_shaped opts"
  shows "valkey_shaped opts'"
proof (cases opt)
  case (WithCanceledDeadLetterCodes codes)
  then obtain allowed where "canceled_codes_loop [] codes = Inr allowed" "length codes \<le> maxCanceledDeadLetterCodes"
    "opts' = opts\<lparr>vo_canceledDeadLetterCodes := allowed\<rparr>"
    using assms(1) by (auto split: if_splits sum.splits)
  then show ?thesis
    using assms(2) canceled_codes_loop_sound [of "[]" codes] by (simp add: valkey_shaped_def)
next
  case (WithReplayDestinations ds)
  then obtain allowed where "replay_destinations_loop [] ds = Inr allowed" "length ds \<le> maxReplayDestinations"
    "opts' = opts\<lparr>vo_replayDestinations := allowed\<rparr>"
    using assms(1) by (auto split: if_splits sum.splits)
  then show ?thesis
    using assms(2) replay_destinations_loop_sound [of "[]" ds] by (simp add: valkey_shaped_def)
next
  case (WithTLSConfig config)
  then show ?thesis
    using assms by (cases config) (auto simp: valkey_shaped_def tls_raised_def)
next
  case (WithManagementStatus metadata)
  then show ?thesis
    using assms by (auto simp: valkey_shaped_def status_accepted_def split: if_splits)
qed (use assms in \<open>auto simp: valkey_shaped_def split: if_splits option.splits\<close>)

lemma valkey_apply_all_shaped:
  "valkey_apply_all option opts = Inr opts' \<Longrightarrow> valkey_shaped opts \<Longrightarrow> valkey_shaped opts'"
  by (induction option opts rule: valkey_apply_all.induct)
    (auto split: sum.splits dest: valkey_apply_shaped)

lemma valkey_defaults_shaped: "valkey_shaped (valkey_defaults proc)"
  by (simp add: valkey_shaped_def valkey_defaults_def trimmed_def nonblank_def tls_raised_def status_accepted_def)

lemma find_fst_None: "find fst checks = None \<longleftrightarrow> (\<forall>(bad, field) \<in> set checks. \<not> bad)"
  by (induction checks) auto

text \<open>What \<^const>\<open>valkey_validate\<close> adds to that, as the rest of the package relies on it.\<close>

definition valkey_safe :: "('h, 'm) ValkeyOptions \<Rightarrow> bool" where
  "valkey_safe opts \<longleftrightarrow> valkey_shaped opts \<and>
     nonblank (vo_stream opts) \<and> nonblank (vo_group opts) \<and> nonblank (vo_consumer opts) \<and>
     nonblank (vo_failureStream opts) \<and> nonblank (vo_deadLetterStream opts) \<and>
     distinct [vo_stream opts, vo_failureStream opts, vo_deadLetterStream opts] \<and>
     vo_failureStream opts \<notin> set (vo_replayDestinations opts) \<and>
     vo_deadLetterStream opts \<notin> set (vo_replayDestinations opts) \<and>
     0 < vo_maxLength opts \<and> 0 \<le> vo_recordMaxLength opts \<and> 1 \<le> vo_maxDeliveryAttempts opts \<and>
     0 < vo_readBatchSize opts \<and> vo_readBatchSize opts \<le> 256 \<and>
     0 < vo_reclaimBatchSize opts \<and> vo_reclaimBatchSize opts \<le> 256 \<and>
     0 < vo_reclaimMinIdle opts \<and> 0 < vo_reclaimInterval opts \<and>
     0 < vo_blockTime opts \<and> vo_blockTime opts \<le> vo_requestTimeout opts \<and> 0 < vo_commandTimeout opts \<and>
     0 < vo_shutdownTimeout opts"

lemma valkey_validate_safe: "valkey_validate opts = None \<Longrightarrow> valkey_shaped opts \<Longrightarrow> valkey_safe opts"
  by (auto simp: valkey_validate_def valkey_safe_def valkey_shaped_def trimmed_def find_fst_None
      valkey_checks_def valkey_limits split: if_splits option.splits)

lemma valkey_newOptions_safe: "valkey_newOptions proc option = Inr opts \<Longrightarrow> valkey_safe opts"
  by (auto simp: valkey_newOptions_def split: sum.splits option.splits
      intro!: valkey_validate_safe valkey_apply_all_shaped [OF _ valkey_defaults_shaped])

end
