(* ===== verification/Stream_Scripts.thy ===== *)
theory Stream_Scripts
  imports Stream_Semantics
begin

text \<open>
  The server-side scripts of src/valkeystream/native_transport.go (the acknowledgement script is
  also that of src/adapters/redisstream/redis.go): the comparison of stream identifiers they share,
  bounded enqueue, acknowledgement with guarded deletion, retry of a record and replay of a record.

  The commands a script calls, and the number syntax of the script language, belong to the server
  and are the fields of \<open>server\<close>: a script is a function of them and of the state of the server.
  A script whose command raises an error ends there; the Go code sees that as an error of the call.
\<close>

section \<open>Identifiers\<close>

text \<open>\<^verbatim>\<open>string.gsub(s, '^0+', '')\<close> and the replacement of the empty text.\<close>

definition strip_zeros :: "string \<Rightarrow> string" where
  "strip_zeros s = (let t = dropWhile (\<lambda>c. c = CHR ''0'') s in if t = '''' then ''0'' else t)"

definition decimalBefore :: "string \<Rightarrow> string \<Rightarrow> bool" where
  "decimalBefore left right =
     (let left = strip_zeros left; right = strip_zeros right
      in if length left \<noteq> length right then length left < length right else left < right)"

definition isBefore :: "string \<Rightarrow> string \<Rightarrow> bool option" where
  "isBefore left right =
     (case (strings_Cut (CHR ''-'') left, strings_Cut (CHR ''-'') right) of
        (Some (leftTime, leftSequence), Some (rightTime, rightSequence)) \<Rightarrow>
          Some (decimalBefore leftTime rightTime \<or> leftTime = rightTime \<and> decimalBefore leftSequence rightSequence)
      | _ \<Rightarrow> None)"

section \<open>The server a script runs in\<close>

text \<open>A reply field is text or a number.\<close>

datatype lua_value = LText string | LNumber int

record 's server =
  XLEN :: "string \<Rightarrow> 's \<Rightarrow> nat"
  XRANGE_entry :: "string \<Rightarrow> string \<Rightarrow> 's \<Rightarrow> string list option"
  XPENDING_entry :: "string \<Rightarrow> string \<Rightarrow> string \<Rightarrow> 's \<Rightarrow> bool"
  XINFO_GROUPS :: "string \<Rightarrow> 's \<Rightarrow> lua_value list list"
  XACK :: "string \<Rightarrow> string \<Rightarrow> string \<Rightarrow> 's \<Rightarrow> int \<times> 's"
  XADD :: "string \<Rightarrow> (string \<times> string) list \<Rightarrow> 's \<Rightarrow> string \<times> 's"
  XDEL :: "string \<Rightarrow> string \<Rightarrow> 's \<Rightarrow> 's"
  HGET :: "string \<Rightarrow> string \<Rightarrow> 's \<Rightarrow> string option"
  HSET :: "string \<Rightarrow> string \<Rightarrow> string \<Rightarrow> 's \<Rightarrow> 's"
  HDEL :: "string \<Rightarrow> string \<Rightarrow> 's \<Rightarrow> 's"
  ZADD_now :: "string \<Rightarrow> string \<Rightarrow> 's \<Rightarrow> 's"
  ZCARD :: "string \<Rightarrow> 's \<Rightarrow> nat"
  ZRANGE_oldest :: "string \<Rightarrow> nat \<Rightarrow> 's \<Rightarrow> string list"
  ZREM :: "string \<Rightarrow> string \<Rightarrow> 's \<Rightarrow> 's"
  tonumber :: "string \<Rightarrow> rat option"
  tostring :: "rat \<Rightarrow> string"

text \<open>The value after the last occurrence of a name in a flat list of names and values.\<close>

fun last_value :: "'a \<Rightarrow> 'a list \<Rightarrow> 'a option \<Rightarrow> 'a option" where
  "last_value key (name # v # rest) found = last_value key rest (if name = key then Some v else found)"
| "last_value key [name] found = (if name = key then None else found)"
| "last_value key [] found = found"

fun lua_text :: "lua_value \<Rightarrow> string" where
  "lua_text (LText s) = s"
| "lua_text (LNumber i) = Itoa i"

definition group_name :: "lua_value list \<Rightarrow> string option" where
  "group_name fs = map_option lua_text (last_value (LText ''name'') fs None)"

definition group_last_delivered :: "lua_value list \<Rightarrow> string option" where
  "group_last_delivered fs = map_option lua_text (last_value (LText ''last-delivered-id'') fs None)"

section \<open>Enqueue and acknowledgement\<close>



definition enqueueScript :: "'s server \<Rightarrow> string \<Rightarrow> rat \<Rightarrow> bytes \<Rightarrow> 's \<Rightarrow> string \<times> 's" where
  "enqueueScript sv stream capacity body s =
     (if of_nat (XLEN sv stream s) \<ge> capacity then (''capacity'', s)
      else XADD sv stream [(''body'', body)] s)"

text \<open>Whether a group still holds an entry back: a missing field, a pending delivery, or not delivered yet.\<close>

definition group_retains :: "'s server \<Rightarrow> string \<Rightarrow> string \<Rightarrow> 's \<Rightarrow> lua_value list \<Rightarrow> bool" where
  "group_retains sv stream entry s fs =
     (case (group_name fs, group_last_delivered fs) of
        (Some grp, Some lastDelivered) \<Rightarrow>
          XPENDING_entry sv stream grp entry s \<or>
          (case isBefore lastDelivered entry of None \<Rightarrow> True | Some before \<Rightarrow> before)
      | _ \<Rightarrow> True)"

definition acknowledgeScript :: "'s server \<Rightarrow> string \<Rightarrow> string \<Rightarrow> string \<Rightarrow> 's \<Rightarrow> string \<times> 's" where
  "acknowledgeScript sv stream grp entry s =
     (let (acked, s) = XACK sv stream grp entry s
      in if acked \<noteq> 1 then (''lease_lost'', s)
         else if list_ex (group_retains sv stream entry s) (XINFO_GROUPS sv stream s) then (''retained'', s)
         else (''deleted'', XDEL sv stream entry s))"

section \<open>Retry and replay\<close>

record lineage =
  ln_original :: string
  ln_generation :: rat

text \<open>
  The lineage of the copy a script makes of a dead letter: the first generation of the record itself,
  or one more than the one the record carries. None is the outcome malformed.
\<close>

definition next_lineage :: "'s server \<Rightarrow> string \<Rightarrow> string list \<Rightarrow> lineage option" where
  "next_lineage sv recordID fs =
     (let lineageOriginal = last_value ''replay_original_dead_letter_id'' fs None;
          lineagePrior = last_value ''replay_prior_dead_letter_id'' fs None;
          lineageGeneration = last_value ''replay_generation'' fs None;
          made = (case (lineageOriginal, lineagePrior, lineageGeneration) of
             (None, None, None) \<Rightarrow> Some \<lparr>ln_original = recordID, ln_generation = 1\<rparr>
           | (Some original, Some prior, Some generation) \<Rightarrow>
               (case tonumber sv generation of
                  None \<Rightarrow> None
                | Some n \<Rightarrow> if n < 1 \<or> n \<ge> 4294967295 then None
                            else Some \<lparr>ln_original = original, ln_generation = n + 1\<rparr>)
           | _ \<Rightarrow> None)
      in case made of None \<Rightarrow> None | Some l \<Rightarrow> if length (ln_original l) > 256 then None else Some l)"

definition copy_fields :: "'s server \<Rightarrow> string \<Rightarrow> bytes \<Rightarrow> lineage \<Rightarrow> (string \<times> string) list" where
  "copy_fields sv recordID body l =
     [(''body'', body), (''replay_original_dead_letter_id'', ln_original l),
      (''replay_prior_dead_letter_id'', recordID), (''replay_generation'', tostring sv (ln_generation l))]"

text \<open>The scan over the groups of the source of a failure: here the group of the worker itself may have it pending.\<close>

definition source_retains :: "'s server \<Rightarrow> string \<Rightarrow> string \<Rightarrow> string \<Rightarrow> 's \<Rightarrow> lua_value list \<Rightarrow> bool" where
  "source_retains sv source worker_group entry s fs =
     (case (group_name fs, group_last_delivered fs) of
        (Some grp, Some lastDelivered) \<Rightarrow>
          grp \<noteq> worker_group \<and> XPENDING_entry sv source grp entry s \<or>
          (case isBefore lastDelivered entry of None \<Rightarrow> True | Some before \<Rightarrow> before)
      | _ \<Rightarrow> True)"

datatype record_source = RetryFailure | RetryDeadLetter

definition retryRecordScript ::
  "'s server \<Rightarrow> string \<Rightarrow> string \<Rightarrow> string \<Rightarrow> string \<Rightarrow> string \<Rightarrow> record_source \<Rightarrow> rat \<Rightarrow> 's \<Rightarrow> string \<times> 's" where
  "retryRecordScript sv records destination source recordID grp kind capacity s =
     (case XRANGE_entry sv records recordID s of
        None \<Rightarrow> (''not_found'', s)
      | Some fs \<Rightarrow>
          (case (last_value ''body'' fs None, last_value ''original_id'' fs None) of
             (Some body, Some original) \<Rightarrow>
               (case kind of
                  RetryFailure \<Rightarrow>
                    if \<not> XPENDING_entry sv source grp original s then (''stale'', s)
                    else let sourceDeletable = \<not> list_ex (source_retains sv source grp original s) (XINFO_GROUPS sv source s);
                             destinationLength = int (XLEN sv destination s) -
                               (if destination = source \<and> sourceDeletable then 1 else 0)
                         in if of_int destinationLength \<ge> capacity then (''capacity'', s)
                            else let s = snd (XADD sv destination [(''body'', body)] s);
                                     s = snd (XACK sv source grp original s);
                                     s = (if sourceDeletable then XDEL sv source original s else s)
                                 in (''ok'', XDEL sv records recordID s)
                | RetryDeadLetter \<Rightarrow>
                    (case next_lineage sv recordID fs of
                       None \<Rightarrow> (''malformed'', s)
                     | Some l \<Rightarrow>
                         if of_nat (XLEN sv destination s) \<ge> capacity then (''capacity'', s)
                         else let s = snd (XADD sv destination (copy_fields sv recordID body l) s)
                              in (''ok'', XDEL sv records recordID s)))
           | _ \<Rightarrow> (''malformed'', s)))"

text \<open>The eviction at the end of a replay: the oldest identities beyond the capacity.\<close>

fun evict :: "'s server \<Rightarrow> string \<Rightarrow> string \<Rightarrow> string list \<Rightarrow> 's \<Rightarrow> 's" where
  "evict sv registry order [] s = s"
| "evict sv registry order (key # keys) s = evict sv registry order keys (ZREM sv order key (HDEL sv registry key s))"

definition replayRecordScript ::
  "'s server \<Rightarrow> string \<Rightarrow> string \<Rightarrow> string \<Rightarrow> string \<Rightarrow> string \<Rightarrow> string \<Rightarrow> string \<Rightarrow> rat \<Rightarrow> 's \<Rightarrow> string \<times> 's" where
  "replayRecordScript sv records destination registry order recordID policy replayKey capacity s =
     (case XRANGE_entry sv records recordID s of
        None \<Rightarrow> (''not_found'', s)
      | Some fs \<Rightarrow>
          (case last_value ''body'' fs None of
             None \<Rightarrow> (''malformed'', s)
           | Some body \<Rightarrow>
               (case next_lineage sv recordID fs of
                  None \<Rightarrow> (''malformed'', s)
                | Some l \<Rightarrow>
                    let prior = HGET sv registry replayKey s
                    in if prior \<noteq> None \<and> policy = ''reject_duplicate'' then (''duplicate'', s)
                       else let destinationLength = int (XLEN sv destination s) -
                                  (case prior of None \<Rightarrow> 0
                                   | Some p \<Rightarrow> if XRANGE_entry sv destination p s \<noteq> None then 1 else 0)
                            in if of_int destinationLength \<ge> capacity then (''capacity'', s)
                               else let s = (case prior of None \<Rightarrow> s | Some p \<Rightarrow> XDEL sv destination p s);
                                        (replayed, s) = XADD sv destination (copy_fields sv recordID body l) s;
                                        s = ZADD_now sv order replayKey (HSET sv registry replayKey replayed s);
                                        excess = of_nat (ZCARD sv order s) - capacity;
                                        s = (if excess > 0
                                             then evict sv registry order (ZRANGE_oldest sv order (nat \<lceil>excess\<rceil>) s) s else s)
                                    in (''ok'', s))))"


section \<open>The order of identifiers\<close>

lemma digits_value_acc:
  "digits_value acc s = map_option (\<lambda>v. acc * 10 ^ length s + v) (digits_value 0 s)"
proof (induction s arbitrary: acc)
  case (Cons c s)
  show ?case
  proof (cases "char_digit c")
    case (Some d)
    then show ?thesis
      using Cons [of "acc * 10 + d"] Cons [of d] by (cases "digits_value 0 s") (simp_all add: algebra_simps)
  qed simp
qed simp

lemma char_digit_bound: "char_digit c = Some d \<Longrightarrow> d < 10"
  by (auto simp: char_digit_def Let_def split: if_splits)

lemma digits_value_Cons:
  "digits_value 0 (c # s) = Some v \<longleftrightarrow>
     (\<exists>d w. char_digit c = Some d \<and> digits_value 0 s = Some w \<and> v = d * 10 ^ length s + w)"
proof (cases "char_digit c")
  case (Some d)
  then show ?thesis
    using digits_value_acc [of d s] by (cases "digits_value 0 s") auto
qed simp

lemma digits_value_bound: "digits_value 0 s = Some v \<Longrightarrow> v < 10 ^ length s"
proof (induction s arbitrary: v)
  case (Cons c s)
  obtain d w where d: "char_digit c = Some d" and w: "digits_value 0 s = Some w"
    and v: "v = d * 10 ^ length s + w"
    using Cons.prems unfolding digits_value_Cons by blast
  have "w < 10 ^ length s" using Cons.IH [OF w] .
  then have "v < Suc d * 10 ^ length s" by (simp add: v)
  also have "\<dots> \<le> 10 * 10 ^ length s"
    using char_digit_bound [OF d] by (intro mult_le_mono1) simp
  finally show ?case by simp
qed simp

lemma char_digit_less: "char_digit c = Some i \<Longrightarrow> char_digit d = Some j \<Longrightarrow> c < d \<longleftrightarrow> i < j"
  by (auto simp: char_digit_def Let_def less_char_def split: if_splits)

lemma char_digit_inject: "char_digit c = Some i \<Longrightarrow> char_digit d = Some i \<Longrightarrow> c = d"
  by (auto simp: char_digit_def Let_def split: if_splits)
    (metis add_diff_inverse_nat not_less of_char_eq_iff)

lemma less_digits:
  assumes "length l = length r" and "digits_value 0 l = Some x" and "digits_value 0 r = Some y"
  shows "l < r \<longleftrightarrow> x < y"
  using assms
proof (induction l r arbitrary: x y rule: list_induct2)
  case (Cons c l d r)
  obtain i v where i: "char_digit c = Some i" "digits_value 0 l = Some v" "x = i * 10 ^ length l + v"
    using Cons.prems(1) unfolding digits_value_Cons by blast
  obtain j w where j: "char_digit d = Some j" "digits_value 0 r = Some w" "y = j * 10 ^ length l + w"
    using Cons.prems(2) unfolding digits_value_Cons Cons.hyps by blast
  have v: "v < 10 ^ length l" and w: "w < 10 ^ length l"
    using digits_value_bound [OF i(2)] digits_value_bound [OF j(2)] Cons.hyps by simp_all
  show ?case
  proof (cases i j rule: linorder_cases)
    case less
    then have "Suc i * 10 ^ length l \<le> j * 10 ^ length l" by (intro mult_le_mono1) simp
    then show ?thesis using less v char_digit_less [OF i(1) j(1)] by (simp add: i(3) j(3))
  next
    case equal
    then show ?thesis
      using Cons.IH [OF i(2) j(2)] char_digit_inject [of c i d] i j by simp
  next
    case greater
    then have "Suc j * 10 ^ length l \<le> i * 10 ^ length l" by (intro mult_le_mono1) simp
    then show ?thesis
      using greater w char_digit_less [OF i(1) j(1)] char_digit_less [OF j(1) i(1)] by (auto simp: i(3) j(3))
  qed
qed simp

lemma strip_zeros_value: "digits_value 0 (strip_zeros s) = digits_value 0 s"
proof -
  have drop: "digits_value 0 (dropWhile (\<lambda>c. c = CHR ''0'') s) = digits_value 0 s"
    by (induction s) (simp_all add: char_digit_def)
  have "digits_value 0 ''0'' = Some 0" by (simp add: char_digit_def)
  then show ?thesis
    using drop by (cases "dropWhile (\<lambda>c. c = CHR ''0'') s") (simp_all only: strip_zeros_def Let_def if_True
        if_False digits_value.simps(1) list.distinct simp_thms)
qed

lemma strip_zeros_shape: "strip_zeros s = ''0'' \<or> (\<exists>c t. strip_zeros s = c # t \<and> c \<noteq> CHR ''0'')"
proof (cases "dropWhile (\<lambda>c. c = CHR ''0'') s")
  case (Cons c t)
  then have "c \<noteq> CHR ''0''" using hd_dropWhile [of "\<lambda>c. c = CHR ''0''" s] by simp
  then show ?thesis using Cons by (simp add: strip_zeros_def)
qed (simp add: strip_zeros_def)

lemma char_digit_0: "char_digit c = Some 0 \<longleftrightarrow> c = CHR ''0''"
proof -
  have "char_digit (CHR ''0'') = Some 0" by (simp add: char_digit_def)
  then show ?thesis using char_digit_inject by blast
qed

lemma strip_zeros_length:
  assumes "digits_value 0 (strip_zeros l) = Some x" and "digits_value 0 (strip_zeros r) = Some y"
    and "length (strip_zeros l) < length (strip_zeros r)"
  shows "x < y"
proof -
  have pos: "length (strip_zeros l) > 0" using strip_zeros_shape [of l] by auto
  then obtain c t where r: "strip_zeros r = c # t" "c \<noteq> CHR ''0''"
    using strip_zeros_shape [of r] assms(3) by auto
  obtain d w where d: "char_digit c = Some d" "y = d * 10 ^ length t + w"
    using assms(2) unfolding r(1) digits_value_Cons by blast
  then have "d \<noteq> 0" using r(2) char_digit_0 [of c] by metis
  have "x < 10 ^ length (strip_zeros l)" by (rule digits_value_bound [OF assms(1)])
  also have "\<dots> \<le> 10 ^ length t" using assms(3) by (simp add: r(1))
  also have "\<dots> \<le> y" using \<open>d \<noteq> 0\<close> by (simp add: d(2) trans_le_add1)
  finally show ?thesis .
qed

lemma decimalBefore_value:
  assumes "digits_value 0 l = Some x" and "digits_value 0 r = Some y" and "l \<noteq> ''''" and "r \<noteq> ''''"
  shows "decimalBefore l r \<longleftrightarrow> x < y"
proof -
  have x: "digits_value 0 (strip_zeros l) = Some x" and y: "digits_value 0 (strip_zeros r) = Some y"
    using assms by (simp_all add: strip_zeros_value)
  show ?thesis
    using strip_zeros_length [OF x y] strip_zeros_length [OF y x] less_digits [OF _ x y]
    by (cases "length (strip_zeros l)" "length (strip_zeros r)" rule: linorder_cases)
      (auto simp: decimalBefore_def Let_def)
qed

lemma decimalBefore_Itoa [simp]: "decimalBefore (Itoa_nat a) (Itoa_nat b) \<longleftrightarrow> a < b"
  by (rule decimalBefore_value) (simp_all add: digits_value_Itoa)

lemma Itoa_nat_inject [simp]: "Itoa_nat a = Itoa_nat b \<longleftrightarrow> a = b"
  by (metis digits_value_Itoa option.inject)

definition stream_id :: "nat \<Rightarrow> nat \<Rightarrow> string" where
  "stream_id ms number = Itoa_nat ms @ ''-'' @ Itoa_nat number"

lemma strings_Cut_stream_id: "strings_Cut (CHR ''-'') (stream_id ms number) = Some (Itoa_nat ms, Itoa_nat number)"
proof -
  have "CHR ''-'' \<notin> set (Itoa_nat ms)"
    using Itoa_nat_digits digit_char_sign by metis
  then show ?thesis by (simp add: stream_id_def strings_Cut_append)
qed

text \<open>
  C12: on identifiers as the server writes them, the text comparison of the scripts is the order by
  time and then by sequence number, whatever the number of digits.
\<close>

theorem isBefore_stream_order:
  "isBefore (stream_id ms number) (stream_id ms' number') =
     Some (ms < ms' \<or> ms = ms' \<and> number < number')"
  by (simp add: isBefore_def strings_Cut_stream_id)


section \<open>What the scripts change\<close>

text \<open>A group is past an entry: it was delivered the entry and holds it no longer.\<close>

definition group_past :: "'s server \<Rightarrow> string \<Rightarrow> string \<Rightarrow> 's \<Rightarrow> lua_value list \<Rightarrow> bool" where
  "group_past sv stream entry s fs \<longleftrightarrow>
     (\<exists>grp lastDelivered. group_name fs = Some grp \<and> group_last_delivered fs = Some lastDelivered \<and>
        \<not> XPENDING_entry sv stream grp entry s \<and> isBefore lastDelivered entry = Some False)"

lemma group_retains_past: "group_retains sv stream entry s fs \<longleftrightarrow> \<not> group_past sv stream entry s fs"
  by (auto simp: group_retains_def group_past_def split: option.splits)


text \<open>
  A server with one stream, for the witnesses: entries, the pending entries of each group, and the
  identifier each group was delivered last.
\<close>

record tiny_server =
  ts_entries :: "(string \<times> string list) list"
  ts_pending :: "(string \<times> string) list"
  ts_groups :: "(string \<times> string) list"

definition tiny :: "tiny_server server" where
  "tiny = \<lparr>XLEN = (\<lambda>k s. length (ts_entries s)), XRANGE_entry = (\<lambda>k e s. map_of (ts_entries s) e),
     XPENDING_entry = (\<lambda>k g e s. (g, e) \<in> set (ts_pending s)),
     XINFO_GROUPS = (\<lambda>k s. map (\<lambda>(g, d). [LText ''name'', LText g, LText ''last-delivered-id'', LText d]) (ts_groups s)),
     XACK = (\<lambda>k g e s. (if (g, e) \<in> set (ts_pending s) then 1 else 0, s\<lparr>ts_pending := removeAll (g, e) (ts_pending s)\<rparr>)),
     XADD = (\<lambda>k fs s. (''9-0'', s\<lparr>ts_entries := ts_entries s @ [(''9-0'', concat (map (\<lambda>(a, b). [a, b]) fs))]\<rparr>)),
     XDEL = (\<lambda>k e s. s\<lparr>ts_entries := filter (\<lambda>x. fst x \<noteq> e) (ts_entries s)\<rparr>),
     HGET = (\<lambda>k f s. None), HSET = (\<lambda>k f v s. s), HDEL = (\<lambda>k f s. s), ZADD_now = (\<lambda>k m s. s), ZCARD = (\<lambda>k s. 0),
     ZRANGE_oldest = (\<lambda>k n s. []), ZREM = (\<lambda>k m s. s), tonumber = (\<lambda>t. map_option of_nat (digits_value 0 t)),
     tostring = (\<lambda>q. Itoa \<lfloor>q\<rfloor>)\<rparr>"

definition tiny_state :: tiny_server where
  "tiny_state = \<lparr>ts_entries = [(''5-0'', [''body'', ''x''])], ts_pending = [(''g'', ''5-0'')], ts_groups = [(''g'', ''5-0'')]\<rparr>"


text \<open>
  What a successful retry did: the record was there with a body, and what is left of the server is
  the append of its body to a destination with room, then the settlement of the source for a
  failure, then the removal of the record.
\<close>

definition retry_effect ::
  "'s server \<Rightarrow> string \<Rightarrow> string \<Rightarrow> string \<Rightarrow> string \<Rightarrow> string \<Rightarrow> record_source \<Rightarrow> rat \<Rightarrow> 's \<Rightarrow> 's \<Rightarrow> bool" where
  "retry_effect sv records destination source recordID grp kind capacity s s' \<longleftrightarrow>
     (\<exists>fs body original. XRANGE_entry sv records recordID s = Some fs \<and>
       last_value ''body'' fs None = Some body \<and> last_value ''original_id'' fs None = Some original \<and>
       (case kind of
          RetryDeadLetter \<Rightarrow> (\<exists>l. next_lineage sv recordID fs = Some l \<and> of_nat (XLEN sv destination s) < capacity \<and>
            s' = XDEL sv records recordID (snd (XADD sv destination (copy_fields sv recordID body l) s)))
        | RetryFailure \<Rightarrow> XPENDING_entry sv source grp original s \<and>
            of_nat (XLEN sv destination s) < capacity + 1 \<and>
            (let acked = snd (XACK sv source grp original (snd (XADD sv destination [(''body'', body)] s)))
             in s' \<in> {XDEL sv records recordID acked, XDEL sv records recordID (XDEL sv source original acked)})))"

lemma retryRecordScript_outcomes:
  assumes "retryRecordScript sv records destination source recordID grp kind capacity s = (outcome, s')"
  shows "outcome \<noteq> ''ok'' \<Longrightarrow> s' = s \<and> outcome \<in> {''not_found'', ''stale'', ''malformed'', ''capacity''}"
    and "outcome = ''ok'' \<Longrightarrow> retry_effect sv records destination source recordID grp kind capacity s s'"
proof -
  have "(outcome \<noteq> ''ok'' \<longrightarrow> s' = s \<and> outcome \<in> {''not_found'', ''stale'', ''malformed'', ''capacity''}) \<and>
      (outcome = ''ok'' \<longrightarrow> retry_effect sv records destination source recordID grp kind capacity s s')"
  proof (cases "XRANGE_entry sv records recordID s")
    case None
    then show ?thesis using assms by (auto simp: retryRecordScript_def)
  next
    case (Some fs)
    then show ?thesis
      using assms unfolding retry_effect_def
      by (cases kind; cases "last_value ''body'' fs None"; cases "last_value ''original_id'' fs None";
          cases "next_lineage sv recordID fs")
        (auto simp: retryRecordScript_def Let_def not_le split: if_splits)
  qed
  then show "outcome \<noteq> ''ok'' \<Longrightarrow> s' = s \<and> outcome \<in> {''not_found'', ''stale'', ''malformed'', ''capacity''}"
    and "outcome = ''ok'' \<Longrightarrow> retry_effect sv records destination source recordID grp kind capacity s s'"
    by blast+
qed


definition tiny_letter :: tiny_server where
  "tiny_letter = tiny_state\<lparr>ts_entries := [(''5-0'', [''body'', ''x'', ''original_id'', ''1-0''])]\<rparr>"



text \<open>
  A replay that does not succeed changes nothing. One that does had a record with a body to copy,
  and under the policy against duplicates no registered copy of it.
\<close>

definition replay_sound ::
  "'s server \<Rightarrow> string \<Rightarrow> string \<Rightarrow> string \<Rightarrow> string \<Rightarrow> string \<Rightarrow> 's \<Rightarrow> bool" where
  "replay_sound sv records registry recordID policy replayKey s \<longleftrightarrow>
     (\<exists>fs body l. XRANGE_entry sv records recordID s = Some fs \<and> last_value ''body'' fs None = Some body \<and>
        next_lineage sv recordID fs = Some l) \<and>
     (policy = ''reject_duplicate'' \<longrightarrow> HGET sv registry replayKey s = None)"

lemma replayRecordScript_outcomes:
  assumes "replayRecordScript sv records destination registry order recordID policy replayKey capacity s = (outcome, s')"
  shows "outcome \<noteq> ''ok'' \<Longrightarrow> s' = s"
    and "outcome \<in> {''ok'', ''not_found'', ''malformed'', ''duplicate'', ''capacity''}"
    and "outcome = ''ok'' \<Longrightarrow> replay_sound sv records registry recordID policy replayKey s"
  using assms
  by (auto simp: replayRecordScript_def replay_sound_def Let_def split: if_splits option.splits prod.splits)

end
