(* ===== verification/Valkey_Transport.thy ===== *)
theory Valkey_Transport
  imports Stream_Scripts Control
begin

text \<open>
  The native transport of src/valkeystream/native_transport.go: how a request becomes a command, and
  how replies of the server become deliveries, attempts, group states and records (with the record
  type and its conversion from src/valkeystream/records.go). The client is a parameter: a function
  from a command and the state of the server to a reply and the new state. Go's \<^verbatim>\<open>any\<close> in a reply
  is the datatype \<open>any\<close>; a \<^verbatim>\<open>map[string]string\<close> of fields is a map.
\<close>

section \<open>Replies\<close>

datatype any = ANil | AString string | AInt int | AArray "any list" | AMap "string \<rightharpoonup> any" | AOther

record XRangeEntry =
  xe_ID :: string
  xe_FieldValues :: "string \<rightharpoonup> string"

definition malformedResponse :: go_err where
  "malformedResponse = Wrapped (Some ErrMalformedDelivery)"

text \<open>\<^verbatim>\<open>strconv.ParseUint(text, 10, bits)\<close>.\<close>

definition ParseUint :: "nat \<Rightarrow> string \<Rightarrow> nat option" where
  "ParseUint bits s =
     (if s = '''' then None
      else case digits_value 0 s of None \<Rightarrow> None | Some n \<Rightarrow> if n < 2 ^ bits then Some n else None)"

definition parseReplayLineage :: "(string \<rightharpoonup> string) \<Rightarrow> go_err + string \<times> string \<times> 32 word" where
  "parseReplayLineage fs =
     (case (fs ''replay_original_dead_letter_id'', fs ''replay_prior_dead_letter_id'', fs ''replay_generation'') of
        (None, None, None) \<Rightarrow> Inr ('''', '''', 0)
      | (None, _, _) \<Rightarrow> Inl (sentinel ''replay original identifier is missing'')
      | (_, None, _) \<Rightarrow> Inl (sentinel ''replay prior identifier is missing'')
      | (_, _, None) \<Rightarrow> Inl (sentinel ''replay generation is missing'')
      | (Some original, Some prior, Some generationText) \<Rightarrow>
          if TrimSpace original = '''' then Inl (sentinel ''replay original identifier is blank'')
          else if TrimSpace prior = '''' then Inl (sentinel ''replay prior identifier is blank'')
          else if length original > MaxIdentityBytes then Inl (sentinel ''replay original identifier is too long'')
          else if length prior > MaxIdentityBytes then Inl (sentinel ''replay prior identifier is too long'')
          else (case ParseUint 32 generationText of
                  None \<Rightarrow> Inl (sentinel ''invalid replay generation'')
                | Some generation \<Rightarrow>
                    if generation = 0 then Inl (sentinel ''invalid replay generation'')
                    else Inr (original, prior, of_nat generation)))"

definition applyReplayLineage :: "Delivery \<Rightarrow> (string \<rightharpoonup> string) \<Rightarrow> go_err + Delivery" where
  "applyReplayLineage delivery fs =
     (case parseReplayLineage fs of
        Inl err \<Rightarrow> Inl malformedResponse
      | Inr (original, prior, generation) \<Rightarrow>
          Inr (delivery\<lparr>dl_OriginalDeadLetterID := original, dl_PriorDeadLetterID := prior,
                 dl_ReplayGeneration := generation\<rparr>))"

definition new_delivery :: "string \<Rightarrow> bytes \<Rightarrow> int \<Rightarrow> bool \<Rightarrow> Delivery" where
  "new_delivery ident body attempts reclaimed =
     \<lparr>dl_ID = ident, dl_Body = body, dl_Attempts = attempts, dl_Reclaimed = reclaimed,
      dl_OriginalDeadLetterID = '''', dl_PriorDeadLetterID = '''', dl_ReplayGeneration = 0\<rparr>"

fun convertEntries :: "XRangeEntry list \<Rightarrow> int \<Rightarrow> bool \<Rightarrow> go_err + Delivery list" where
  "convertEntries [] attempts reclaimed = Inr []"
| "convertEntries (entry # entries) attempts reclaimed =
     (case xe_FieldValues entry ''body'' of
        None \<Rightarrow> Inl malformedResponse
      | Some body \<Rightarrow>
          (case applyReplayLineage (new_delivery (xe_ID entry) body attempts reclaimed) (xe_FieldValues entry) of
             Inl err \<Rightarrow> Inl err
           | Inr delivery \<Rightarrow> map_sum id (Cons delivery) (convertEntries entries attempts reclaimed)))"

fun alternating_pairs :: "any list \<Rightarrow> (string \<rightharpoonup> string) \<Rightarrow> (string \<rightharpoonup> string) option" where
  "alternating_pairs [] fs = Some fs"
| "alternating_pairs (AString field # AString v # rest) fs =
     (if field = '''' then None else alternating_pairs rest (fs(field \<mapsto> v)))"
| "alternating_pairs _ fs = None"

fun alternatingFields :: "any \<Rightarrow> (string \<rightharpoonup> string) option" where
  "alternatingFields (AArray vals) = alternating_pairs vals Map.empty"
| "alternatingFields _ = None"

fun claim_entries :: "any list \<Rightarrow> go_err + Delivery list" where
  "claim_entries [] = Inr []"
| "claim_entries (AArray [AString ident, rawFields] # entries) =
     (if ident = '''' then Inl malformedResponse
      else case alternatingFields rawFields of
          None \<Rightarrow> Inl malformedResponse
        | Some fs \<Rightarrow>
            (case fs ''body'' of
               None \<Rightarrow> Inl malformedResponse
             | Some body \<Rightarrow>
                 (case applyReplayLineage (new_delivery ident body 1 True) fs of
                    Inl err \<Rightarrow> Inl err
                  | Inr delivery \<Rightarrow> map_sum id (Cons delivery) (claim_entries entries))))"
| "claim_entries (_ # entries) = Inl malformedResponse"

fun parseClaimResponse :: "any \<Rightarrow> go_err + ClaimResult" where
  "parseClaimResponse (AArray (AString next # AArray entries # rest)) =
     (if next = '''' then Inl malformedResponse
      else map_sum id (\<lambda>deliveries. \<lparr>cr_Next = next, cr_Deliveries = deliveries\<rparr>) (claim_entries entries))"
| "parseClaimResponse _ = Inl malformedResponse"

fun parsePendingAttempts :: "any \<Rightarrow> go_err + int" where
  "parsePendingAttempts (AArray [AArray [ident, consumer, idle, AInt attempts]]) =
     (if attempts < 1 then Inl malformedResponse else Inr attempts)"
| "parsePendingAttempts _ = Inl malformedResponse"

fun parseOldestPendingID :: "any \<Rightarrow> go_err + string" where
  "parseOldestPendingID (AArray [AArray [AString ident, consumer, idle, attempts]]) =
     (if ident = '''' then Inl malformedResponse else Inr ident)"
| "parseOldestPendingID _ = Inl malformedResponse"

fun group_states :: "any list \<Rightarrow> string \<Rightarrow> go_err + GroupState" where
  "group_states [] grp = Inl (sentinel ''valkeystream: consumer group does not exist'')"
| "group_states (AMap fs # groups) grp =
     (case fs ''name'' of
        Some (AString name) \<Rightarrow>
          if name \<noteq> grp then group_states groups grp
          else (case (fs ''pending'', fs ''lag'') of
                  (Some (AInt pending), Some (AInt lag)) \<Rightarrow>
                    if pending < 0 \<or> lag < - 1 then Inl malformedResponse
                    else Inr \<lparr>gs_Pending = of_int pending, gs_Lag = of_int lag, gs_OldestPendingID = ''''\<rparr>
                | _ \<Rightarrow> Inl malformedResponse)
      | _ \<Rightarrow> Inl malformedResponse)"
| "group_states (_ # groups) grp = Inl malformedResponse"

fun parseGroupState :: "any \<Rightarrow> string \<Rightarrow> go_err + GroupState" where
  "parseGroupState (AArray groups) grp = group_states groups grp"
| "parseGroupState _ grp = Inl malformedResponse"


section \<open>Records\<close>

record nativeRecord =
  nr_ID :: string
  nr_OriginalID :: string
  nr_Body :: bytes
  nr_Attempts :: int
  nr_OccurredAt :: go_time
  nr_EnvelopeVersion :: "16 word"
  nr_Source :: string
  nr_Group :: string
  nr_Classification :: classification
  nr_FailureCode :: string
  nr_OriginalDeadLetterID :: string
  nr_PriorDeadLetterID :: string
  nr_ReplayGeneration :: "32 word"

text \<open>The string behind a \<^verbatim>\<open>management.Classification\<close>, and back.\<close>

fun classification_text :: "classification \<Rightarrow> string" where
  "classification_text ClassificationRetryable = ''retryable''"
| "classification_text ClassificationPermanent = ''permanent''"
| "classification_text ClassificationMalformed = ''malformed''"
| "classification_text ClassificationCanceled = ''canceled''"
| "classification_text ClassificationInfrastructure = ''infrastructure''"
| "classification_text (OtherClassification s) = s"

definition classification_of :: "string \<Rightarrow> classification" where
  "classification_of s =
     (if s = ''retryable'' then ClassificationRetryable else if s = ''permanent'' then ClassificationPermanent
      else if s = ''malformed'' then ClassificationMalformed else if s = ''canceled'' then ClassificationCanceled
      else if s = ''infrastructure'' then ClassificationInfrastructure else OtherClassification s)"

definition recordTime :: "string \<Rightarrow> go_err + go_time" where
  "recordTime ident =
     (case strings_Cut (CHR ''-'') ident of
        None \<Rightarrow> Inl (sentinel ''invalid stream identifier'')
      | Some (milliseconds, _) \<Rightarrow>
          (case Atoi milliseconds of
             None \<Rightarrow> Inl (sentinel ''strconv.ParseInt'')
           | Some v \<Rightarrow> Inr (UTC (UnixMilli v))))"

abbreviation malformed_record :: go_err where
  "malformed_record \<equiv> sentinel ''valkeystream: malformed management record''"

abbreviation field_or_empty :: "(string \<rightharpoonup> string) \<Rightarrow> string \<Rightarrow> string" where
  "field_or_empty fs name \<equiv> (case fs name of None \<Rightarrow> '''' | Some v \<Rightarrow> v)"

text \<open>One entry: the fields every record has, and those of a versioned record.\<close>

definition unversioned_record :: "XRangeEntry \<Rightarrow> go_err + nativeRecord" where
  "unversioned_record entry =
     (let fs = xe_FieldValues entry
      in case (fs ''body'', fs ''original_id'', fs ''delivery_attempts'', recordTime (xe_ID entry)) of
           (Some body, Some originalID, Some attemptText, Inr occurredAt) \<Rightarrow>
             (case Atoi attemptText of
                None \<Rightarrow> Inl malformed_record
              | Some attempts \<Rightarrow>
                  if originalID = '''' \<or> attempts < 1 then Inl malformed_record
                  else Inr \<lparr>nr_ID = xe_ID entry, nr_OriginalID = originalID, nr_Body = body, nr_Attempts = attempts,
                         nr_OccurredAt = occurredAt, nr_EnvelopeVersion = 0, nr_Source = '''', nr_Group = '''',
                         nr_Classification = OtherClassification '''', nr_FailureCode = '''',
                         nr_OriginalDeadLetterID = '''', nr_PriorDeadLetterID = '''', nr_ReplayGeneration = 0\<rparr>)
         | _ \<Rightarrow> Inl malformed_record)"

definition versioned_record :: "(string \<rightharpoonup> string) \<Rightarrow> string \<Rightarrow> nativeRecord \<Rightarrow> go_err + nativeRecord" where
  "versioned_record fs versionText current =
     (case ParseUint 16 versionText of
        None \<Rightarrow> Inl malformed_record
      | Some version \<Rightarrow>
          if of_nat version \<noteq> CurrentEnvelopeVersion then Inl malformed_record
          else let classification = classification_of (field_or_empty fs ''classification'');
                   failureCode = field_or_empty fs ''failure_code'';
                   source = field_or_empty fs ''source_stream'';
                   grp = field_or_empty fs ''consumer_group''
               in if Failure_Validate classification failureCode \<noteq> None \<or> source = '''' \<or> grp = ''''
                  then Inl malformed_record
                  else (case parseReplayLineage fs of
                          Inl err \<Rightarrow> Inl (sentinel ''valkeystream: malformed replay lineage'')
                        | Inr (original, prior, generation) \<Rightarrow>
                            Inr (current\<lparr>nr_EnvelopeVersion := of_nat version, nr_Source := source, nr_Group := grp,
                              nr_Classification := classification, nr_FailureCode := failureCode,
                              nr_OriginalDeadLetterID := original, nr_PriorDeadLetterID := prior,
                              nr_ReplayGeneration := generation\<rparr>)))"

definition convertNativeRecord :: "XRangeEntry \<Rightarrow> go_err + nativeRecord" where
  "convertNativeRecord entry =
     (case unversioned_record entry of
        Inl err \<Rightarrow> Inl err
      | Inr current \<Rightarrow>
          (case xe_FieldValues entry ''envelope_version'' of
             None \<Rightarrow> Inr current
           | Some versionText \<Rightarrow> versioned_record (xe_FieldValues entry) versionText current))"

fun convertNativeRecords :: "XRangeEntry list \<Rightarrow> go_err + nativeRecord list" where
  "convertNativeRecords [] = Inr []"
| "convertNativeRecords (entry # entries) =
     (case convertNativeRecord entry of
        Inl err \<Rightarrow> Inl err
      | Inr r \<Rightarrow> map_sum id (Cons r) (convertNativeRecords entries))"

section \<open>Commands\<close>

datatype valkey_command =
    CmdCreateGroup string string
  | CmdEnqueue string int bytes
  | CmdReadGroup string string int int string
  | CmdAutoClaim string string string int string int
  | CmdPendingEntry string string string
  | CmdAcknowledge string string string
  | CmdAppend string int "(string \<times> string) list"
  | CmdRange string string string int
  | CmdRevRange string string string int
  | CmdRetry string string string string string record_source int
  | CmdReplay string string string string string ReplayPolicy string int
  | CmdDeleteEntry string string
  | CmdDeleteStream string
  | CmdGroups string
  | CmdOldestPending string string

datatype valkey_reply =
    ReplyError go_err
  | ReplyNil
  | ReplyText string
  | ReplyInt int
  | ReplyAny any
  | ReplyRead "string \<rightharpoonup> XRangeEntry list"
  | ReplyRange "XRangeEntry list"

type_synonym 's client = "valkey_command \<Rightarrow> 's \<Rightarrow> valkey_reply \<times> 's"

abbreviation valkey_Nil :: go_err where "valkey_Nil \<equiv> sentinel ''valkey.Nil''"
abbreviation reply_mismatch :: go_err where "reply_mismatch \<equiv> sentinel ''valkey: unexpected reply''"

fun reply_Error :: "valkey_reply \<Rightarrow> error" where
  "reply_Error (ReplyError err) = Some err"
| "reply_Error ReplyNil = Some valkey_Nil"
| "reply_Error _ = None"

fun ToString :: "valkey_reply \<Rightarrow> go_err + string" where
  "ToString (ReplyError err) = Inl err"
| "ToString ReplyNil = Inl valkey_Nil"
| "ToString (ReplyText s) = Inr s"
| "ToString _ = Inl reply_mismatch"

fun ToInt64 :: "valkey_reply \<Rightarrow> go_err + int" where
  "ToInt64 (ReplyError err) = Inl err"
| "ToInt64 ReplyNil = Inl valkey_Nil"
| "ToInt64 (ReplyInt i) = Inr i"
| "ToInt64 _ = Inl reply_mismatch"

fun ToAny :: "valkey_reply \<Rightarrow> go_err + any" where
  "ToAny (ReplyError err) = Inl err"
| "ToAny ReplyNil = Inl valkey_Nil"
| "ToAny (ReplyAny a) = Inr a"
| "ToAny _ = Inl reply_mismatch"

fun AsXRange :: "valkey_reply \<Rightarrow> go_err + XRangeEntry list" where
  "AsXRange (ReplyError err) = Inl err"
| "AsXRange ReplyNil = Inl valkey_Nil"
| "AsXRange (ReplyRange es) = Inr es"
| "AsXRange _ = Inl reply_mismatch"

fun AsXRead :: "valkey_reply \<Rightarrow> go_err + (string \<rightharpoonup> XRangeEntry list)" where
  "AsXRead (ReplyError err) = Inl err"
| "AsXRead ReplyNil = Inl valkey_Nil"
| "AsXRead (ReplyRead m) = Inr m"
| "AsXRead _ = Inl reply_mismatch"

text \<open>\<^verbatim>\<open>Duration.Milliseconds\<close> rounds towards zero.\<close>

definition Milliseconds :: "duration \<Rightarrow> int" where
  "Milliseconds d = (if d < 0 then - ((- d) div 1000000) else d div 1000000)"


section \<open>Operations\<close>

record nativeTransport =
  nt_maxLength :: int
  nt_recordMaxLength :: int
  nt_maxPayloadBytes :: int

definition newNativeTransport :: "int \<Rightarrow> int \<Rightarrow> nativeTransport" where
  "newNativeTransport maxLength maxPayloadBytes =
     \<lparr>nt_maxLength = maxLength, nt_recordMaxLength = 0, nt_maxPayloadBytes = maxPayloadBytes\<rparr>"

abbreviation MaxInt64 :: int where "MaxInt64 \<equiv> 2 ^ 63 - 1"

definition nt_EnsureGroup :: "'s client \<Rightarrow> string \<Rightarrow> string \<Rightarrow> 's \<Rightarrow> error \<times> 's" where
  "nt_EnsureGroup client stream grp s =
     (if stream = '''' \<or> grp = '''' then (Some ErrInvalidSemanticRequest, s)
      else let (reply, s) = client (CmdCreateGroup stream grp) s
           in case reply_Error reply of
                None \<Rightarrow> (None, s)
              | Some err \<Rightarrow> if errors_Is err ''valkey.BusyGroup'' then (None, s) else (Some (safeerr_Wrap (Some err)), s))"

definition nt_Add :: "nativeTransport \<Rightarrow> 's client \<Rightarrow> AddRequest \<Rightarrow> 's \<Rightarrow> (go_err + string) \<times> 's" where
  "nt_Add t client request s =
     (case AddRequest_Validate request (nt_maxPayloadBytes t) of
        Some err \<Rightarrow> (Inl err, s)
      | None \<Rightarrow>
          let (reply, s) = client (CmdEnqueue (add_Stream request) (add_MaxLength request) (add_Body request)) s
          in (case ToString reply of
                Inl err \<Rightarrow> Inl (safeerr_Wrap (Some err))
              | Inr ident \<Rightarrow> if ident = ''capacity'' then Inl (sentinel ''queue.ErrMaxCapacity'') else Inr ident, s))"

definition nt_Read :: "'s client \<Rightarrow> ReadRequest \<Rightarrow> 's \<Rightarrow> (go_err + Delivery list) \<times> 's" where
  "nt_Read client request s =
     (case ReadRequest_Validate request of
        Some err \<Rightarrow> (Inl err, s)
      | None \<Rightarrow>
          let (reply, s) = client (CmdReadGroup (rd_Group request) (rd_Consumer request) (rd_Count request)
                 (Milliseconds (rd_Block request)) (rd_Stream request)) s
          in (case AsXRead reply of
                Inl err \<Rightarrow> if errors_Is err ''valkey.Nil'' then Inr [] else Inl (safeerr_Wrap (Some err))
              | Inr streams \<Rightarrow>
                  convertEntries (case streams (rd_Stream request) of None \<Rightarrow> [] | Some es \<Rightarrow> es) 1 False, s))"

definition nt_deliveryAttempts :: "'s client \<Rightarrow> string \<Rightarrow> string \<Rightarrow> string \<Rightarrow> 's \<Rightarrow> (go_err + int) \<times> 's" where
  "nt_deliveryAttempts client stream grp ident s =
     (let (reply, s) = client (CmdPendingEntry stream grp ident) s
      in (case ToAny reply of
            Inl err \<Rightarrow> Inl (safeerr_Wrap (Some err))
          | Inr v \<Rightarrow> parsePendingAttempts v, s))"

fun attempts_loop :: "'s client \<Rightarrow> string \<Rightarrow> string \<Rightarrow> Delivery list \<Rightarrow> 's \<Rightarrow> (go_err + Delivery list) \<times> 's" where
  "attempts_loop client stream grp [] s = (Inr [], s)"
| "attempts_loop client stream grp (d # ds) s =
     (case nt_deliveryAttempts client stream grp (dl_ID d) s of
        (Inl err, s) \<Rightarrow> (Inl err, s)
      | (Inr attempts, s) \<Rightarrow>
          map_prod (map_sum id (Cons (d\<lparr>dl_Attempts := attempts\<rparr>))) id (attempts_loop client stream grp ds s))"

definition nt_Claim :: "'s client \<Rightarrow> ClaimRequest \<Rightarrow> 's \<Rightarrow> (go_err + ClaimResult) \<times> 's" where
  "nt_Claim client request s =
     (case ClaimRequest_Validate request of
        Some err \<Rightarrow> (Inl err, s)
      | None \<Rightarrow>
          let (reply, s) = client (CmdAutoClaim (cl_Stream request) (cl_Group request) (cl_Consumer request)
                 (Milliseconds (cl_MinIdle request)) (cl_Start request) (cl_Count request)) s
          in (case ToAny reply of
                Inl err \<Rightarrow> (Inl (safeerr_Wrap (Some err)), s)
              | Inr v \<Rightarrow>
                  (case parseClaimResponse v of
                     Inl err \<Rightarrow> (Inl err, s)
                   | Inr result \<Rightarrow>
                       map_prod (map_sum id (\<lambda>ds. result\<lparr>cr_Deliveries := ds\<rparr>)) id
                         (attempts_loop client (cl_Stream request) (cl_Group request) (cr_Deliveries result) s))))"

abbreviation FailureCodeLeaseLost :: string where "FailureCodeLeaseLost \<equiv> ''lease_lost''"

abbreviation FailureCodeDeadLetterDestinationUnavailable :: string where
  "FailureCodeDeadLetterDestinationUnavailable \<equiv> ''dead_letter_destination_unavailable''"

definition nt_Ack :: "'s client \<Rightarrow> AckRequest \<Rightarrow> 's \<Rightarrow> error \<times> 's" where
  "nt_Ack client request s =
     (case AckRequest_Validate request of
        Some err \<Rightarrow> (Some err, s)
      | None \<Rightarrow>
          let (reply, s) = client (CmdAcknowledge (ack_Stream request) (ack_Group request) (ack_ID request)) s
          in (case ToString reply of
                Inl err \<Rightarrow> Some (safeerr_Wrap (Some err))
              | Inr outcome \<Rightarrow>
                  if outcome = ''lease_lost''
                  then Some (NewFailure ClassificationInfrastructure FailureCodeLeaseLost
                    (Some (sentinel ''valkey stream delivery is no longer pending'')))
                  else if outcome \<noteq> ''deleted'' \<and> outcome \<noteq> ''retained'' then Some malformedResponse
                  else None, s))"

text \<open>The fields of a record, in the order they are appended.\<close>

definition record_fields :: "string \<Rightarrow> string \<Rightarrow> Delivery \<Rightarrow> FailureMetadata \<Rightarrow> (string \<times> string) list" where
  "record_fields source grp delivery failure =
     [(''body'', dl_Body delivery), (''original_id'', dl_ID delivery),
      (''delivery_attempts'', Itoa (dl_Attempts delivery)),
      (''envelope_version'', Itoa (uint CurrentEnvelopeVersion)),
      (''classification'', classification_text (fm_Classification failure)),
      (''failure_code'', fm_Code failure), (''source_stream'', source), (''consumer_group'', grp)] @
     (if dl_ReplayGeneration delivery > 0
      then [(''replay_original_dead_letter_id'', dl_OriginalDeadLetterID delivery),
            (''replay_prior_dead_letter_id'', dl_PriorDeadLetterID delivery),
            (''replay_generation'', Itoa (uint (dl_ReplayGeneration delivery)))]
      else [])"

definition nt_appendRecord ::
  "nativeTransport \<Rightarrow> 's client \<Rightarrow> string \<Rightarrow> string \<Rightarrow> string \<Rightarrow> Delivery \<Rightarrow> FailureMetadata \<Rightarrow> 's \<Rightarrow> error \<times> 's" where
  "nt_appendRecord t client destination source grp delivery failure s =
     (if destination = '''' \<or> source = '''' \<or> grp = '''' \<or> dl_ID delivery = '''' \<or> dl_Attempts delivery < 1 \<or>
         int (length (dl_Body delivery)) > nt_maxPayloadBytes t \<or> FailureMetadata_Validate failure \<noteq> None
      then (Some ErrInvalidSemanticRequest, s)
      else let recordLimit = (if nt_recordMaxLength t = 0 then MaxInt64 else nt_recordMaxLength t);
               (reply, s) = client (CmdAppend destination recordLimit (record_fields source grp delivery failure)) s
           in (map_option (\<lambda>err. safeerr_Wrap (Some err)) (reply_Error reply), s))"

definition nt_RecordFailure ::
  "nativeTransport \<Rightarrow> 's client \<Rightarrow> string \<Rightarrow> string \<Rightarrow> string \<Rightarrow> Delivery \<Rightarrow> FailureMetadata \<Rightarrow> 's \<Rightarrow> error \<times> 's" where
  "nt_RecordFailure t client destination source grp delivery failure s =
     nt_appendRecord t client destination source grp delivery failure s"

definition nt_AppendDeadLetter ::
  "nativeTransport \<Rightarrow> 's client \<Rightarrow> string \<Rightarrow> string \<Rightarrow> string \<Rightarrow> Delivery \<Rightarrow> FailureMetadata \<Rightarrow> 's \<Rightarrow> error \<times> 's" where
  "nt_AppendDeadLetter t client destination source grp delivery failure s =
     (case nt_appendRecord t client destination source grp delivery failure s of
        (Some err, s) \<Rightarrow>
          (Some (NewFailure ClassificationInfrastructure FailureCodeDeadLetterDestinationUnavailable (Some err)), s)
      | (None, s) \<Rightarrow> (None, s))"

definition nt_DeadLetter :: "nativeTransport \<Rightarrow> 's client \<Rightarrow> DeadLetterRequest \<Rightarrow> 's \<Rightarrow> error \<times> 's" where
  "nt_DeadLetter t client request s =
     (case DeadLetterRequest_Validate request (nt_maxPayloadBytes t) of
        Some err \<Rightarrow> (Some err, s)
      | None \<Rightarrow>
          (case nt_AppendDeadLetter t client (dlr_Destination request) (dlr_Source request) (dlr_Group request)
                  (dlr_Delivery request) (dlr_Failure request) s of
             (Some err, s) \<Rightarrow> (Some err, s)
           | (None, s) \<Rightarrow>
               (case nt_Ack client \<lparr>ack_Stream = dlr_Source request, ack_Group = dlr_Group request,
                       ack_ID = dl_ID (dlr_Delivery request)\<rparr> s of
                  (Some err, s) \<Rightarrow> (Some (safeerr_Wrap (Some err)), s)
                | (None, s) \<Rightarrow> (None, s))))"


section \<open>Records and control commands\<close>

definition valkeyRecordReadError :: "go_err \<Rightarrow> go_err" where
  "valkeyRecordReadError err =
     (if errors_Is err ''context.Canceled'' \<or> errors_Is err ''context.DeadlineExceeded'' then err
      else Joined [Some (sentinel ''management.ErrManagementUnavailable''), Some (safeerr_Wrap (Some err))])"

definition nt_ReadRecords :: "nativeTransport \<Rightarrow> 's client \<Rightarrow> string \<Rightarrow> 's \<Rightarrow> (go_err + nativeRecord list) \<times> 's" where
  "nt_ReadRecords t client stream s =
     (if stream = '''' then (Inl ErrInvalidSemanticRequest, s)
      else let readLimit = max (nt_maxLength t) (uint MaxBulkSelection);
               (reply, s) = client (CmdRange stream ''-'' ''+'' readLimit) s
           in (case AsXRange reply of
                 Inl err \<Rightarrow> Inl (valkeyRecordReadError err)
               | Inr entries \<Rightarrow> convertNativeRecords entries, s))"

definition nt_ReadRecordPage ::
  "'s client \<Rightarrow> string \<Rightarrow> string \<Rightarrow> int \<Rightarrow> SortDirection \<Rightarrow> 's \<Rightarrow> (go_err + nativeRecord list) \<times> 's" where
  "nt_ReadRecordPage client stream cursor limit direction s =
     (if stream = '''' \<or> limit \<le> 0 then (Inl ErrInvalidSemanticRequest, s)
      else let command =
                 (if direction = SortDescending
                  then CmdRevRange stream (if cursor = '''' then ''+'' else ''('' @ cursor) ''-'' limit
                  else CmdRange stream (if cursor = '''' then ''-'' else ''('' @ cursor) ''+'' limit);
               (reply, s) = client command s
           in (case AsXRange reply of
                 Inl err \<Rightarrow> Inl (valkeyRecordReadError err)
               | Inr entries \<Rightarrow> convertNativeRecords entries, s))"

definition nt_ReadRecord :: "'s client \<Rightarrow> string \<Rightarrow> string \<Rightarrow> 's \<Rightarrow> (go_err + nativeRecord option) \<times> 's" where
  "nt_ReadRecord client stream ident s =
     (if stream = '''' \<or> ident = '''' then (Inl ErrInvalidSemanticRequest, s)
      else let (reply, s) = client (CmdRange stream ident ident 1) s
           in (case AsXRange reply of
                 Inl err \<Rightarrow> Inl (valkeyRecordReadError err)
               | Inr [entry] \<Rightarrow>
                   if xe_ID entry \<noteq> ident then Inr None
                   else (case convertNativeRecords [entry] of Inl err \<Rightarrow> Inl err | Inr rs \<Rightarrow> Inr (Some (hd rs)))
               | Inr _ \<Rightarrow> Inr None, s))"

datatype nativeRetryOutcome =
    nativeRetryOK | nativeRetryNotFound | nativeRetryStale | nativeRetryMalformed | nativeRetryCapacity

definition retry_outcome :: "string \<Rightarrow> nativeRetryOutcome option" where
  "retry_outcome v =
     (if v = ''ok'' then Some nativeRetryOK else if v = ''not_found'' then Some nativeRetryNotFound
      else if v = ''stale'' then Some nativeRetryStale else if v = ''malformed'' then Some nativeRetryMalformed
      else if v = ''capacity'' then Some nativeRetryCapacity else None)"

definition nt_RetryRecord ::
  "nativeTransport \<Rightarrow> 's client \<Rightarrow> string \<Rightarrow> string \<Rightarrow> string \<Rightarrow> string \<Rightarrow> string \<Rightarrow> bool \<Rightarrow> 's \<Rightarrow>
    (go_err + nativeRetryOutcome) \<times> 's" where
  "nt_RetryRecord t client recordStream recordID destination source grp failure s =
     (if recordStream = '''' \<or> recordID = '''' \<or> destination = '''' \<or> failure \<and> (source = '''' \<or> grp = '''')
      then (Inl ErrInvalidSemanticRequest, s)
      else let kind = (if failure then RetryFailure else RetryDeadLetter);
               sourceKey = (if failure then source else destination);
               (reply, s) = client (CmdRetry recordStream destination sourceKey recordID grp kind (nt_maxLength t)) s
           in (case ToString reply of
                 Inl err \<Rightarrow> Inl (safeerr_Wrap (Some err))
               | Inr v \<Rightarrow> (case retry_outcome v of None \<Rightarrow> Inl malformedResponse | Some outcome \<Rightarrow> Inr outcome), s))"

datatype nativeReplayOutcome =
    nativeReplayOK | nativeReplayNotFound | nativeReplayMalformed | nativeReplayDuplicate | nativeReplayCapacity

definition replay_outcome :: "string \<Rightarrow> nativeReplayOutcome option" where
  "replay_outcome v =
     (if v = ''ok'' then Some nativeReplayOK else if v = ''not_found'' then Some nativeReplayNotFound
      else if v = ''malformed'' then Some nativeReplayMalformed else if v = ''duplicate'' then Some nativeReplayDuplicate
      else if v = ''capacity'' then Some nativeReplayCapacity else None)"

definition nt_ReplayRecord ::
  "nativeTransport \<Rightarrow> 's client \<Rightarrow> string \<Rightarrow> string \<Rightarrow> string \<Rightarrow> ReplayPolicy \<Rightarrow> 's \<Rightarrow>
    (go_err + nativeReplayOutcome) \<times> 's" where
  "nt_ReplayRecord t client recordStream recordID destination policy s =
     (if recordStream = '''' \<or> recordID = '''' \<or> destination = '''' \<or>
         policy \<noteq> ReplayRejectDuplicate \<and> policy \<noteq> ReplayReplaceDuplicate
      then (Inl ErrInvalidSemanticRequest, s)
      else let replayKey = RawURL_EncodeToString (recordStream @ [CHR 0x00] @ recordID);
               registry = destination @ '':queue:replay-index'';
               order = destination @ '':queue:replay-order'';
               (reply, s) = client (CmdReplay recordStream destination registry order recordID policy replayKey
                 (nt_maxLength t)) s
           in (case ToString reply of
                 Inl err \<Rightarrow> Inl (safeerr_Wrap (Some err))
               | Inr v \<Rightarrow> (case replay_outcome v of None \<Rightarrow> Inl malformedResponse | Some outcome \<Rightarrow> Inr outcome), s))"

definition nt_DeleteRecord :: "'s client \<Rightarrow> string \<Rightarrow> string \<Rightarrow> 's \<Rightarrow> (go_err + bool) \<times> 's" where
  "nt_DeleteRecord client stream ident s =
     (if stream = '''' \<or> ident = '''' then (Inl ErrInvalidSemanticRequest, s)
      else let (reply, s) = client (CmdDeleteEntry stream ident) s
           in (case ToInt64 reply of
                 Inl err \<Rightarrow> Inl (safeerr_Wrap (Some err))
               | Inr deleted \<Rightarrow> if deleted < 0 \<or> deleted > 1 then Inl malformedResponse else Inr (deleted = 1), s))"

definition nt_PurgeRecords :: "'s client \<Rightarrow> string \<Rightarrow> 's \<Rightarrow> error \<times> 's" where
  "nt_PurgeRecords client stream s =
     (if stream = '''' then (Some ErrInvalidSemanticRequest, s)
      else let (reply, s) = client (CmdDeleteStream stream) s
           in (case ToInt64 reply of
                 Inl err \<Rightarrow> Some (safeerr_Wrap (Some err))
               | Inr deleted \<Rightarrow> if deleted < 0 \<or> deleted > 1 then Some malformedResponse else None, s))"

definition nt_GroupState :: "'s client \<Rightarrow> string \<Rightarrow> string \<Rightarrow> 's \<Rightarrow> (go_err + GroupState) \<times> 's" where
  "nt_GroupState client stream grp s =
     (if stream = '''' \<or> grp = '''' then (Inl ErrInvalidSemanticRequest, s)
      else let (reply, s) = client (CmdGroups stream) s
           in case ToAny reply of
                Inl err \<Rightarrow> (Inl (safeerr_Wrap (Some err)), s)
              | Inr v \<Rightarrow>
                  (case parseGroupState v grp of
                     Inl err \<Rightarrow> (Inl err, s)
                   | Inr state \<Rightarrow>
                       if gs_Pending state = 0 then (Inr state, s)
                       else let (reply, s) = client (CmdOldestPending stream grp) s
                            in (case ToAny reply of
                                  Inl err \<Rightarrow> Inl (safeerr_Wrap (Some err))
                                | Inr v \<Rightarrow> map_sum id (\<lambda>ident. state\<lparr>gs_OldestPendingID := ident\<rparr>)
                                    (parseOldestPendingID v), s)))"

end
