(* ===== verification/Valkey_Roundtrip.thy ===== *)
theory Valkey_Roundtrip
  imports Valkey_Transport
begin

text \<open>
  Round trips of the native transport: what it appends for a delivery and what it reads back, also
  through the scripts that copy a record.
\<close>

section \<open>Round trips\<close>

lemma Itoa_uint: "Itoa (uint (w :: 'a :: len word)) = Itoa_nat (unat w)"
  by (simp add: Itoa_def)

lemma ParseUint_Itoa: "n < 2 ^ bits \<Longrightarrow> ParseUint bits (Itoa_nat n) = Some n"
  by (simp add: ParseUint_def digits_value_Itoa)

lemma classification_of_text: "classification_valid c \<Longrightarrow> classification_of (classification_text c) = c"
  by (cases c) (simp_all add: classification_of_def)

lemma recordTime_stream_id: "int ms < 2 ^ 63 \<Longrightarrow> recordTime (stream_id ms number) = Inr (UTC (UnixMilli (int ms)))"
  using Atoi_Itoa [of ms] by (simp add: recordTime_def strings_Cut_stream_id Itoa_def)

lemma parseReplayLineage_none:
  assumes "fs ''replay_original_dead_letter_id'' = None" and "fs ''replay_prior_dead_letter_id'' = None"
    and "fs ''replay_generation'' = None"
  shows "parseReplayLineage fs = Inr ('''', '''', 0)"
  unfolding parseReplayLineage_def assms by simp

lemma parseReplayLineage_some:
  assumes "fs ''replay_original_dead_letter_id'' = Some original" and "fs ''replay_prior_dead_letter_id'' = Some prior"
    and "fs ''replay_generation'' = Some (Itoa_nat generation)"
    and "TrimSpace original \<noteq> ''''" and "TrimSpace prior \<noteq> ''''"
    and "length original \<le> MaxIdentityBytes" and "length prior \<le> MaxIdentityBytes"
    and "generation < 2 ^ 32" and "generation \<noteq> 0"
  shows "parseReplayLineage fs = Inr (original, prior, of_nat generation)"
  unfolding parseReplayLineage_def assms(1-3) using assms(4-) by (simp add: ParseUint_Itoa)

lemma lineage_fields:
  "dl_ReplayGeneration d = 0 \<Longrightarrow> map_of (record_fields source grp d failure) ''replay_original_dead_letter_id'' = None"
  "dl_ReplayGeneration d = 0 \<Longrightarrow> map_of (record_fields source grp d failure) ''replay_prior_dead_letter_id'' = None"
  "dl_ReplayGeneration d = 0 \<Longrightarrow> map_of (record_fields source grp d failure) ''replay_generation'' = None"
  "dl_ReplayGeneration d > 0 \<Longrightarrow> map_of (record_fields source grp d failure) ''replay_original_dead_letter_id'' =
     Some (dl_OriginalDeadLetterID d)"
  "dl_ReplayGeneration d > 0 \<Longrightarrow> map_of (record_fields source grp d failure) ''replay_prior_dead_letter_id'' =
     Some (dl_PriorDeadLetterID d)"
  "dl_ReplayGeneration d > 0 \<Longrightarrow> map_of (record_fields source grp d failure) ''replay_generation'' =
     Some (Itoa_nat (unat (dl_ReplayGeneration d)))"
  by (simp_all add: record_fields_def Itoa_uint)

lemma parse_delivery_lineage:
  assumes "validateReplayLineage d = None"
  shows "parseReplayLineage (map_of (record_fields source grp d failure)) =
    Inr (dl_OriginalDeadLetterID d, dl_PriorDeadLetterID d, dl_ReplayGeneration d)"
proof (cases "dl_ReplayGeneration d = 0")
  case True
  then have "dl_OriginalDeadLetterID d = ''''" "dl_PriorDeadLetterID d = ''''"
    using assms by (auto simp: validateReplayLineage_def Let_def split: if_splits)
  with True show ?thesis by (simp add: parseReplayLineage_none lineage_fields)
next
  case False
  then have pos: "dl_ReplayGeneration d > 0" "unat (dl_ReplayGeneration d) \<noteq> 0"
    by (simp_all add: word_gt_0 unat_eq_zero)
  have "TrimSpace (dl_OriginalDeadLetterID d) \<noteq> '''' \<and> TrimSpace (dl_PriorDeadLetterID d) \<noteq> '''' \<and>
      length (dl_OriginalDeadLetterID d) \<le> MaxIdentityBytes \<and> length (dl_PriorDeadLetterID d) \<le> MaxIdentityBytes"
    using assms False by (auto simp: validateReplayLineage_def Let_def split: if_splits)
  then show ?thesis
    using pos unsigned_less [of "dl_ReplayGeneration d"]
    by (subst parseReplayLineage_some [OF lineage_fields(4-6)]) simp_all
qed

definition stored_record :: "string \<Rightarrow> string \<Rightarrow> string \<Rightarrow> go_time \<Rightarrow> Delivery \<Rightarrow> FailureMetadata \<Rightarrow> nativeRecord" where
  "stored_record ident source grp occurredAt d failure =
     \<lparr>nr_ID = ident, nr_OriginalID = dl_ID d, nr_Body = dl_Body d, nr_Attempts = dl_Attempts d,
      nr_OccurredAt = occurredAt, nr_EnvelopeVersion = CurrentEnvelopeVersion, nr_Source = source, nr_Group = grp,
      nr_Classification = fm_Classification failure, nr_FailureCode = fm_Code failure,
      nr_OriginalDeadLetterID = dl_OriginalDeadLetterID d, nr_PriorDeadLetterID = dl_PriorDeadLetterID d,
      nr_ReplayGeneration = dl_ReplayGeneration d\<rparr>"

text \<open>
  C13: what the transport appends for a delivery it may append is what it reads back: the entry with
  these fields, under the identifier the server gave it, converts to the record of that delivery,
  with its failure, its replay lineage and the time of the append.
\<close>

theorem valkey_record_roundtrip:
  assumes "FailureMetadata_Validate failure = None" and "validateReplayLineage d = None"
    and "dl_ID d \<noteq> ''''" and "1 \<le> dl_Attempts d" and "dl_Attempts d < 2 ^ 63"
    and "source \<noteq> ''''" and "grp \<noteq> ''''" and "int ms < 2 ^ 63"
  shows "convertNativeRecord \<lparr>xe_ID = stream_id ms number, xe_FieldValues = map_of (record_fields source grp d failure)\<rparr> =
    Inr (stored_record (stream_id ms number) source grp (UTC (UnixMilli (int ms))) d failure)"
proof -
  have attempts: "Atoi (Itoa (dl_Attempts d)) = Some (dl_Attempts d)"
    using Atoi_Itoa [of "nat (dl_Attempts d)"] assms(4,5) by simp
  have version: "ParseUint 16 (Itoa_nat (unat CurrentEnvelopeVersion)) = Some (unat CurrentEnvelopeVersion)"
    by (intro ParseUint_Itoa) (simp add: CurrentEnvelopeVersion_def)
  have valid: "classification_valid (fm_Classification failure)"
    "Failure_Validate (fm_Classification failure) (fm_Code failure) = None"
    using assms(1) by (auto simp: FailureMetadata_Validate_def Failure_Validate_def split: if_splits)
  let ?fs = "map_of (record_fields source grp d failure)"
  have fields: "?fs ''body'' = Some (dl_Body d)" "?fs ''original_id'' = Some (dl_ID d)"
    "?fs ''delivery_attempts'' = Some (Itoa (dl_Attempts d))"
    "?fs ''envelope_version'' = Some (Itoa_nat (unat CurrentEnvelopeVersion))"
    "?fs ''classification'' = Some (classification_text (fm_Classification failure))"
    "?fs ''failure_code'' = Some (fm_Code failure)" "?fs ''source_stream'' = Some source"
    "?fs ''consumer_group'' = Some grp"
    by (simp_all add: record_fields_def Itoa_uint)
  show ?thesis
    using assms(3,4,6,7)
    by (simp add: convertNativeRecord_def unversioned_record_def versioned_record_def fields attempts version valid
        parse_delivery_lineage [OF assms(2)] recordTime_stream_id [OF assms(8)] classification_of_text stored_record_def)
qed


definition sample_failure :: FailureMetadata where
  "sample_failure = \<lparr>fm_Classification = ClassificationPermanent, fm_Code = ''bad''\<rparr>"

definition sample_stream_delivery :: Delivery where
  "sample_stream_delivery = \<lparr>dl_ID = ''1-0'', dl_Body = ''x'', dl_Attempts = 2, dl_Reclaimed = False,
     dl_OriginalDeadLetterID = ''7-0'', dl_PriorDeadLetterID = ''8-0'', dl_ReplayGeneration = 3\<rparr>"

lemma sample_stream_valid:
  "FailureMetadata_Validate sample_failure = None" "validateReplayLineage sample_stream_delivery = None"
  by (simp_all add: sample_failure_def sample_stream_delivery_def FailureMetadata_Validate_def Failure_Validate_def
      invalidIdentity_def validateReplayLineage_def MaxIdentityBytes_def)

theorem valkey_record_roundtrip_witness:
  "convertNativeRecord \<lparr>xe_ID = stream_id 5 6,
       xe_FieldValues = map_of (record_fields ''q'' ''g'' sample_stream_delivery sample_failure)\<rparr> =
     Inr (stored_record (stream_id 5 6) ''q'' ''g'' (UTC (UnixMilli 5)) sample_stream_delivery sample_failure)"
  using valkey_record_roundtrip [OF sample_stream_valid, of "''q''" "''g''" 5 6]
  by (simp add: sample_stream_delivery_def)

section \<open>Lineage of copies\<close>

definition flat :: "(string \<times> string) list \<Rightarrow> string list" where
  "flat fs = concat (map (\<lambda>(name, v). [name, v]) fs)"

lemma last_value_flat:
  "last_value key (flat fs) found = (case map_of (rev fs) key of None \<Rightarrow> found | Some v \<Rightarrow> Some v)"
  by (induction fs arbitrary: found) (auto simp: flat_def map_add_def split: option.splits)

lemma map_of_rev: "distinct (map fst fs) \<Longrightarrow> map_of (rev fs) = map_of fs"
proof (induction fs)
  case (Cons p fs)
  then have "map_of fs (fst p) = None" by (simp add: map_of_eq_None_iff)
  with Cons show ?case by (auto simp: map_add_def fun_eq_iff split: option.split)
qed simp

lemma last_value_distinct: "distinct (map fst fs) \<Longrightarrow> last_value key (flat fs) None = map_of fs key"
  by (simp add: last_value_flat map_of_rev split: option.split)

lemma record_fields_distinct: "distinct (map fst (record_fields source grp d failure))"
  by (cases "dl_ReplayGeneration d > 0") (simp_all only: record_fields_def, simp_all)

lemma record_field_lookup:
  "last_value key (flat (record_fields source grp d failure)) None = map_of (record_fields source grp d failure) key"
  by (rule last_value_distinct [OF record_fields_distinct])

text \<open>What the scripts rely on of the server's number syntax: 32-bit numbers are read and written in decimal.\<close>

definition decimal_numbers :: "'s server \<Rightarrow> bool" where
  "decimal_numbers sv \<longleftrightarrow>
     (\<forall>n < 2 ^ 32. tonumber sv (Itoa_nat n) = Some (of_nat n) \<and> tostring sv (of_nat n) = Itoa_nat n)"

text \<open>
  C14: retrying a dead letter keeps its history readable. From a record the transport appended, the
  script makes a copy whose lineage the transport reads back: the first dead letter of the chain,
  the record just retried, and one generation more than before. The generation never wraps: at the
  largest 32-bit one the script refuses the record as malformed.
\<close>

theorem retried_lineage_readable:
  assumes "decimal_numbers sv" and "validateReplayLineage d = None"
    and "TrimSpace recordID \<noteq> ''''" and "length recordID \<le> MaxIdentityBytes"
    and "fs = flat (record_fields source grp d failure)"
  shows "(next_lineage sv recordID fs = None \<longleftrightarrow> unat (dl_ReplayGeneration d) = 2 ^ 32 - 1) \<and>
    (\<forall>l. next_lineage sv recordID fs = Some l \<longrightarrow>
       parseReplayLineage (map_of (copy_fields sv recordID body l)) =
         Inr (if dl_ReplayGeneration d = 0 then recordID else dl_OriginalDeadLetterID d, recordID, dl_ReplayGeneration d + 1))"
proof (cases "dl_ReplayGeneration d = 0")
  case True
  have one: "tostring sv 1 = Itoa_nat 1" using assms(1) [unfolded decimal_numbers_def, rule_format, of 1] by simp
  have lineage: "next_lineage sv recordID fs = Some \<lparr>ln_original = recordID, ln_generation = 1\<rparr>"
    using assms(4) True by (simp add: next_lineage_def assms(5) record_field_lookup lineage_fields MaxIdentityBytes_def)
  show ?thesis
    unfolding lineage using True assms(3,4)
    by (simp add: parseReplayLineage_some [of _ recordID recordID 1] copy_fields_def one)
next
  case False
  obtain n where unat: "unat (dl_ReplayGeneration d) = n" by simp
  have "unat (dl_ReplayGeneration d) < 2 ^ 32"
    by (rule order_less_le_trans [OF unsigned_less]) simp
  moreover have "unat (dl_ReplayGeneration d) \<noteq> 0" using False by (simp add: unat_eq_zero)
  ultimately have n: "n \<noteq> 0" "n < 2 ^ 32" unfolding unat by (simp_all only: not_False_eq_True)
  have large: "(4294967295 \<le> (of_nat n :: rat)) \<longleftrightarrow> 4294967295 \<le> n"
    by (metis of_nat_le_iff of_nat_numeral)
  have original: "TrimSpace (dl_OriginalDeadLetterID d) \<noteq> ''''" "length (dl_OriginalDeadLetterID d) \<le> MaxIdentityBytes"
    using assms(2) False by (auto simp: validateReplayLineage_def Let_def split: if_splits)
  have read: "tonumber sv (Itoa_nat n) = Some (of_nat n)"
    using assms(1) n(2) by (simp add: decimal_numbers_def)
  have lineage: "next_lineage sv recordID fs =
      (if n = 2 ^ 32 - 1 then None else Some \<lparr>ln_original = dl_OriginalDeadLetterID d, ln_generation = of_nat (Suc n)\<rparr>)"
    using False n original(2)
    by (auto simp: next_lineage_def assms(5) record_field_lookup lineage_fields word_gt_0 unat read large MaxIdentityBytes_def)
  have "tostring sv (of_nat (Suc n)) = Itoa_nat (Suc n)" if "n \<noteq> 2 ^ 32 - 1"
    using assms(1) [unfolded decimal_numbers_def, rule_format, of "Suc n"] n(2) that by (simp del: of_nat_Suc)
  then have "parseReplayLineage (map_of (copy_fields sv recordID body
        \<lparr>ln_original = dl_OriginalDeadLetterID d, ln_generation = of_nat (Suc n)\<rparr>)) =
      Inr (dl_OriginalDeadLetterID d, recordID, of_nat (Suc n))" if "n \<noteq> 2 ^ 32 - 1"
    using that n(2) original assms(3,4) by (intro parseReplayLineage_some) (auto simp: copy_fields_def)
  moreover have "of_nat (Suc n) = dl_ReplayGeneration d + 1" using unat by (auto simp: add.commute)
  ultimately show ?thesis using False lineage unat by auto
qed


lemma tiny_decimal: "decimal_numbers tiny"
  by (simp add: decimal_numbers_def tiny_def digits_value_Itoa Itoa_def)

theorem retried_lineage_readable_witness:
  "\<exists>l. next_lineage tiny ''5-0'' (flat (record_fields ''q'' ''g'' sample_stream_delivery sample_failure)) = Some l \<and>
     parseReplayLineage (map_of (copy_fields tiny ''5-0'' ''x'' l)) = Inr (''7-0'', ''5-0'', 4)"
proof -
  let ?fs = "flat (record_fields ''q'' ''g'' sample_stream_delivery sample_failure)"
  have "TrimSpace ''5-0'' \<noteq> ''''" "length ''5-0'' \<le> MaxIdentityBytes"
    by (simp_all add: MaxIdentityBytes_def)
  from retried_lineage_readable [OF tiny_decimal sample_stream_valid(2) this refl, of "''q''" "''g''" sample_failure "''x''"]
  show ?thesis
    by (cases "next_lineage tiny ''5-0'' ?fs") (auto simp: sample_stream_delivery_def)
qed

end
