(* ===== verification/Valkey_Worker.thy ===== *)
theory Valkey_Worker
  imports Valkey_Options Valkey_Transport
begin

text \<open>
  The Valkey Streams worker of src/valkeystream/worker.go over a transport: enqueue, delivery with
  decoding and settlement callbacks, the read and reclaim loops tick by tick, statistics and
  shutdown; and the publisher of src/valkeystream/publisher.go.

  A message settles through callbacks on the world of the worker: its counters, the state of the
  server behind the transport, and for every delivery decoded so far what its \<^verbatim>\<open>sync.Once\<close> holds
  (no entry, or the error of the first settlement). Commands of the transport do not panic.
\<close>

section \<open>The worker\<close>

text \<open>\<^verbatim>\<open>streamqueue.Transport\<close>, and the record extension some transports have.\<close>

record 's Transport =
  tp_Add :: "AddRequest \<Rightarrow> 's \<Rightarrow> (go_err + string) \<times> 's"
  tp_Read :: "ReadRequest \<Rightarrow> 's \<Rightarrow> (go_err + Delivery list) \<times> 's"
  tp_Claim :: "ClaimRequest \<Rightarrow> 's \<Rightarrow> (go_err + ClaimResult) \<times> 's"
  tp_Ack :: "AckRequest \<Rightarrow> 's \<Rightarrow> error \<times> 's"
  tp_DeadLetter :: "DeadLetterRequest \<Rightarrow> 's \<Rightarrow> error \<times> 's"
  tp_GroupState :: "string \<Rightarrow> string \<Rightarrow> 's \<Rightarrow> (go_err + GroupState) \<times> 's"
  tp_Close :: "'s \<Rightarrow> error \<times> 's"
  tp_RecordFailure ::
    "(string \<Rightarrow> string \<Rightarrow> string \<Rightarrow> Delivery \<Rightarrow> FailureMetadata \<Rightarrow> 's \<Rightarrow> error \<times> 's) option"

definition native_transport :: "nativeTransport \<Rightarrow> 's client \<Rightarrow> 's Transport" where
  "native_transport t client =
     \<lparr>tp_Add = nt_Add t client, tp_Read = nt_Read client, tp_Claim = nt_Claim client, tp_Ack = nt_Ack client,
      tp_DeadLetter = nt_DeadLetter t client, tp_GroupState = nt_GroupState client, tp_Close = (\<lambda>s. (None, s)),
      tp_RecordFailure = Some (nt_RecordFailure t client)\<rparr>"

record workerMetrics =
  wm_enqueued :: "64 word"
  wm_delivered :: "64 word"
  wm_reclaimed :: "64 word"
  wm_retries :: "64 word"
  wm_acknowledged :: "64 word"
  wm_deadLettered :: "64 word"
  wm_settlementFailures :: "64 word"

record 's worker_world =
  ww_metrics :: workerMetrics
  ww_once :: "nat \<rightharpoonup> error"
  ww_handles :: nat
  ww_server :: 's

type_synonym 's delivery_message = "'s worker_world Message"

definition on_server :: "('s \<Rightarrow> 'a \<times> 's) \<Rightarrow> 's worker_world \<Rightarrow> 'a \<times> 's worker_world" where
  "on_server f w = (let (r, s) = f (ww_server w) in (r, w\<lparr>ww_server := s\<rparr>))"

definition count_metric :: "(workerMetrics \<Rightarrow> workerMetrics) \<Rightarrow> 's worker_world \<Rightarrow> 's worker_world" where
  "count_metric f w = w\<lparr>ww_metrics := f (ww_metrics w)\<rparr>"

definition inc_enqueued :: "workerMetrics \<Rightarrow> workerMetrics" where
  "inc_enqueued m = m\<lparr>wm_enqueued := wm_enqueued m + 1\<rparr>"
definition inc_delivered :: "bool \<Rightarrow> workerMetrics \<Rightarrow> workerMetrics" where
  "inc_delivered reclaimed m =
     (let m = m\<lparr>wm_delivered := wm_delivered m + 1\<rparr>
      in if reclaimed then m\<lparr>wm_reclaimed := wm_reclaimed m + 1, wm_retries := wm_retries m + 1\<rparr> else m)"
definition inc_acknowledged :: "workerMetrics \<Rightarrow> workerMetrics" where
  "inc_acknowledged m = m\<lparr>wm_acknowledged := wm_acknowledged m + 1\<rparr>"
definition inc_deadLettered :: "workerMetrics \<Rightarrow> workerMetrics" where
  "inc_deadLettered m = m\<lparr>wm_deadLettered := wm_deadLettered m + 1\<rparr>"
definition inc_settlementFailures :: "workerMetrics \<Rightarrow> workerMetrics" where
  "inc_settlementFailures m = m\<lparr>wm_settlementFailures := wm_settlementFailures m + 1\<rparr>"

abbreviation ErrWorkerShutdown :: go_err where "ErrWorkerShutdown \<equiv> sentinel ''queue.ErrQueueShutdown''"

definition valkey_Queue ::
  "'s Transport \<Rightarrow> ('h, 'm) ValkeyOptions \<Rightarrow> bool \<Rightarrow> bytes option \<Rightarrow> 's worker_world \<Rightarrow> error \<times> 's worker_world" where
  "valkey_Queue tr opts stopped task w =
     (if stopped then (Some ErrWorkerShutdown, w)
      else case task of
          None \<Rightarrow> (Some (sentinel ''valkeystream: task is required''), w)
        | Some body \<Rightarrow>
            (case on_server (tp_Add tr \<lparr>add_Stream = vo_stream opts, add_MaxLength = vo_maxLength opts, add_Body = body\<rparr>) w of
               (Inl err, w) \<Rightarrow> (Some err, w)
             | (Inr ident, w) \<Rightarrow> (None, count_metric inc_enqueued w)))"

definition publisher_Queue ::
  "'s Transport \<Rightarrow> ('h, 'm) ValkeyOptions \<Rightarrow> (bytes \<Rightarrow> 'w Message) \<Rightarrow> ('w Message \<Rightarrow> bytes) \<Rightarrow> bool \<Rightarrow> bytes option \<Rightarrow>
    's \<Rightarrow> error \<times> 's" where
  "publisher_Queue tr opts new_message encode stopped message s =
     (if stopped then (Some ErrWorkerShutdown, s)
      else case message of
          None \<Rightarrow> (Some (sentinel ''valkeystream: queued message is required''), s)
        | Some payload \<Rightarrow>
            let queued = new_message payload
            in case Message_Validate queued of
                 Some err \<Rightarrow> (Some err, s)
               | None \<Rightarrow>
                   (case tp_Add tr \<lparr>add_Stream = vo_stream opts, add_MaxLength = vo_maxLength opts,
                            add_Body = encode queued\<rparr> s of
                      (Inl err, s) \<Rightarrow> (Some err, s)
                    | (Inr ident, s) \<Rightarrow> (None, s)))"

section \<open>Settlement\<close>

definition terminalFailure :: "error \<Rightarrow> int \<Rightarrow> int \<Rightarrow> string list \<Rightarrow> bool" where
  "terminalFailure handlerErr attempts maximumAttempts canceledCodes =
     (let resolution = ResolveFailure handlerErr
      in case res_classification resolution of
           ClassificationPermanent \<Rightarrow> True
         | ClassificationMalformed \<Rightarrow> True
         | ClassificationRetryable \<Rightarrow> attempts \<ge> maximumAttempts
         | ClassificationCanceled \<Rightarrow> res_code resolution \<in> set canceledCodes \<and> attempts \<ge> maximumAttempts
         | _ \<Rightarrow> False)"

definition failureMetadata :: "error \<Rightarrow> string \<Rightarrow> FailureMetadata" where
  "failureMetadata err fallbackCode =
     (let resolution = ResolveFailure err
      in \<lparr>fm_Classification = res_classification resolution,
          fm_Code = (if res_code resolution \<noteq> '''' then res_code resolution else fallbackCode)\<rparr>)"

definition deadLetterRequest :: "('h, 'm) ValkeyOptions \<Rightarrow> Delivery \<Rightarrow> FailureMetadata \<Rightarrow> DeadLetterRequest" where
  "deadLetterRequest opts delivery failure =
     \<lparr>dlr_Source = vo_stream opts, dlr_Destination = vo_deadLetterStream opts, dlr_Group = vo_group opts,
      dlr_Delivery = delivery, dlr_Failure = failure\<rparr>"

definition deadLetter ::
  "'s Transport \<Rightarrow> ('h, 'm) ValkeyOptions \<Rightarrow> Delivery \<Rightarrow> FailureMetadata \<Rightarrow> 's worker_world \<Rightarrow> error \<times> 's worker_world" where
  "deadLetter tr opts delivery failure w = on_server (tp_DeadLetter tr (deadLetterRequest opts delivery failure)) w"

definition resolveDeliveryAttemptLimit :: "('h, 'm) ValkeyOptions \<Rightarrow> 'm \<Rightarrow> go_err + int" where
  "resolveDeliveryAttemptLimit opts message =
     (case vo_deliveryAttemptLimit opts of
        None \<Rightarrow> Inr (vo_maxDeliveryAttempts opts)
      | Some resolver \<Rightarrow>
          (case resolver message of
             Panics p \<Rightarrow> Inl (sentinel ''valkeystream.ErrInvalidDeliveryAttemptLimit'')
           | Returns limit \<Rightarrow>
               if limit < 1 \<or> limit > maxResolvedDeliveryAttempts
               then Inl (sentinel ''valkeystream.ErrInvalidDeliveryAttemptLimit'') else Inr limit))"

text \<open>\<^verbatim>\<open>once.Do\<close> around a settlement: only the first action runs, every call returns its error.\<close>

definition settle_once ::
  "nat \<Rightarrow> ('s worker_world \<Rightarrow> error \<times> 's worker_world) \<Rightarrow> 's worker_world \<Rightarrow> error outcome \<times> 's worker_world" where
  "settle_once k action w =
     (case ww_once w k of
        Some err \<Rightarrow> (Returns err, w)
      | None \<Rightarrow> (let (err, w) = action w in (Returns err, w\<lparr>ww_once := (ww_once w)(k \<mapsto> err)\<rparr>)))"

definition ack_action ::
  "'s Transport \<Rightarrow> ('h, 'm) ValkeyOptions \<Rightarrow> Delivery \<Rightarrow> 's worker_world \<Rightarrow> error \<times> 's worker_world" where
  "ack_action tr opts delivery w =
     (case on_server (tp_Ack tr \<lparr>ack_Stream = vo_stream opts, ack_Group = vo_group opts, ack_ID = dl_ID delivery\<rparr>) w of
        (Some err, w) \<Rightarrow> (Some err, count_metric inc_settlementFailures w)
      | (None, w) \<Rightarrow> (None, count_metric inc_acknowledged w))"

definition nack_action ::
  "'s Transport \<Rightarrow> ('h, 'm) ValkeyOptions \<Rightarrow> Delivery \<Rightarrow> int \<Rightarrow> error \<Rightarrow> 's worker_world \<Rightarrow> error \<times> 's worker_world" where
  "nack_action tr opts delivery maximumDeliveryAttempts handlerErr w =
     (let (recordErr, w) =
        (case tp_RecordFailure tr of
           None \<Rightarrow> (None, w)
         | Some recordFailure \<Rightarrow>
             on_server (recordFailure (vo_failureStream opts) (vo_stream opts) (vo_group opts) delivery
               (failureMetadata handlerErr ''handler_failed'')) w)
      in if recordErr \<noteq> None then (recordErr, w)
         else if \<not> terminalFailure handlerErr (dl_Attempts delivery) maximumDeliveryAttempts
                   (vo_canceledDeadLetterCodes opts)
         then (None, w)
         else case deadLetter tr opts delivery (failureMetadata handlerErr ''attempts_exhausted'') w of
             (Some err, w) \<Rightarrow> (Some err, count_metric inc_settlementFailures w)
           | (None, w) \<Rightarrow> (None, count_metric inc_deadLettered w))"

section \<open>Delivery\<close>

definition malformed_delivery :: "go_err \<Rightarrow> Delivery \<Rightarrow> Delivery" where
  "malformed_delivery err delivery =
     (if errors_Is err ''job.ErrMessageTooLarge'' then delivery\<lparr>dl_Body := []\<rparr> else delivery)"

definition malformed_failure :: "go_err \<Rightarrow> FailureMetadata" where
  "malformed_failure err =
     \<lparr>fm_Classification = ClassificationMalformed,
      fm_Code = (if errors_Is err ''job.ErrMessageTooLarge'' then ''message_too_large'' else ''malformed_delivery'')\<rparr>"

definition decode ::
  "'s Transport \<Rightarrow> ('h, 's delivery_message) ValkeyOptions \<Rightarrow> (bytes \<Rightarrow> go_err + 's delivery_message) \<Rightarrow> Delivery \<Rightarrow>
    's worker_world \<Rightarrow> (go_err + 's delivery_message) \<times> 's worker_world" where
  "decode tr opts unmarshal delivery w =
     (case DecodeE unmarshal (dl_Body delivery) DefaultMaxMessageBytes of
        Inl err \<Rightarrow>
          (case deadLetter tr opts (malformed_delivery err delivery) (malformed_failure err) w of
             (Some deadLetterErr, w) \<Rightarrow>
               (Inl (Joined [Some err, Some deadLetterErr]), count_metric inc_settlementFailures w)
           | (None, w) \<Rightarrow> (Inl err, count_metric inc_deadLettered w))
      | Inr message \<Rightarrow>
          (case resolveDeliveryAttemptLimit opts message of
             Inl err \<Rightarrow> (Inl err, w)
           | Inr maximumDeliveryAttempts \<Rightarrow>
               let k = ww_handles w
               in (Inr (SetFailureAcknowledgement
                     (Some (settle_once k (ack_action tr opts delivery)))
                     (Some (\<lambda>handlerErr. settle_once k (nack_action tr opts delivery maximumDeliveryAttempts handlerErr)))
                     message),
                   w\<lparr>ww_handles := k + 1\<rparr>)))"

datatype request_arm = ArmDelivery Delivery | ArmTasksClosed | ArmTimer | ArmDone

definition valkey_Request ::
  "'s Transport \<Rightarrow> ('h, 's delivery_message) ValkeyOptions \<Rightarrow> (bytes \<Rightarrow> go_err + 's delivery_message) \<Rightarrow> request_arm \<Rightarrow>
    's worker_world \<Rightarrow> (go_err + 's delivery_message) \<times> 's worker_world" where
  "valkey_Request tr opts unmarshal arm w =
     (case arm of
        ArmDelivery delivery \<Rightarrow> decode tr opts unmarshal delivery (count_metric (inc_delivered (dl_Reclaimed delivery)) w)
      | ArmTasksClosed \<Rightarrow> (Inl (sentinel ''queue.ErrQueueHasBeenClosed''), w)
      | ArmTimer \<Rightarrow> (Inl (sentinel ''queue.ErrNoTaskInQueue''), w)
      | ArmDone \<Rightarrow> (Inl (sentinel ''queue.ErrQueueHasBeenClosed''), w))"

text \<open>\<^verbatim>\<open>Run\<close>: the counter of running jobs goes up and, however the handler ends, down again.\<close>

definition valkey_Run :: "('w \<Rightarrow> error outcome \<times> 'w) \<Rightarrow> 32 word \<times> 'w \<Rightarrow> error outcome \<times> 32 word \<times> 'w" where
  "valkey_Run runFunc cw =
     (let (currentJobs, w) = cw; currentJobs = currentJobs + 1; (r, w) = runFunc w
      in (r, currentJobs + (- 1), w))"


section \<open>Loops, statistics and shutdown\<close>

text \<open>
  The loops send deliveries to the task channel until the context of the worker ends; \<open>n\<close> is how
  many more sends win against that. A tick returns whether the loop goes on.
\<close>

fun deliver_all :: "nat \<Rightarrow> Delivery list \<Rightarrow> Delivery list \<Rightarrow> bool \<times> Delivery list" where
  "deliver_all n [] tasks = (True, tasks)"
| "deliver_all 0 (d # ds) tasks = (False, tasks)"
| "deliver_all (Suc n) (d # ds) tasks = deliver_all n ds (tasks @ [d])"

definition readRequest :: "('h, 'm) ValkeyOptions \<Rightarrow> ReadRequest" where
  "readRequest opts =
     \<lparr>rd_Stream = vo_stream opts, rd_Group = vo_group opts, rd_Consumer = vo_consumer opts,
      rd_Count = vo_readBatchSize opts, rd_Block = vo_blockTime opts\<rparr>"

definition read_tick ::
  "'s Transport \<Rightarrow> ('h, 'm) ValkeyOptions \<Rightarrow> bool \<Rightarrow> bool \<Rightarrow> nat \<Rightarrow> Delivery list \<times> 's \<Rightarrow> bool \<times> Delivery list \<times> 's" where
  "read_tick tr opts canceled waited n ts =
     (let (tasks, s) = ts
      in case tp_Read tr (readRequest opts) s of
           (Inl err, s) \<Rightarrow> (\<not> canceled \<and> waited, tasks, s)
         | (Inr deliveries, s) \<Rightarrow> (let (more, tasks) = deliver_all n deliveries tasks in (more, tasks, s)))"

definition claimRequest :: "('h, 'm) ValkeyOptions \<Rightarrow> string \<Rightarrow> ClaimRequest" where
  "claimRequest opts cursor =
     \<lparr>cl_Stream = vo_stream opts, cl_Group = vo_group opts, cl_Consumer = vo_consumer opts,
      cl_MinIdle = vo_reclaimMinIdle opts, cl_Start = cursor, cl_Count = vo_reclaimBatchSize opts\<rparr>"

definition reclaim_tick ::
  "'s Transport \<Rightarrow> ('h, 'm) ValkeyOptions \<Rightarrow> nat \<Rightarrow> string \<times> Delivery list \<times> 's \<Rightarrow> bool \<times> string \<times> Delivery list \<times> 's" where
  "reclaim_tick tr opts n cts =
     (let (cursor, tasks, s) = cts
      in case tp_Claim tr (claimRequest opts cursor) s of
           (Inl err, s) \<Rightarrow> (True, cursor, tasks, s)
         | (Inr result, s) \<Rightarrow>
             let cursor = (if cr_Next result = '''' \<or> cr_Next result = ''0-0'' then ''0-0'' else cr_Next result);
                 (more, tasks) = deliver_all n (cr_Deliveries result) tasks
             in (more, cursor, tasks, s))"

text \<open>The reclaim loop over the ticks of its ticker: for every tick, how many deliveries the task channel
takes before the context ends. It stops when a delivery could not be handed over.\<close>

fun reclaimLoop ::
  "'s Transport \<Rightarrow> ('h, 'm) ValkeyOptions \<Rightarrow> nat list \<Rightarrow> string \<times> Delivery list \<times> 's \<Rightarrow> string \<times> Delivery list \<times> 's" where
  "reclaimLoop tr opts [] cts = cts"
| "reclaimLoop tr opts (n # ns) cts =
     (case reclaim_tick tr opts n cts of
        (True, cts) \<Rightarrow> reclaimLoop tr opts ns cts
      | (False, cts) \<Rightarrow> cts)"

record WorkerStats =
  vs_Depth :: "64 word"
  vs_Pending :: "64 word"
  vs_Lag :: "64 word"
  vs_LagKnown :: bool
  vs_OldestPendingAge :: duration
  vs_metrics :: workerMetrics

definition valkey_Stats ::
  "'s Transport \<Rightarrow> ('h, 'm) ValkeyOptions \<Rightarrow> go_time \<Rightarrow> 's worker_world \<Rightarrow> (go_err + WorkerStats) \<times> 's worker_world" where
  "valkey_Stats tr opts now w =
     (case on_server (tp_GroupState tr (vo_stream opts) (vo_group opts)) w of
        (Inl err, w) \<Rightarrow> (Inl err, w)
      | (Inr state, w) \<Rightarrow>
          let shared = GroupState_Stats state;
              stats = \<lparr>vs_Depth = st_Depth shared, vs_Pending = st_Pending shared, vs_Lag = st_Lag shared,
                vs_LagKnown = st_LagKnown shared, vs_OldestPendingAge = 0, vs_metrics = ww_metrics w\<rparr>
          in if gs_OldestPendingID state = '''' then (Inr stats, w)
             else case MessageAge (gs_OldestPendingID state) now of
                 Inl err \<Rightarrow> (Inl (Wrapped (Some err)), w)
               | Inr age \<Rightarrow> (Inr (stats\<lparr>vs_OldestPendingAge := age\<rparr>), w))"

text \<open>\<^verbatim>\<open>Shutdown\<close>: \<open>joined\<close> is whether both loops ended before the timer fired.\<close>

definition valkey_Shutdown :: "'s Transport \<Rightarrow> bool \<Rightarrow> bool \<times> 's \<Rightarrow> error \<times> bool \<times> 's" where
  "valkey_Shutdown tr joined ss =
     (let (stopped, s) = ss
      in if stopped then (Some ErrWorkerShutdown, True, s)
         else let (err, s) = tp_Close tr s
              in if joined then (err, True, s) else (Some (Wrapped (Some DeadlineExceeded)), True, s))"

section \<open>Requests are accepted\<close>

lemma res_code_valid: "res_code (ResolveFailure err) = '''' \<or> \<not> invalidIdentity (res_code (ResolveFailure err))"
  and res_classification_valid: "classification_valid (res_classification (ResolveFailure err))"
proof -
  have "safe_resolution (ResolveFailure err)" by (rule safe_ResolveFailure)
  then show "res_code (ResolveFailure err) = '''' \<or> \<not> invalidIdentity (res_code (ResolveFailure err))"
    and "classification_valid (res_classification (ResolveFailure err))"
    by (simp_all add: safe_resolution_def)
qed

lemma failureMetadata_valid:
  "\<not> invalidIdentity fallback \<Longrightarrow> FailureMetadata_Validate (failureMetadata err fallback) = None"
  using res_code_valid [of err] res_classification_valid [of err]
  by (auto simp: FailureMetadata_Validate_def failureMetadata_def Failure_Validate_def Let_def)

lemma worker_codes_valid:
  "\<not> invalidIdentity ''handler_failed''" "\<not> invalidIdentity ''attempts_exhausted''"
  "\<not> invalidIdentity ''malformed_delivery''" "\<not> invalidIdentity ''message_too_large''"
  by (simp_all add: invalidIdentity_def MaxIdentityBytes_def)

lemma malformed_failure_valid: "FailureMetadata_Validate (malformed_failure err) = None"
  by (simp add: FailureMetadata_Validate_def malformed_failure_def Failure_Validate_def worker_codes_valid)


text \<open>What a transport delivers: an entry with an identifier, at least one attempt and a whole lineage.\<close>

definition delivery_ok :: "Delivery \<Rightarrow> bool" where
  "delivery_ok d \<longleftrightarrow> nonblank (dl_ID d) \<and> 1 \<le> dl_Attempts d \<and> validateReplayLineage d = None"

lemma DeadLetterRequest_accepted:
  assumes "valkey_safe opts" and "delivery_ok d" and "FailureMetadata_Validate failure = None"
    and "int (length (dl_Body d)) \<le> DefaultMaxMessageBytes"
  shows "DeadLetterRequest_Validate (deadLetterRequest opts d failure) DefaultMaxMessageBytes = None"
  using assms
  by (auto simp: DeadLetterRequest_Validate_def deadLetterRequest_def valkey_safe_def delivery_ok_def nonblank_def
      AddRequest_Validate_def DefaultMaxMessageBytes_def)

lemma decoded_length: "DecodeE unmarshal b limit = Inr m \<Longrightarrow> int (length b) \<le> limit"
  by (auto simp: DecodeE_def split: if_splits)

lemma lineage_body [simp]: "validateReplayLineage (d\<lparr>dl_Body := b\<rparr>) = validateReplayLineage d"
  by (simp add: validateReplayLineage_def)

lemma malformed_delivery_ok: "delivery_ok d \<Longrightarrow> delivery_ok (malformed_delivery err d)"
  by (simp add: delivery_ok_def malformed_delivery_def)

lemma malformed_length:
  "DecodeE unmarshal (dl_Body d) DefaultMaxMessageBytes = Inl err \<Longrightarrow>
    int (length (dl_Body (malformed_delivery err d))) \<le> DefaultMaxMessageBytes"
  by (auto simp: DecodeE_def malformed_delivery_def DefaultMaxMessageBytes_def split: if_splits)

lemma claimRequest_accepted:
  "valkey_safe opts \<Longrightarrow> TrimSpace cursor \<noteq> '''' \<Longrightarrow> ClaimRequest_Validate (claimRequest opts cursor) = None"
  by (simp add: ClaimRequest_Validate_def claimRequest_def validateIdentity_def valkey_safe_def nonblank_def
      MaxBatchSize_def)



definition sample_process :: "string valkey_process" where
  "sample_process = \<lparr>vp_pid = 7, vp_logger = ''log'', vp_runFunc = ''run''\<rparr>"

definition sample_options :: "(string, valkey_command list delivery_message) ValkeyOptions" where
  "sample_options = (valkey_defaults sample_process)\<lparr>vo_address := ''h''\<rparr>"

definition sample_received :: Delivery where
  "sample_received = new_delivery ''5-0'' ''x'' 1 False"

lemma sample_newOptions: "valkey_newOptions sample_process [WithAddress ''h''] = Inr sample_options"
proof -
  have "TrimSpace ''h'' = ''h''" by code_simp
  then show ?thesis
    by (simp add: valkey_newOptions_def valkey_validate_def valkey_checks_def find_fst_None sample_options_def
        valkey_defaults_def valkey_limits duration_units ContainsAny_def)
qed

lemma sample_received_ok: "delivery_ok sample_received"
  by (simp add: delivery_ok_def sample_received_def new_delivery_def nonblank_def validateReplayLineage_def)


end
