(* ===== verification/Valkey_Settlement.thy ===== *)
theory Valkey_Settlement
  imports Valkey_Worker
begin

text \<open>
  How deliveries of the Valkey worker end: settlement takes effect once, it is a fixed plan of
  commands run until the first one that fails, and what a malformed entry does to the batch it is
  read or reclaimed with.
\<close>

section \<open>One settlement per delivery\<close>

text \<open>A settlement call of the queue: \<^verbatim>\<open>Ack\<close>, or \<^verbatim>\<open>NackFailure\<close> with the handler's error.\<close>

fun settle_call :: "'w Message \<Rightarrow> error option \<Rightarrow> 'w callback" where
  "settle_call m None w = Ack m w"
| "settle_call m (Some handlerErr) w = NackFailure m handlerErr w"

fun settle_calls :: "'w Message \<Rightarrow> error option list \<Rightarrow> 'w \<Rightarrow> error outcome list \<times> 'w" where
  "settle_calls m [] w = ([], w)"
| "settle_calls m (call # calls) w =
     (let (r, w) = settle_call m call w; (rs, w) = settle_calls m calls w in (r # rs, w))"

definition fresh_handles :: "'s worker_world \<Rightarrow> bool" where
  "fresh_handles w \<longleftrightarrow> (\<forall>k \<ge> ww_handles w. ww_once w k = None)"

lemma ack_action_once: "ww_once (snd (ack_action tr opts d w)) = ww_once w"
  by (simp add: ack_action_def on_server_def count_metric_def split: prod.split option.split)

lemma nack_action_once: "ww_once (snd (nack_action tr opts d limit handlerErr w)) = ww_once w"
  by (auto simp: nack_action_def deadLetter_def on_server_def count_metric_def Let_def
      split: prod.splits option.splits if_splits)

lemma decode_message:
  assumes "decode tr opts unmarshal d w = (Inr m, w1)"
  obtains message limit where "DecodeE unmarshal (dl_Body d) DefaultMaxMessageBytes = Inr message"
    "resolveDeliveryAttemptLimit opts message = Inr limit"
    "m = SetFailureAcknowledgement (Some (settle_once (ww_handles w) (ack_action tr opts d)))
       (Some (\<lambda>handlerErr. settle_once (ww_handles w) (nack_action tr opts d limit handlerErr))) message"
    "w1 = w\<lparr>ww_handles := ww_handles w + 1\<rparr>"
  using assms that by (auto simp: decode_def Let_def split: sum.splits prod.splits option.splits)

text \<open>The action a call stands for, and the call as that action under the guard.\<close>

definition settle_action ::
  "'s Transport \<Rightarrow> ('h, 'm) ValkeyOptions \<Rightarrow> Delivery \<Rightarrow> int \<Rightarrow> error option \<Rightarrow> 's worker_world \<Rightarrow> error \<times> 's worker_world" where
  "settle_action tr opts d limit call =
     (case call of None \<Rightarrow> ack_action tr opts d | Some handlerErr \<Rightarrow> nack_action tr opts d limit handlerErr)"

lemma settle_call_action:
  "settle_call (SetFailureAcknowledgement (Some (settle_once k (ack_action tr opts d)))
       (Some (\<lambda>handlerErr. settle_once k (nack_action tr opts d limit handlerErr))) message) call =
     settle_once k (settle_action tr opts d limit call)"
  by (rule ext) (cases call; simp add: settle_action_def Ack_def NackFailure_def SetFailureAcknowledgement_def)

lemma settle_action_once: "ww_once (snd (settle_action tr opts d limit call w)) = ww_once w"
  by (cases call) (simp_all add: settle_action_def ack_action_once nack_action_once)

lemma settle_calls_settled:
  assumes "\<And>call. settle_call m call = settle_once k (action call)" and "ww_once w k = Some err"
  shows "settle_calls m calls w = (replicate (length calls) (Returns err), w)"
  using assms(2) by (induction calls) (simp_all add: assms(1) settle_once_def)

text \<open>
  C8: a delivery takes effect at most once: of the settlement calls made on a decoded message, in
  whatever number and order, only the first reaches the transport or the counters;
  every later call returns the error of the first and changes nothing.
\<close>

theorem valkey_settles_once:
  assumes "decode tr opts unmarshal d w = (Inr m, w1)" and "fresh_handles w"
  shows "\<exists>err w2. settle_call m call w1 = (Returns err, w2) \<and>
    settle_calls m (call # calls) w1 = (replicate (Suc (length calls)) (Returns err), w2)"
proof -
  obtain message limit where m: "m = SetFailureAcknowledgement (Some (settle_once (ww_handles w) (ack_action tr opts d)))
       (Some (\<lambda>handlerErr. settle_once (ww_handles w) (nack_action tr opts d limit handlerErr))) message"
    and w1: "w1 = w\<lparr>ww_handles := ww_handles w + 1\<rparr>"
    using assms(1) by (rule decode_message)
  have calls: "settle_call m call = settle_once (ww_handles w) (settle_action tr opts d limit call)" for call
    unfolding m by (rule settle_call_action)
  have "ww_once w1 (ww_handles w) = None" using assms(2) by (simp add: w1 fresh_handles_def)
  then obtain err w2 where first: "settle_call m call w1 = (Returns err, w2)" and "ww_once w2 (ww_handles w) = Some err"
    by (cases "settle_action tr opts d limit call w1") (auto simp: calls settle_once_def)
  then show ?thesis using settle_calls_settled [OF calls, of w2 err calls] by simp
qed


section \<open>The plan of a settlement\<close>

text \<open>A client that keeps the commands it was given; what it answers may depend on all of them.\<close>

type_synonym server_answers = "valkey_command list \<Rightarrow> valkey_command \<Rightarrow> valkey_reply"

definition log_client :: "server_answers \<Rightarrow> valkey_command list client" where
  "log_client answer command hist = (answer hist command, hist @ [command])"

text \<open>A plan is issued up to and including the first command that is answered with an error.\<close>

fun issued :: "server_answers \<Rightarrow> valkey_command list \<Rightarrow> valkey_command list \<Rightarrow> valkey_command list" where
  "issued answer hist [] = []"
| "issued answer hist (c # cs) =
     c # (if reply_Error (answer hist c) = None then issued answer (hist @ [c]) cs else [])"

definition append_command ::
  "nativeTransport \<Rightarrow> ('h, 'm) ValkeyOptions \<Rightarrow> string \<Rightarrow> Delivery \<Rightarrow> FailureMetadata \<Rightarrow> valkey_command" where
  "append_command t opts destination d failure =
     CmdAppend destination (if nt_recordMaxLength t = 0 then MaxInt64 else nt_recordMaxLength t)
       (record_fields (vo_stream opts) (vo_group opts) d failure)"

definition ack_command :: "('h, 'm) ValkeyOptions \<Rightarrow> Delivery \<Rightarrow> valkey_command" where
  "ack_command opts d = CmdAcknowledge (vo_stream opts) (vo_group opts) (dl_ID d)"

definition deadLetter_plan ::
  "nativeTransport \<Rightarrow> ('h, 'm) ValkeyOptions \<Rightarrow> Delivery \<Rightarrow> FailureMetadata \<Rightarrow> valkey_command list" where
  "deadLetter_plan t opts d failure =
     [append_command t opts (vo_deadLetterStream opts) d failure, ack_command opts d]"

definition settlement_plan ::
  "nativeTransport \<Rightarrow> ('h, 'm) ValkeyOptions \<Rightarrow> Delivery \<Rightarrow> int \<Rightarrow> error option \<Rightarrow> valkey_command list" where
  "settlement_plan t opts d limit call =
     (case call of
        None \<Rightarrow> [ack_command opts d]
      | Some handlerErr \<Rightarrow>
          append_command t opts (vo_failureStream opts) d (failureMetadata handlerErr ''handler_failed'') #
          (if terminalFailure handlerErr (dl_Attempts d) limit (vo_canceledDeadLetterCodes opts)
           then deadLetter_plan t opts d (failureMetadata handlerErr ''attempts_exhausted'') else []))"

text \<open>A transport that accepts messages up to the default limit.\<close>

definition default_limit :: "nativeTransport \<Rightarrow> bool" where
  "default_limit t \<longleftrightarrow> nt_maxPayloadBytes t = DefaultMaxMessageBytes"

definition bounded_delivery :: "Delivery \<Rightarrow> bool" where
  "bounded_delivery d \<longleftrightarrow> delivery_ok d \<and> int (length (dl_Body d)) \<le> DefaultMaxMessageBytes"

lemma nonblank_Nil [simp]: "\<not> nonblank ''''"
  by (simp add: nonblank_def)

lemma append_logged:
  assumes "default_limit t" and "valkey_safe opts" and "bounded_delivery d" and "nonblank destination"
    and "FailureMetadata_Validate failure = None"
  shows "nt_appendRecord t (log_client answer) destination (vo_stream opts) (vo_group opts) d failure hist =
    (map_option (\<lambda>err. safeerr_Wrap (Some err)) (reply_Error (answer hist (append_command t opts destination d failure))),
     hist @ [append_command t opts destination d failure])"
proof -
  have "destination \<noteq> ''''" "vo_stream opts \<noteq> ''''" "vo_group opts \<noteq> ''''" "dl_ID d \<noteq> ''''"
    using assms(2-4) nonblank_Nil unfolding valkey_safe_def bounded_delivery_def delivery_ok_def by metis+
  then show ?thesis
    using assms(1,3,5)
    by (simp add: nt_appendRecord_def log_client_def append_command_def default_limit_def bounded_delivery_def
        delivery_ok_def Let_def)
qed

lemma ack_accepted:
  "valkey_safe opts \<Longrightarrow> delivery_ok d \<Longrightarrow>
    AckRequest_Validate \<lparr>ack_Stream = vo_stream opts, ack_Group = vo_group opts, ack_ID = dl_ID d\<rparr> = None"
  by (simp add: AckRequest_Validate_def valkey_safe_def nonblank_def delivery_ok_def)

lemma ack_logged:
  assumes "valkey_safe opts" and "delivery_ok d"
  shows "snd (nt_Ack (log_client answer) \<lparr>ack_Stream = vo_stream opts, ack_Group = vo_group opts, ack_ID = dl_ID d\<rparr> hist) =
    hist @ [ack_command opts d]"
  by (simp add: nt_Ack_def ack_accepted [OF assms] log_client_def ack_command_def)

lemma deadLetter_logged:
  assumes "default_limit t" and "valkey_safe opts" and "bounded_delivery d" and "FailureMetadata_Validate failure = None"
  shows "snd (nt_DeadLetter t (log_client answer) (deadLetterRequest opts d failure) hist) =
      hist @ issued answer hist (deadLetter_plan t opts d failure)"
    and "fst (nt_DeadLetter t (log_client answer) (deadLetterRequest opts d failure) hist) = None \<Longrightarrow>
      issued answer hist (deadLetter_plan t opts d failure) = deadLetter_plan t opts d failure"
proof -
  have d: "delivery_ok d" "int (length (dl_Body d)) \<le> DefaultMaxMessageBytes"
    using assms(3) by (simp_all add: bounded_delivery_def)
  have valid: "DeadLetterRequest_Validate (deadLetterRequest opts d failure) (nt_maxPayloadBytes t) = None"
    using DeadLetterRequest_accepted [OF assms(2) d(1) assms(4) d(2)] assms(1) by (simp add: default_limit_def)
  have "nonblank (vo_deadLetterStream opts)" using assms(2) by (simp add: valkey_safe_def)
  note append = append_logged [OF assms(1-3) this assms(4), of answer hist]
  let ?app = "append_command t opts (vo_deadLetterStream opts) d failure"
  obtain err hist' where ack: "nt_Ack (log_client answer) \<lparr>ack_Stream = vo_stream opts, ack_Group = vo_group opts,
      ack_ID = dl_ID d\<rparr> (hist @ [?app]) = (err, hist')"
    by fastforce
  with ack_logged [OF assms(2) d(1), of answer "hist @ [?app]"] have hist': "hist' = hist @ [?app, ack_command opts d]"
    by simp
  show "snd (nt_DeadLetter t (log_client answer) (deadLetterRequest opts d failure) hist) =
      hist @ issued answer hist (deadLetter_plan t opts d failure)"
    and "fst (nt_DeadLetter t (log_client answer) (deadLetterRequest opts d failure) hist) = None \<Longrightarrow>
      issued answer hist (deadLetter_plan t opts d failure) = deadLetter_plan t opts d failure"
    using valid append ack hist'
    by (auto simp: nt_DeadLetter_def nt_AppendDeadLetter_def deadLetterRequest_def deadLetter_plan_def
        split: option.splits prod.splits)
qed


lemma worker_deadLetter_logged:
  assumes "default_limit t" and "valkey_safe opts" and "bounded_delivery d" and "FailureMetadata_Validate failure = None"
    and "deadLetter (native_transport t (log_client answer)) opts d failure w = (err, w')"
  shows "w' = w\<lparr>ww_server := ww_server w @ issued answer (ww_server w) (deadLetter_plan t opts d failure)\<rparr>"
    and "err = None \<Longrightarrow> issued answer (ww_server w) (deadLetter_plan t opts d failure) = deadLetter_plan t opts d failure"
  using deadLetter_logged [OF assms(1-4), of answer "ww_server w"] assms(5)
  by (auto simp: deadLetter_def on_server_def native_transport_def split: prod.splits)

lemma ack_action_logged:
  assumes "valkey_safe opts" and "delivery_ok d"
  shows "ww_server (snd (ack_action (native_transport t (log_client answer)) opts d w)) = ww_server w @ [ack_command opts d]"
  using ack_logged [OF assms, of answer "ww_server w"]
  by (auto simp: ack_action_def on_server_def native_transport_def count_metric_def split: prod.split option.split)

lemma nack_action_logged:
  assumes "default_limit t" and "valkey_safe opts" and "bounded_delivery d"
    and nack: "nack_action (native_transport t (log_client answer)) opts d limit handlerErr w = (err, w')"
    and plan: "plan = settlement_plan t opts d limit (Some handlerErr)"
  shows "ww_server w' = ww_server w @ issued answer (ww_server w) plan \<and>
    (err = None \<longrightarrow> issued answer (ww_server w) plan = plan)"
proof -
  let ?rec = "append_command t opts (vo_failureStream opts) d (failureMetadata handlerErr ''handler_failed'')"
  let ?failure = "failureMetadata handlerErr ''attempts_exhausted''"
  let ?w = "w\<lparr>ww_server := ww_server w @ [?rec]\<rparr>"
  have "nonblank (vo_failureStream opts)" using assms(2) by (simp add: valkey_safe_def)
  note append = append_logged [OF assms(1-3) this failureMetadata_valid [OF worker_codes_valid(1)],
      of answer handlerErr "ww_server w"]
  show ?thesis
  proof (cases "reply_Error (answer (ww_server w) ?rec) = None \<and>
      terminalFailure handlerErr (dl_Attempts d) limit (vo_canceledDeadLetterCodes opts)")
    case False
    then show ?thesis
      using nack append
      by (auto simp: nack_action_def native_transport_def nt_RecordFailure_def on_server_def plan settlement_plan_def
          split: prod.splits if_splits)
  next
    case True
    obtain e w2 where dl: "deadLetter (native_transport t (log_client answer)) opts d ?failure ?w = (e, w2)"
      by fastforce
    have "(err, ww_server w') = (e, ww_server w2)"
      using nack append True dl
      by (auto simp: nack_action_def native_transport_def nt_RecordFailure_def on_server_def count_metric_def
          split: option.splits)
    then show ?thesis
      using worker_deadLetter_logged [OF assms(1-3) failureMetadata_valid [OF worker_codes_valid(2)] dl] True
      by (auto simp: plan settlement_plan_def)
  qed
qed

lemma settle_action_logged:
  assumes "default_limit t" and "valkey_safe opts" and "bounded_delivery d"
    and "settle_action (native_transport t (log_client answer)) opts d limit call w = (err, w')"
  shows "ww_server w' = ww_server w @ issued answer (ww_server w) (settlement_plan t opts d limit call) \<and>
    (err = None \<longrightarrow>
       issued answer (ww_server w) (settlement_plan t opts d limit call) = settlement_plan t opts d limit call)"
proof (cases call)
  case None
  have "delivery_ok d" using assms(3) by (simp add: bounded_delivery_def)
  note logged = ack_action_logged [OF assms(2) this, of t answer w]
  have "ack_action (native_transport t (log_client answer)) opts d w = (err, w')"
    using assms(4) None by (simp add: settle_action_def)
  with logged have "ww_server w' = ww_server w @ [ack_command opts d]" by (simp only: snd_conv)
  then show ?thesis by (simp add: None settlement_plan_def)
next
  case (Some handlerErr)
  then have "nack_action (native_transport t (log_client answer)) opts d limit handlerErr w = (err, w')"
    using assms(4) by (simp add: settle_action_def)
  from nack_action_logged [OF assms(1-3) this refl] show ?thesis unfolding Some .
qed

text \<open>
  C9: what a delivery sends to the server is a plan, issued up to the first command that is answered
  with an error. Decoding a malformed delivery appends it to the dead-letter stream and then
  acknowledges it; decoding any other sends nothing. Settling a decoded one either acknowledges it,
  or appends a failure record and, if the failure is terminal at this attempt, appends it to the
  dead-letter stream and then acknowledges it. So a delivery leaves the source only after its
  handler succeeded or its dead letter was stored, and a settlement that reports success issued the
  whole plan.
\<close>

theorem valkey_settlement_plan:
  assumes "valkey_newOptions proc option = Inr opts" and "default_limit t" and "delivery_ok d" and "fresh_handles w"
    and "decode (native_transport t (log_client answer)) opts unmarshal d w = (r, w1)"
  shows "case r of
      Inl err \<Rightarrow> ww_server w1 = ww_server w @ issued answer (ww_server w)
        (case DecodeE unmarshal (dl_Body d) DefaultMaxMessageBytes of
           Inl e \<Rightarrow> deadLetter_plan t opts (malformed_delivery e d) (malformed_failure e) | Inr message \<Rightarrow> [])
    | Inr m \<Rightarrow> ww_server w1 = ww_server w \<and> (\<exists>message limit.
        DecodeE unmarshal (dl_Body d) DefaultMaxMessageBytes = Inr message \<and>
        resolveDeliveryAttemptLimit opts message = Inr limit \<and>
        (\<forall>call err w2. settle_call m call w1 = (Returns err, w2) \<longrightarrow>
           ww_server w2 = ww_server w @ issued answer (ww_server w) (settlement_plan t opts d limit call) \<and>
           (err = None \<longrightarrow> issued answer (ww_server w) (settlement_plan t opts d limit call) =
              settlement_plan t opts d limit call)))"
proof (cases r)
  case (Inl err)
  have safe: "valkey_safe opts" using assms(1) by (rule valkey_newOptions_safe)
  show ?thesis
  proof (cases "DecodeE unmarshal (dl_Body d) DefaultMaxMessageBytes")
    case (Inl e)
    have bounded: "bounded_delivery (malformed_delivery e d)"
      using malformed_delivery_ok [OF assms(3)] malformed_length [OF Inl] by (simp add: bounded_delivery_def)
    obtain e' w2 where dl: "deadLetter (native_transport t (log_client answer)) opts (malformed_delivery e d)
        (malformed_failure e) w = (e', w2)"
      by fastforce
    then have "ww_server w1 = ww_server w2"
      using assms(5) Inl by (auto simp: decode_def count_metric_def split: option.splits)
    then show ?thesis
      using worker_deadLetter_logged(1) [OF assms(2) safe bounded malformed_failure_valid dl] Inl \<open>r = Inl err\<close>
      by simp
  next
    case (Inr message)
    then show ?thesis using assms(5) \<open>r = Inl err\<close> by (auto simp: decode_def Let_def split: sum.splits)
  qed
next
  case (Inr m)
  let ?tr = "native_transport t (log_client answer)"
  have safe: "valkey_safe opts" using assms(1) by (rule valkey_newOptions_safe)
  from assms(5) [unfolded Inr] obtain message limit
    where dec: "DecodeE unmarshal (dl_Body d) DefaultMaxMessageBytes = Inr message"
      and lim: "resolveDeliveryAttemptLimit opts message = Inr limit"
      and m: "m = SetFailureAcknowledgement (Some (settle_once (ww_handles w) (ack_action ?tr opts d)))
        (Some (\<lambda>handlerErr. settle_once (ww_handles w) (nack_action ?tr opts d limit handlerErr))) message"
      and w1: "w1 = w\<lparr>ww_handles := ww_handles w + 1\<rparr>"
    by (rule decode_message)
  have bounded: "bounded_delivery d" using assms(3) decoded_length [OF dec] by (simp add: bounded_delivery_def)
  have free: "ww_once w1 (ww_handles w) = None" using assms(4) by (simp add: w1 fresh_handles_def)
  have server: "ww_server w1 = ww_server w" by (simp add: w1)
  have "ww_server w2 = ww_server w @ issued answer (ww_server w) (settlement_plan t opts d limit call) \<and>
      (err = None \<longrightarrow> issued answer (ww_server w) (settlement_plan t opts d limit call) = settlement_plan t opts d limit call)"
    if "settle_call m call w1 = (Returns err, w2)" for call err w2
  proof -
    obtain e w3 where act: "settle_action ?tr opts d limit call w1 = (e, w3)" by fastforce
    then have eqs: "err = e" "ww_server w2 = ww_server w3"
      using that free by (auto simp: m settle_call_action settle_once_def)
    show ?thesis
      unfolding eqs using settle_action_logged [OF assms(2) safe bounded act] unfolding server .
  qed
  then show ?thesis
    unfolding Inr sum.case using dec lim server by blast
qed


definition sample_native :: "server_answers \<Rightarrow> valkey_command list Transport" where
  "sample_native answer = native_transport (newNativeTransport 10000 DefaultMaxMessageBytes) (log_client answer)"

definition sample_world :: "valkey_command list worker_world" where
  "sample_world = \<lparr>ww_metrics = \<lparr>wm_enqueued = 0, wm_delivered = 0, wm_reclaimed = 0, wm_retries = 0,
     wm_acknowledged = 0, wm_deadLettered = 0, wm_settlementFailures = 0\<rparr>, ww_once = Map.empty, ww_handles = 0, ww_server = []\<rparr>"

definition sample_unmarshal :: "bytes \<Rightarrow> go_err + valkey_command list delivery_message" where
  "sample_unmarshal b = Inr (NewMessage b [])"

lemma sample_decode:
  obtains m w1 where "decode (sample_native answer) sample_options sample_unmarshal sample_received sample_world = (Inr m, w1)"
proof -
  have "DecodeE sample_unmarshal (dl_Body sample_received) DefaultMaxMessageBytes = Inr (NewMessage ''x'' [])"
    by (simp add: DecodeE_def sample_unmarshal_def sample_received_def new_delivery_def DefaultMaxMessageBytes_def MaxRetryCount_def
        Message_Validate_def NewMessage_def NewOptions_def newDefaultOptions_def duration_units Let_def cloneMetadata_def)
  then show thesis
    using that by (simp add: decode_def resolveDeliveryAttemptLimit_def sample_options_def valkey_defaults_def Let_def)
qed

lemma sample_fresh: "fresh_handles sample_world"
  by (simp add: fresh_handles_def sample_world_def)

theorem valkey_settles_once_witness:
  "\<exists>m w1 err w2. decode (sample_native (\<lambda>h c. ReplyText ''deleted'')) sample_options sample_unmarshal sample_received
       sample_world = (Inr m, w1) \<and>
     settle_calls m [None, Some None] w1 = ([Returns err, Returns err], w2)"
proof -
  obtain m w1 where dec: "decode (sample_native (\<lambda>h c. ReplyText ''deleted'')) sample_options sample_unmarshal
      sample_received sample_world = (Inr m, w1)"
    by (rule sample_decode)
  from valkey_settles_once [OF dec sample_fresh, of None "[Some None]"] dec show ?thesis
    by (auto simp del: settle_calls.simps settle_call.simps)
qed

theorem valkey_settlement_plan_witness:
  "\<exists>m w1. decode (sample_native (\<lambda>h c. ReplyText ''deleted'')) sample_options sample_unmarshal sample_received
       sample_world = (Inr m, w1) \<and>
     ww_server (snd (settle_call m None w1)) = [CmdAcknowledge ''golang-queue'' ''golang-queue'' ''5-0'']"
proof -
  obtain m w1 where dec: "decode (sample_native (\<lambda>h c. ReplyText ''deleted'')) sample_options sample_unmarshal
      sample_received sample_world = (Inr m, w1)"
    by (rule sample_decode)
  obtain err w2 where call: "settle_call m None w1 = (Returns err, w2)"
    using valkey_settles_once [OF dec sample_fresh, of None "[]"] by blast
  have "default_limit (newNativeTransport 10000 DefaultMaxMessageBytes)"
    by (simp add: default_limit_def newNativeTransport_def)
  from valkey_settlement_plan [OF sample_newOptions this sample_received_ok sample_fresh
      dec [unfolded sample_native_def], unfolded sum.case]
  have "\<exists>limit. ww_server w2 = ww_server sample_world @ issued (\<lambda>h c. ReplyText ''deleted'') (ww_server sample_world)
      (settlement_plan (newNativeTransport 10000 DefaultMaxMessageBytes) sample_options sample_received limit None)"
    using call by blast
  then show ?thesis
    using dec call
    by (auto simp: settlement_plan_def ack_command_def sample_options_def valkey_defaults_def sample_received_def
        new_delivery_def sample_world_def)
qed


subsection \<open>A poisoned entry holds up the reclaim scan\<close>

text \<open>A pending entry whose fields have no \<^verbatim>\<open>body\<close>.\<close>

fun bodiless :: "any \<Rightarrow> bool" where
  "bodiless (AArray [AString ident, fs]) = (case alternatingFields fs of Some m \<Rightarrow> m ''body'' = None | None \<Rightarrow> False)"
| "bodiless _ = False"

fun poisoned_page :: "valkey_reply \<Rightarrow> bool" where
  "poisoned_page (ReplyAny (AArray (AString cursor # AArray entries # rest))) = list_ex bodiless entries"
| "poisoned_page _ = False"

definition claim_command :: "('h, 'm) ValkeyOptions \<Rightarrow> string \<Rightarrow> valkey_command" where
  "claim_command opts cursor = CmdAutoClaim (vo_stream opts) (vo_group opts) (vo_consumer opts)
     (Milliseconds (vo_reclaimMinIdle opts)) cursor (vo_reclaimBatchSize opts)"

lemma claim_entries_poisoned: "list_ex bodiless entries \<Longrightarrow> \<exists>err. claim_entries entries = Inl err"
  by (induction entries rule: claim_entries.induct) (fastforce split: option.splits sum.splits)+

lemma nt_Claim_poisoned:
  assumes "ClaimRequest_Validate request = None"
    and "poisoned_page (answer hist (CmdAutoClaim (cl_Stream request) (cl_Group request) (cl_Consumer request)
      (Milliseconds (cl_MinIdle request)) (cl_Start request) (cl_Count request)))"
  shows "\<exists>err. nt_Claim (log_client answer) request hist =
    (Inl err, hist @ [CmdAutoClaim (cl_Stream request) (cl_Group request) (cl_Consumer request)
      (Milliseconds (cl_MinIdle request)) (cl_Start request) (cl_Count request)])"
  using assms claim_entries_poisoned
  by (auto simp: nt_Claim_def log_client_def elim!: poisoned_page.elims) fastforce+

lemma reclaim_tick_poisoned:
  assumes "ClaimRequest_Validate (claimRequest opts cursor) = None"
    and "poisoned_page (answer hist (claim_command opts cursor))"
  shows "reclaim_tick (native_transport t (log_client answer)) opts n (cursor, tasks, hist) =
    (True, cursor, tasks, hist @ [claim_command opts cursor])"
  using nt_Claim_poisoned [of "claimRequest opts cursor" answer hist] assms
  by (auto simp: reclaim_tick_def native_transport_def claim_command_def claimRequest_def)


definition sample_page :: valkey_reply where
  "sample_page = ReplyAny (AArray [AString ''0-0'',
     AArray [AArray [AString ''5-0'', AArray [AString ''body'', AString ''x'']],
             AArray [AString ''6-0'', AArray [AString ''note'', AString ''x'']]]])"


end
