(* ===== verification/Record_Paging.thy ===== *)
theory Record_Paging
  imports Records Reader Stream_Semantics
begin

text \<open>
  What the record listings of the stream adapters share (src/valkeystream/records.go and
  src/adapters/redisstream/records.go): a page scans a run of stream entries behind a cursor, converts
  them, keeps the ones that match the search up to the limit, and continues behind the last entry
  it scanned. \<open>record_listing\<close> states this as a contract, and what a client gets that follows the
  cursors to the end.
\<close>

section \<open>Text\<close>

fun strings_Contains :: "string \<Rightarrow> string \<Rightarrow> bool" where
  "strings_Contains s sub = (take (length sub) s = sub \<or> (case s of [] \<Rightarrow> False | _ # t \<Rightarrow> strings_Contains t sub))"

text \<open>
  What a listing takes from its runtime: the order in which Go happens to iterate over two map
  literals, the JSON codec of job.DecodeE, and the mapping of \<^verbatim>\<open>strings.ToLower\<close>.
\<close>

record 'w go_runtime =
  gr_iter_fields :: "(string \<times> string) list \<Rightarrow> (string \<times> string) list"
  gr_iter_times :: "(string \<times> go_time option) list \<Rightarrow> (string \<times> go_time option) list"
  gr_unmarshal :: "bytes \<Rightarrow> go_err + 'w Message"
  gr_ToLower :: "string \<Rightarrow> string"

abbreviation record_Validate :: "'w go_runtime \<Rightarrow> JobRecord \<Rightarrow> error" where
  "record_Validate rt \<equiv> JobRecord_Validate (gr_iter_fields rt) (gr_iter_times rt)"

section \<open>Scans in chunks\<close>

function (sequential) chunks :: "nat \<Rightarrow> 'a list \<Rightarrow> 'a list list" where
  "chunks n [] = []"
| "chunks 0 (x # xs) = []"
| "chunks (Suc n) (x # xs) = take (Suc n) (x # xs) # chunks (Suc n) (drop (Suc n) (x # xs))"
  by pat_completeness auto
termination by (relation "measure (\<lambda>(n, xs). length xs)") auto

lemma chunks_step: "0 < n \<Longrightarrow> xs \<noteq> [] \<Longrightarrow> chunks n xs = take n xs # chunks n (drop n xs)"
  by (cases n; cases xs) simp_all

lemma concat_chunks: "0 < n \<Longrightarrow> concat (chunks n xs) = xs"
proof (induction n xs rule: chunks.induct)
  case (3 n x xs)
  then show ?case by (simp del: take_Suc_Cons drop_Suc_Cons)
qed simp_all

lemma chunks_length: "0 < n \<Longrightarrow> c \<in> set (chunks n xs) \<Longrightarrow> length c \<le> n"
  by (induction n xs rule: chunks.induct) auto

text \<open>What is kept of the chunks: the matches of each, up to the limit.\<close>

definition kept :: "('a \<Rightarrow> bool) \<Rightarrow> nat \<Rightarrow> nat \<Rightarrow> 'a list \<Rightarrow> 'a list" where
  "kept m limit scan xs = concat (map (\<lambda>c. take limit (filter m c)) (chunks scan xs))"

lemma kept_Nil [simp]: "kept m limit scan [] = []"
  by (simp add: kept_def)

lemma kept_step:
  assumes "0 < scan"
  shows "kept m limit scan xs = take limit (filter m (take scan xs)) @ kept m limit scan (drop scan xs)"
  using assms by (cases "xs = []") (simp_all add: kept_def chunks_step)

lemma kept_all:
  assumes "0 < scan" and "\<forall>c \<in> set (chunks scan xs). length (filter m c) \<le> limit"
  shows "kept m limit scan xs = filter m xs"
proof -
  have "kept m limit scan xs = concat (map (filter m) (chunks scan xs))"
    using assms(2) by (auto simp: kept_def intro!: arg_cong [where f = concat] map_cong)
  also have "\<dots> = filter m xs"
    using concat_chunks [OF assms(1), of xs] by (simp flip: filter_concat)
  finally show ?thesis .
qed

lemma kept_unsearched:
  assumes "0 < scan" and "scan \<le> limit"
  shows "kept m limit scan xs = filter m xs"
proof (rule kept_all [OF assms(1)], rule)
  fix c
  assume "c \<in> set (chunks scan xs)"
  then show "length (filter m c) \<le> limit"
    using chunks_length [OF assms(1), of c xs] assms(2) length_filter_le [of m c] by linarith
qed

lemma length_kept: "0 < scan \<Longrightarrow> length (kept m limit scan xs) \<le> length (filter m xs)"
proof (induction "length xs" arbitrary: xs rule: less_induct)
  case less
  show ?case
  proof (cases "xs = []")
    case False
    then have "length (kept m limit scan (drop scan xs)) \<le> length (filter m (drop scan xs))"
      using less by simp
    moreover have "length (filter m xs) = length (filter m (take scan xs)) + length (filter m (drop scan xs))"
      by (simp flip: filter_append length_append)
    ultimately show ?thesis
      using less.prems by (subst kept_step) simp_all
  qed simp
qed

text \<open>A chunk with more matches than the limit loses some of them for good.\<close>

lemma kept_loses:
  assumes "0 < scan" and "limit < length (filter m (take scan xs))"
  shows "length (kept m limit scan xs) < length (filter m xs)"
proof -
  have "length (filter m xs) = length (filter m (take scan xs)) + length (filter m (drop scan xs))"
    by (simp flip: filter_append length_append)
  then show ?thesis
    using assms length_kept [OF assms(1), of m limit "drop scan xs"] by (subst kept_step) simp_all
qed

section \<open>The contract of a listing\<close>

lemma uint_pos: "w \<noteq> 0 \<Longrightarrow> 0 < uint w"
  for w :: "32 word"
  by (simp add: less_le uint_0_iff)

text \<open>A reader of stream entries: \<open>read cursor n\<close> is up to \<open>n\<close> entries behind the one the cursor names.\<close>

definition reads_entries :: "('e \<Rightarrow> string) \<Rightarrow> (string \<Rightarrow> int \<Rightarrow> go_err + 'e list) \<Rightarrow> 'e list \<Rightarrow> bool" where
  "reads_entries ident read es \<longleftrightarrow>
     (\<forall>n > 0. read '''' n = Inr (take (nat n) es)) \<and>
     (\<forall>pre e post n. es = pre @ e # post \<longrightarrow> n > 0 \<longrightarrow> read (ident e) n = Inr (take (nat n) post))"

lemma reads_behind:
  assumes "reads_entries ident read (pre @ rest)" and "rest = front @ e # post" and "0 < n"
  shows "read (ident e) n = Inr (take (nat n) post)"
proof -
  have "pre @ rest = (pre @ front) @ e # post" using assms(2) by simp
  then show ?thesis using assms(1,3) unfolding reads_entries_def by blast
qed

lemma take_last_split:
  assumes "0 < n" and "n \<le> length xs"
  shows "xs = take (n - 1) xs @ last (take n xs) # drop n xs" and "last (take n xs) \<in> set (take n xs)"
proof -
  have "last (take n xs) = xs ! (n - 1)"
    using assms by (subst last_conv_nth) (auto simp: min_def)
  then show "xs = take (n - 1) xs @ last (take n xs) # drop n xs"
    using assms id_take_nth_drop [of "n - 1" xs] by simp
  show "last (take n xs) \<in> set (take n xs)"
    using assms by (intro last_in_set) auto
qed

lemma list_all2_member: "list_all2 P xs ys \<Longrightarrow> x \<in> set xs \<Longrightarrow> \<exists>y. P x y"
  by (induction rule: list_all2_induct) auto

definition scan_limit :: "PageRequest \<Rightarrow> int" where
  "scan_limit request = (if pr_Search request = '''' then uint (pr_Limit request) else uint (pr_Limit request) * 4)"

definition listing_fetch ::
  "(PageRequest \<Rightarrow> go_err + RecordPage) \<Rightarrow> PageRequest \<Rightarrow> string \<Rightarrow> go_err + JobRecord list \<times> string" where
  "listing_fetch list_page request cursor =
     map_sum id (\<lambda>page. (rp_Items page, rp_NextCursor page)) (list_page (request\<lparr>pr_Cursor := cursor\<rparr>))"

text \<open>
  \<open>list_page\<close> is the listing with its reader as an argument, \<open>convert\<close> the conversion of one entry under
  a configuration, \<open>matches\<close> the search, \<open>encode\<close> and \<open>decode\<close> the cursors.
\<close>

locale record_listing =
  fixes list_page :: "'p \<Rightarrow> (string \<Rightarrow> int \<Rightarrow> go_err + 'e list) \<Rightarrow> PageRequest \<Rightarrow> go_err + RecordPage"
    and convert :: "'p \<Rightarrow> 'e \<Rightarrow> go_err + JobRecord"
    and ident :: "'e \<Rightarrow> string"
    and matches :: "'p \<Rightarrow> string \<Rightarrow> JobRecord \<Rightarrow> bool"
    and encode :: "string \<Rightarrow> string"
    and decode_cursor :: "string \<Rightarrow> go_err + string"
  assumes page_of:
    "PageRequest_Validate request = None \<Longrightarrow> pr_Sort request = SortOccurredAt \<Longrightarrow>
     decode_cursor (pr_Cursor request) = Inr cursor \<Longrightarrow> read cursor (scan_limit request) = Inr es \<Longrightarrow>
     list_all2 (\<lambda>e i. convert p e = Inr i) es items \<Longrightarrow>
     list_page p read request = Inr
       \<lparr>rp_Items = take (unat (pr_Limit request)) (filter (matches p (pr_Search request)) items),
        rp_NextCursor = (if int (length es) = scan_limit request then encode (ident (last es)) else '''')\<rparr>"
    and first_cursor: "decode_cursor '''' = Inr ''''"
    and next_cursor: "convert p e = Inr i \<Longrightarrow>
      decode_cursor (encode (ident e)) = Inr (ident e) \<and> encode (ident e) \<noteq> '''' \<and> length (encode (ident e)) \<le> 1024"
begin

lemma page_at:
  assumes "PageRequest_Validate (request\<lparr>pr_Cursor := c\<rparr>) = None" and "pr_Sort request = SortOccurredAt"
    and "decode_cursor c = Inr cursor" and "read cursor (scan_limit request) = Inr es"
    and "list_all2 (\<lambda>e i. convert p e = Inr i) es items"
  shows "listing_fetch (list_page p read) request c =
    Inr (take (unat (pr_Limit request)) (filter (matches p (pr_Search request)) items),
      if int (length es) = scan_limit request then encode (ident (last es)) else '''')"
proof -
  have "scan_limit (request\<lparr>pr_Cursor := c\<rparr>) = scan_limit request"
    by (simp add: scan_limit_def)
  then show ?thesis
    using page_of [of "request\<lparr>pr_Cursor := c\<rparr>" cursor read es p items] assms
    by (simp add: listing_fetch_def)
qed

lemma valid_at:
  "PageRequest_Validate (request\<lparr>pr_Cursor := ''''\<rparr>) = None \<Longrightarrow> length c \<le> 1024 \<Longrightarrow>
    PageRequest_Validate (request\<lparr>pr_Cursor := c\<rparr>) = None"
  by (auto simp: PageRequest_Validate_def MaxCursorBytes_def split: if_splits)

lemma walk_from:
  assumes read: "reads_entries ident read (pre @ rest)"
    and rows: "list_all2 (\<lambda>e i. convert p e = Inr i) rest items"
    and valid: "PageRequest_Validate (request\<lparr>pr_Cursor := ''''\<rparr>) = None" "pr_Sort request = SortOccurredAt"
    and fuel: "length rest < fuel"
    and start: "length c \<le> 1024" "decode_cursor c = Inr cursor"
      "read cursor (scan_limit request) = Inr (take (nat (scan_limit request)) rest)"
  shows "walk fuel (listing_fetch (list_page p read) request) c =
    Some (Inr (kept (matches p (pr_Search request)) (unat (pr_Limit request)) (nat (scan_limit request)) items))"
  using read rows fuel start
proof (induction fuel arbitrary: pre rest items c cursor)
  case (Suc fuel)
  let ?scan = "nat (scan_limit request)"
  have "pr_Limit request \<noteq> 0"
    using valid(1) by (auto simp: PageRequest_Validate_def split: if_splits)
  then have scan: "0 < ?scan" "0 < scan_limit request"
    using uint_pos [of "pr_Limit request"] by (simp_all add: scan_limit_def)
  have rows: "list_all2 (\<lambda>e i. convert p e = Inr i) (take ?scan rest) (take ?scan items)"
    using Suc.prems(2) by (rule list_all2_takeI)
  note page = page_at [where read = read, OF valid_at [OF valid(1) Suc.prems(4)] valid(2) Suc.prems(5,6) rows]
  show ?case
  proof (cases "?scan \<le> length rest")
    case False
    then have "drop ?scan items = []"
      using list_all2_lengthD [OF Suc.prems(2)] by simp
    moreover have "int (length (take ?scan rest)) \<noteq> scan_limit request"
      using False by simp
    ultimately show ?thesis
      using page kept_step [OF scan(1), of _ _ items] by (simp del: length_take)
  next
    case True
    let ?e = "last (take ?scan rest)"
    note at = take_last_split [OF scan(1) True]
    obtain i where "convert p ?e = Inr i"
      using list_all2_member [OF rows at(2)] by blast
    note next_ok = next_cursor [OF this]
    have "read (ident ?e) (scan_limit request) = Inr (take ?scan (drop ?scan rest))"
      using reads_behind [OF Suc.prems(1) at(1) scan(2)] .
    then have "walk fuel (listing_fetch (list_page p read) request) (encode (ident ?e)) =
        Some (Inr (kept (matches p (pr_Search request)) (unat (pr_Limit request)) ?scan (drop ?scan items)))"
      using Suc.prems(1,3) next_ok scan(1) True
      by (intro Suc.IH [of "pre @ take ?scan rest" "drop ?scan rest"] list_all2_dropI Suc.prems(2)) auto
    moreover have "int (length (take ?scan rest)) = scan_limit request"
      using True scan by simp
    ultimately show ?thesis
      using page next_ok kept_step [OF scan(1), of _ _ items] by (simp del: length_take)
  qed
qed simp

lemmas walk_listing = walk_from [where pre = "[]" and c = "''''" and cursor = "''''", simplified, OF _ _ _ _ _ first_cursor]

end

end
