(* ===== verification/Valkey_Records.thy ===== *)
theory Valkey_Records
  imports Record_Paging Valkey_Roundtrip Valkey_Worker
begin

text \<open>
  Listing and inspection of failure and dead-letter records, src/valkeystream/records.go. The
  transport is asked for its record interfaces as the type assertions do: \<open>rt_pager\<close> is
  nativeRecordPageTransport, \<open>rt_reader\<close> the ReadRecords of nativeRecordTransport.
\<close>

abbreviation ErrManagementRecordsDisabled :: go_err where
  "ErrManagementRecordsDisabled \<equiv> Wrapped (Some ErrUnsupportedCapability)"

abbreviation ErrManagementRecordNotFound :: go_err where
  "ErrManagementRecordNotFound \<equiv> Wrapped (Some ErrRecordNotFound)"

definition valkeyRecordSearchFactor :: int where "valkeyRecordSearchFactor = 4"

record 's record_pager =
  pg_ReadRecordPage :: "string \<Rightarrow> string \<Rightarrow> int \<Rightarrow> SortDirection \<Rightarrow> 's \<Rightarrow> (go_err + nativeRecord list) \<times> 's"
  pg_ReadRecord :: "string \<Rightarrow> string \<Rightarrow> 's \<Rightarrow> (go_err + nativeRecord option) \<times> 's"

record 's RecordTransport =
  rt_pager :: "'s record_pager option"
  rt_reader :: "(string \<Rightarrow> 's \<Rightarrow> (go_err + nativeRecord list) \<times> 's) option"

definition native_records :: "nativeTransport \<Rightarrow> 's client \<Rightarrow> 's RecordTransport" where
  "native_records t client =
     \<lparr>rt_pager = Some \<lparr>pg_ReadRecordPage = nt_ReadRecordPage client, pg_ReadRecord = nt_ReadRecord client\<rparr>,
      rt_reader = Some (nt_ReadRecords t client)\<rparr>"

section \<open>Conversion\<close>

definition empty_payload :: Payload where
  "empty_payload = \<lparr>pl_Visibility = PayloadHidden, pl_ContentType = '''', pl_Size = 0, pl_Data = []\<rparr>"

text \<open>A record with the named fields set and every other one zero.\<close>

definition plain_record ::
  "RecordKind \<Rightarrow> string \<Rightarrow> string \<Rightarrow> string \<Rightarrow> go_time \<Rightarrow> 32 word \<Rightarrow> string \<Rightarrow> Payload \<Rightarrow> JobRecord" where
  "plain_record kind ident backend queue occurredAt attempts failureCode payload =
     \<lparr>jr_Kind = kind, jr_ID = ident, jr_Backend = backend, jr_Queue = queue, jr_OccurredAt = occurredAt,
      jr_Attempts = attempts, jr_FailureCode = failureCode, jr_Payload = payload,
      jr_EnvelopeVersion = 0, jr_PayloadSchemaVersion = '''', jr_OriginalID = '''', jr_Topic = '''',
      jr_Stream = '''', jr_RoutingKey = '''', jr_ConsumerGroup = '''', jr_SourceRecordID = '''',
      jr_EnqueuedAt = None, jr_FirstDeliveryAt = None, jr_LastDeliveryAt = None, jr_DeadLetteredAt = None,
      jr_RetryPolicy = '''', jr_Classification = OtherClassification '''', jr_FailureSummary = '''',
      jr_Diagnostics = empty_payload, jr_HandlerType = '''', jr_JobType = '''', jr_Tags = None,
      jr_TraceID = '''', jr_TenantID = '''', jr_ProducerVersion = '''', jr_WorkerVersion = '''',
      jr_OriginalDeadLetterID = '''', jr_PriorDeadLetterID = '''', jr_ReplayGeneration = 0,
      jr_RetentionDeadline = None\<rparr>"

definition record_payload :: "PayloadVisibility \<Rightarrow> bytes \<Rightarrow> Payload" where
  "record_payload visibility body =
     (let payload = \<lparr>pl_Visibility = visibility, pl_ContentType = '''', pl_Size = int (length body), pl_Data = []\<rparr>
      in if visibility = PayloadRevealed
         then payload\<lparr>pl_ContentType := ''application/octet-stream'', pl_Data := body\<rparr> else payload)"

definition versioned_item ::
  "'w go_runtime \<Rightarrow> ('h, 'm) ValkeyOptions \<Rightarrow> RecordKind \<Rightarrow> nativeRecord \<Rightarrow> JobRecord \<Rightarrow> JobRecord" where
  "versioned_item rt opts kind record item =
     ApplyMessageMetadata
       (item\<lparr>jr_EnvelopeVersion := nr_EnvelopeVersion record, jr_OriginalID := nr_OriginalID record,
          jr_SourceRecordID := nr_OriginalID record, jr_Stream := nr_Source record,
          jr_ConsumerGroup := nr_Group record, jr_Classification := nr_Classification record,
          jr_FailureCode := nr_FailureCode record, jr_OriginalDeadLetterID := nr_OriginalDeadLetterID record,
          jr_PriorDeadLetterID := nr_PriorDeadLetterID record, jr_ReplayGeneration := nr_ReplayGeneration record,
          jr_LastDeliveryAt := Some (nr_OccurredAt record),
          jr_WorkerVersion := (case vo_management opts of None \<Rightarrow> jr_WorkerVersion item | Some m \<Rightarrow> sm_Version m),
          jr_EnqueuedAt := (case recordTime (nr_OriginalID record) of Inl _ \<Rightarrow> jr_EnqueuedAt item | Inr t \<Rightarrow> Some t),
          jr_DeadLetteredAt := (if kind = RecordDeadLetter then Some (nr_OccurredAt record) else jr_DeadLetteredAt item)\<rparr>)
       (MessageMetadata (gr_unmarshal rt) (nr_Body record))"

definition management_item ::
  "'w go_runtime \<Rightarrow> ('h, 'm) ValkeyOptions \<Rightarrow> RecordKind \<Rightarrow> PayloadVisibility \<Rightarrow> nativeRecord \<Rightarrow> JobRecord" where
  "management_item rt opts kind visibility record =
     (let item = plain_record kind (nr_ID record) ''valkey-streams'' (vo_stream opts) (nr_OccurredAt record)
            (word_of_int (nr_Attempts record))
            (if kind = RecordDeadLetter then ''terminal_delivery'' else ''handler_failed'')
            (record_payload visibility (nr_Body record))
      in if nr_EnvelopeVersion record = CurrentEnvelopeVersion then versioned_item rt opts kind record item else item)"

fun managementRecords ::
  "'w go_runtime \<Rightarrow> ('h, 'm) ValkeyOptions \<Rightarrow> nativeRecord list \<Rightarrow> RecordKind \<Rightarrow> PayloadVisibility \<Rightarrow> go_err + JobRecord list" where
  "managementRecords rt opts [] kind visibility = Inr []"
| "managementRecords rt opts (record # records) kind visibility =
     (if nr_Attempts record < 1 \<or> nr_Attempts record > 4294967295
      then Inl (sentinel ''valkeystream: invalid management record attempts'')
      else let item = management_item rt opts kind visibility record
           in case record_Validate rt item of
                Some err \<Rightarrow> Inl (Wrapped (Some err))
              | None \<Rightarrow> map_sum id (Cons item) (managementRecords rt opts records kind visibility))"

section \<open>Search, order and cursors\<close>

definition filterRecords :: "'w go_runtime \<Rightarrow> JobRecord list \<Rightarrow> string \<Rightarrow> JobRecord list" where
  "filterRecords rt items search =
     (let needle = gr_ToLower rt (TrimSpace search)
      in if needle = '''' then items
         else filter (\<lambda>item. strings_Contains
           (gr_ToLower rt (jr_ID item @ '' '' @ jr_Queue item @ '' '' @ jr_FailureCode item)) needle) items)"

text \<open>\<^verbatim>\<open>strings.Compare\<close> and \<^verbatim>\<open>Time.Compare\<close>.\<close>

definition cmp :: "'a :: linorder \<Rightarrow> 'a \<Rightarrow> int" where
  "cmp a b = (if a < b then -1 else if b < a then 1 else 0)"

definition record_comparison :: "SortField \<Rightarrow> JobRecord \<Rightarrow> JobRecord \<Rightarrow> int" where
  "record_comparison field left right =
     (let comparison = (case field of
            SortOccurredAt \<Rightarrow> cmp (nanos (jr_OccurredAt left)) (nanos (jr_OccurredAt right))
          | SortQueue \<Rightarrow> cmp (jr_Queue left) (jr_Queue right)
          | SortAttempts \<Rightarrow> uint (jr_Attempts left) - uint (jr_Attempts right)
          | OtherSort _ \<Rightarrow> cmp (jr_ID left) (jr_ID right))
      in if comparison = 0 then cmp (jr_ID left) (jr_ID right) else comparison)"

definition record_less :: "SortField \<Rightarrow> SortDirection \<Rightarrow> JobRecord \<Rightarrow> JobRecord \<Rightarrow> bool" where
  "record_less field direction left right =
     (if direction = SortDescending then record_comparison field left right > 0
      else record_comparison field left right < 0)"

text \<open>\<^verbatim>\<open>sort.SliceStable\<close>: elements neither of which is less than the other keep their order.\<close>

fun insert_stable :: "('a \<Rightarrow> 'a \<Rightarrow> bool) \<Rightarrow> 'a \<Rightarrow> 'a list \<Rightarrow> 'a list" where
  "insert_stable lt x [] = [x]"
| "insert_stable lt x (y # ys) = (if lt y x then y # insert_stable lt x ys else x # y # ys)"

definition SliceStable :: "('a \<Rightarrow> 'a \<Rightarrow> bool) \<Rightarrow> 'a list \<Rightarrow> 'a list" where
  "SliceStable lt xs = foldr (insert_stable lt) xs []"

definition sortRecords :: "SortField \<Rightarrow> SortDirection \<Rightarrow> JobRecord list \<Rightarrow> JobRecord list" where
  "sortRecords field direction items = SliceStable (record_less field direction) items"

definition encodeRecordCursor :: "nat \<Rightarrow> string" where
  "encodeRecordCursor offset = RawURL_EncodeToString (Itoa (int offset))"

definition decodeRecordCursor :: "string \<Rightarrow> go_err + nat" where
  "decodeRecordCursor cursor =
     (if cursor = '''' then Inr 0
      else case RawURL_DecodeString cursor of
          None \<Rightarrow> Inl (Wrapped (Some ErrMalformedCursor))
        | Some decoded \<Rightarrow>
            if RawURL_EncodeToString decoded \<noteq> cursor then Inl (Wrapped (Some ErrMalformedCursor))
            else case Atoi decoded of
                None \<Rightarrow> Inl (Wrapped (Some ErrMalformedCursor))
              | Some offset \<Rightarrow> if offset < 0 then Inl (Wrapped (Some ErrMalformedCursor)) else Inr (nat offset))"

definition encodeNativeRecordCursor :: "string \<Rightarrow> string" where
  "encodeNativeRecordCursor ident = RawURL_EncodeToString ident"

definition decodeNativeRecordCursor :: "string \<Rightarrow> go_err + string" where
  "decodeNativeRecordCursor cursor =
     (if cursor = '''' then Inr ''''
      else case RawURL_DecodeString cursor of
          None \<Rightarrow> Inl ErrMalformedCursor
        | Some decoded \<Rightarrow>
            if RawURL_EncodeToString decoded \<noteq> cursor \<or> length decoded > MaxIdentityBytes then Inl ErrMalformedCursor
            else case recordTime decoded of Inl _ \<Rightarrow> Inl ErrMalformedCursor | Inr _ \<Rightarrow> Inr decoded)"


section \<open>Listing and inspection\<close>

text \<open>The worker's nativeRecords; \<open>ctx_err\<close> is what the context reports.\<close>

definition nativeRecords ::
  "'s RecordTransport \<Rightarrow> error \<Rightarrow> string \<Rightarrow> 's \<Rightarrow> (go_err + nativeRecord list) \<times> 's" where
  "nativeRecords tr ctx_err stream s =
     (case ctx_err of Some err \<Rightarrow> (Inl err, s)
      | None \<Rightarrow>
          if stream = '''' then (Inl ErrManagementRecordsDisabled, s)
          else case rt_reader tr of
              None \<Rightarrow> (Inl ErrManagementRecordsDisabled, s)
            | Some readRecords \<Rightarrow> readRecords stream s)"

fun take_matching :: "'w go_runtime \<Rightarrow> string \<Rightarrow> 32 word \<Rightarrow> JobRecord list \<Rightarrow> JobRecord list \<Rightarrow> 32 word \<Rightarrow> JobRecord list" where
  "take_matching rt search limit [] items itemCount = items"
| "take_matching rt search limit (item # converted) items itemCount =
     (if length (filterRecords rt [item] search) = 1 \<and> itemCount < limit
      then take_matching rt search limit converted (items @ [item]) (itemCount + 1)
      else take_matching rt search limit converted items itemCount)"

definition listNativeRecordPage ::
  "'w go_runtime \<Rightarrow> ('h, 'm) ValkeyOptions \<Rightarrow> PageRequest \<Rightarrow> RecordKind \<Rightarrow> string \<Rightarrow> 's record_pager \<Rightarrow> 's \<Rightarrow>
    (go_err + RecordPage) \<times> 's" where
  "listNativeRecordPage rt opts request kind stream pager s =
     (if pr_Sort request \<noteq> SortOccurredAt then (Inl ErrInvalidFilter, s)
      else case decodeNativeRecordCursor (pr_Cursor request) of
          Inl err \<Rightarrow> (Inl err, s)
        | Inr cursor \<Rightarrow>
            let scanLimit = (if pr_Search request \<noteq> '''' then uint (pr_Limit request) * valkeyRecordSearchFactor
                             else uint (pr_Limit request));
                (read, s) = pg_ReadRecordPage pager stream cursor scanLimit (pr_Direction request) s
            in (case read of
                  Inl err \<Rightarrow> Inl err
                | Inr records \<Rightarrow>
                    (case managementRecords rt opts records kind PayloadHidden of
                       Inl err \<Rightarrow> Inl err
                     | Inr converted \<Rightarrow>
                         Inr \<lparr>rp_Items = take_matching rt (pr_Search request) (pr_Limit request) converted [] 0,
                              rp_NextCursor = (if int (length records) = scanLimit
                                then encodeNativeRecordCursor (nr_ID (last records)) else '''')\<rparr>), s))"

definition valkey_listRecords ::
  "'w go_runtime \<Rightarrow> ('h, 'm) ValkeyOptions \<Rightarrow> 's RecordTransport \<Rightarrow> error \<Rightarrow> PageRequest \<Rightarrow> RecordKind \<Rightarrow> string \<Rightarrow> 's \<Rightarrow>
    (go_err + RecordPage) \<times> 's" where
  "valkey_listRecords rt opts tr ctx_err request kind stream s =
     (case PageRequest_Validate request of Some err \<Rightarrow> (Inl err, s)
      | None \<Rightarrow>
          (case rt_pager tr of
             Some pager \<Rightarrow> listNativeRecordPage rt opts request kind stream pager s
           | None \<Rightarrow>
               let (read, s) = nativeRecords tr ctx_err stream s
               in (case read of
                     Inl err \<Rightarrow> Inl err
                   | Inr records \<Rightarrow>
                       (case managementRecords rt opts records kind PayloadHidden of
                          Inl err \<Rightarrow> Inl err
                        | Inr items \<Rightarrow>
                            let items = sortRecords (pr_Sort request) (pr_Direction request)
                                  (filterRecords rt items (pr_Search request))
                            in case decodeRecordCursor (pr_Cursor request) of
                                 Inl err \<Rightarrow> Inl err
                               | Inr offset \<Rightarrow>
                                   let offset = min offset (length items);
                                       stop = page_end (length items) (unat (pr_Limit request)) offset
                                   in Inr \<lparr>rp_Items = take (stop - offset) (drop offset items),
                                           rp_NextCursor = (if stop < length items then encodeRecordCursor stop else '''')\<rparr>), s)))"

definition valkey_ListFailures where
  "valkey_ListFailures rt opts tr ctx_err request =
     valkey_listRecords rt opts tr ctx_err request RecordFailure (vo_failureStream opts)"

definition valkey_ListDeadLetters where
  "valkey_ListDeadLetters rt opts tr ctx_err request =
     valkey_listRecords rt opts tr ctx_err request RecordDeadLetter (vo_deadLetterStream opts)"

definition valkey_Inspect ::
  "'w go_runtime \<Rightarrow> ('h, 'm) ValkeyOptions \<Rightarrow> 's RecordTransport \<Rightarrow> error \<Rightarrow> InspectRequest \<Rightarrow> 's \<Rightarrow> (go_err + JobRecord) \<times> 's" where
  "valkey_Inspect rt opts tr ctx_err request s =
     (case InspectRequest_Validate request of Some err \<Rightarrow> (Inl err, s)
      | None \<Rightarrow>
          let stream = (if ir_Kind request = RecordDeadLetter then vo_deadLetterStream opts else vo_failureStream opts)
          in case rt_pager tr of
               Some pager \<Rightarrow>
                 (let (read, s) = pg_ReadRecord pager stream (ir_ID request) s
                  in (case read of
                        Inl err \<Rightarrow> Inl err
                      | Inr None \<Rightarrow> Inl ErrManagementRecordNotFound
                      | Inr (Some record) \<Rightarrow>
                          map_sum id hd (managementRecords rt opts [record] (ir_Kind request) (ir_Visibility request)), s))
             | None \<Rightarrow>
                 (let (read, s) = nativeRecords tr ctx_err stream s
                  in (case read of
                        Inl err \<Rightarrow> Inl err
                      | Inr records \<Rightarrow>
                          (case managementRecords rt opts records (ir_Kind request) (ir_Visibility request) of
                             Inl err \<Rightarrow> Inl err
                           | Inr items \<Rightarrow>
                               (case find (\<lambda>item. jr_ID item = ir_ID request) items of
                                  Some item \<Rightarrow> Inr item
                                | None \<Rightarrow> Inl ErrManagementRecordNotFound)), s)))"


section \<open>The listing as a scan\<close>

abbreviation search_matches :: "'w go_runtime \<Rightarrow> string \<Rightarrow> JobRecord \<Rightarrow> bool" where
  "search_matches rt search item \<equiv> length (filterRecords rt [item] search) = 1"

lemma take_matching_eq:
  "itemCount \<le> limit \<Longrightarrow> take_matching rt search limit converted items itemCount =
    items @ take (unat limit - unat itemCount) (filter (search_matches rt search) converted)"
proof (induction converted arbitrary: items itemCount)
  case (Cons item converted)
  show ?case
  proof (cases "search_matches rt search item \<and> itemCount < limit")
    case True
    then have less: "unat itemCount < unat limit" by (simp add: word_less_nat_alt)
    moreover have "unat limit < 4294967296"
      by (rule order_less_le_trans [OF unsigned_less]) simp
    ultimately have "unat (itemCount + 1) = unat itemCount + 1"
      by (simp add: unat_word_ariths)
    then show ?thesis
      using True less Cons.IH [of "itemCount + 1" "items @ [item]"]
      by (simp add: word_le_nat_alt take_Cons' Suc_diff_le)
  next
    case False
    then show ?thesis
      using Cons.prems Cons.IH [OF Cons.prems, of items] by (auto simp: word_less_nat_alt word_le_nat_alt)
  qed
qed simp

type_synonym ('w, 'h, 'm) listing_config = "'w go_runtime \<times> ('h, 'm) ValkeyOptions \<times> RecordKind \<times> string"

definition valkey_page ::
  "('w, 'h, 'm) listing_config \<Rightarrow> (string \<Rightarrow> int \<Rightarrow> go_err + XRangeEntry list) \<Rightarrow> PageRequest \<Rightarrow> go_err + RecordPage" where
  "valkey_page p read request =
     (let (rt, opts, kind, stream) = p;
          pager = \<lparr>pg_ReadRecordPage = (\<lambda>_ cursor n _ s.
                     (case read cursor n of Inl err \<Rightarrow> Inl err | Inr es \<Rightarrow> convertNativeRecords es, s)),
                   pg_ReadRecord = (\<lambda>_ _ s. (Inr None, s))\<rparr>
      in fst (valkey_listRecords rt opts \<lparr>rt_pager = Some pager, rt_reader = None\<rparr> None request kind stream ()))"

definition valkey_convert :: "('w, 'h, 'm) listing_config \<Rightarrow> XRangeEntry \<Rightarrow> go_err + JobRecord" where
  "valkey_convert p e =
     (let (rt, opts, kind, stream) = p
      in case convertNativeRecord e of
           Inl err \<Rightarrow> Inl err
         | Inr r \<Rightarrow> map_sum id hd (managementRecords rt opts [r] kind PayloadHidden))"

definition valkey_matches :: "('w, 'h, 'm) listing_config \<Rightarrow> string \<Rightarrow> JobRecord \<Rightarrow> bool" where
  "valkey_matches p search item = search_matches (fst p) search item"

lemma unversioned_ident:
  "unversioned_record e = Inr r \<Longrightarrow> nr_ID r = xe_ID e \<and> (\<exists>t. recordTime (xe_ID e) = Inr t)"
  by (cases "recordTime (xe_ID e)")
    (auto simp: unversioned_record_def Let_def split: option.splits if_splits)

lemma versioned_ident: "versioned_record fs v r = Inr r' \<Longrightarrow> nr_ID r' = nr_ID r"
  by (auto simp: versioned_record_def Let_def split: option.splits sum.splits if_splits)

lemma convertNativeRecord_ident:
  "convertNativeRecord e = Inr r \<Longrightarrow> nr_ID r = xe_ID e \<and> (\<exists>t. recordTime (xe_ID e) = Inr t)"
  by (auto simp: convertNativeRecord_def versioned_ident dest!: unversioned_ident split: sum.splits option.splits)

lemma valkey_convert_Inr:
  "valkey_convert (rt, opts, kind, stream) e = Inr i \<longleftrightarrow>
    (\<exists>r. convertNativeRecord e = Inr r \<and> 1 \<le> nr_Attempts r \<and> nr_Attempts r \<le> 4294967295 \<and>
      record_Validate rt (management_item rt opts kind PayloadHidden r) = None \<and>
      i = management_item rt opts kind PayloadHidden r)"
  by (auto simp: valkey_convert_def Let_def not_less not_le split: sum.splits option.splits)

lemma convert_all:
  assumes "list_all2 (\<lambda>e i. valkey_convert (rt, opts, kind, stream) e = Inr i) es items"
  shows "\<exists>rs. convertNativeRecords es = Inr rs \<and> map nr_ID rs = map xe_ID es \<and>
    managementRecords rt opts rs kind PayloadHidden = Inr items"
  using assms
proof (induction rule: list_all2_induct)
  case (Cons e es i items)
  obtain r where r: "convertNativeRecord e = Inr r" "1 \<le> nr_Attempts r" "nr_Attempts r \<le> 4294967295"
      "record_Validate rt (management_item rt opts kind PayloadHidden r) = None"
      "i = management_item rt opts kind PayloadHidden r"
    using Cons.hyps(1) unfolding valkey_convert_Inr by blast
  obtain rs where "convertNativeRecords es = Inr rs" "map nr_ID rs = map xe_ID es"
      "managementRecords rt opts rs kind PayloadHidden = Inr items"
    using Cons.IH by blast
  then have "convertNativeRecords (e # es) = Inr (r # rs) \<and> map nr_ID (r # rs) = map xe_ID (e # es) \<and>
      managementRecords rt opts (r # rs) kind PayloadHidden = Inr (i # items)"
    using r convertNativeRecord_ident [OF r(1)] by (simp add: Let_def)
  then show ?case by blast
qed simp

lemma management_item_ID: "jr_ID (management_item rt opts kind visibility r) = nr_ID r"
  by (simp add: management_item_def versioned_item_def ApplyMessageMetadata_def plain_record_def Let_def
      split: option.split)

lemma JobRecord_Validate_ID: "JobRecord_Validate ifs its r = None \<Longrightarrow> \<not> invalidIdentity (jr_ID r)"
  by (auto simp: JobRecord_Validate_def split: if_splits)

lemma converted_ident:
  assumes "valkey_convert p e = Inr i"
  shows "\<exists>t. recordTime (xe_ID e) = Inr t" and "\<not> invalidIdentity (xe_ID e)"
proof -
  obtain rt opts kind stream where p: "p = (rt, opts, kind, stream)" by (cases p)
  obtain r where r: "convertNativeRecord e = Inr r"
      "record_Validate rt (management_item rt opts kind PayloadHidden r) = None"
    using assms unfolding p valkey_convert_Inr by blast
  show "\<exists>t. recordTime (xe_ID e) = Inr t"
    using convertNativeRecord_ident [OF r(1)] by simp
  show "\<not> invalidIdentity (xe_ID e)"
    using JobRecord_Validate_ID [OF r(2)] convertNativeRecord_ident [OF r(1)] by (simp add: management_item_ID)
qed

interpretation valkey_listing: record_listing valkey_page valkey_convert xe_ID valkey_matches
  encodeNativeRecordCursor decodeNativeRecordCursor
proof (unfold_locales, goal_cases)
  case (1 request cursor read es p items)
  obtain rt opts kind stream where p: "p = (rt, opts, kind, stream)" by (cases p)
  obtain rs where rs: "convertNativeRecords es = Inr rs" "map nr_ID rs = map xe_ID es"
      "managementRecords rt opts rs kind PayloadHidden = Inr items"
    using convert_all [OF 1(5) [unfolded p]] by blast
  have len: "length rs = length es" using rs(2) by (metis length_map)
  have "pr_Limit request \<noteq> 0"
    using 1(1) by (auto simp: PageRequest_Validate_def split: if_splits)
  then have "0 < scan_limit request"
    using uint_pos [of "pr_Limit request"] by (simp add: scan_limit_def)
  then have last: "nr_ID (last rs) = xe_ID (last es)" if "int (length es) = scan_limit request"
    using that len last_map [of rs nr_ID] last_map [of es xe_ID] rs(2) by (cases rs; cases es) auto
  have m: "valkey_matches p = search_matches rt"
    by (simp add: fun_eq_iff valkey_matches_def p)
  have "valkey_page p read request = Inr
      \<lparr>rp_Items = take_matching rt (pr_Search request) (pr_Limit request) items [] 0,
       rp_NextCursor = (if int (length rs) = scan_limit request then encodeNativeRecordCursor (nr_ID (last rs)) else '''')\<rparr>"
    using 1 rs by (cases "pr_Search request = ''''")
      (simp_all add: p valkey_page_def valkey_listRecords_def listNativeRecordPage_def valkeyRecordSearchFactor_def
        scan_limit_def)
  then show ?case
    using last len by (simp add: take_matching_eq m)
next
  case 2
  show ?case by (simp add: decodeNativeRecordCursor_def)
next
  case (3 p e i)
  have e: "length (xe_ID e) \<le> MaxIdentityBytes" "xe_ID e \<noteq> ''''"
    using converted_ident(2) [OF 3] by (auto simp: invalidIdentity_def)
  then have "length (RawURL_EncodeToString (xe_ID e)) \<le> 1024"
    using length_RawURL_EncodeToString [of "xe_ID e"] by (simp add: MaxIdentityBytes_def)
  then show ?case
    using e converted_ident(1) [OF 3] by (auto simp: decodeNativeRecordCursor_def encodeNativeRecordCursor_def RawURL_roundtrip)
qed


section \<open>Walking the pages\<close>

text \<open>
  What the server documents about ranges: entries in the order of their identifiers, backwards for
  the reverse command, an open bound excludes its identifier, and reading changes nothing.
\<close>

definition answers_ranges :: "'s client \<Rightarrow> string \<Rightarrow> 's \<Rightarrow> XRangeEntry list \<Rightarrow> bool" where
  "answers_ranges client stream s es \<longleftrightarrow>
     (\<forall>n > 0. client (CmdRange stream ''-'' ''+'' n) s = (ReplyRange (take (nat n) es), s) \<and>
        client (CmdRevRange stream ''+'' ''-'' n) s = (ReplyRange (take (nat n) (rev es)), s)) \<and>
     (\<forall>pre e post n. es = pre @ e # post \<longrightarrow> n > 0 \<longrightarrow>
        client (CmdRange stream (''('' @ xe_ID e) ''+'' n) s = (ReplyRange (take (nat n) post), s) \<and>
        client (CmdRevRange stream (''('' @ xe_ID e) ''-'' n) s = (ReplyRange (take (nat n) (rev pre)), s))"

definition native_read :: "'s client \<Rightarrow> string \<Rightarrow> SortDirection \<Rightarrow> 's \<Rightarrow> string \<Rightarrow> int \<Rightarrow> go_err + XRangeEntry list" where
  "native_read client stream direction s cursor n =
     (if stream = '''' \<or> n \<le> 0 then Inl ErrInvalidSemanticRequest
      else map_sum valkeyRecordReadError id (AsXRange (fst (client
        (if direction = SortDescending
         then CmdRevRange stream (if cursor = '''' then ''+'' else ''('' @ cursor) ''-'' n
         else CmdRange stream (if cursor = '''' then ''-'' else ''('' @ cursor) ''+'' n) s))))"

lemma fst_ReadRecordPage:
  "fst (nt_ReadRecordPage client stream cursor n direction s) =
    (case native_read client stream direction s cursor n of Inl err \<Rightarrow> Inl err | Inr es \<Rightarrow> convertNativeRecords es)"
  by (simp add: nt_ReadRecordPage_def native_read_def Let_def case_prod_beta split: sum.split)

lemma fst_listNativeRecordPage:
  assumes "\<And>cursor n. fst (pg_ReadRecordPage pager stream cursor n (pr_Direction request) s) =
    fst (pg_ReadRecordPage pager' stream cursor n (pr_Direction request) s')"
  shows "fst (listNativeRecordPage rt opts request kind stream pager s) =
    fst (listNativeRecordPage rt opts request kind stream pager' s')"
  by (simp add: listNativeRecordPage_def Let_def case_prod_beta assms split: sum.split)

lemma native_listing:
  "fst (valkey_listRecords rt opts (native_records t client) ctx_err request kind stream s) =
    valkey_page (rt, opts, kind, stream) (native_read client stream (pr_Direction request) s) request"
  by (auto simp: valkey_listRecords_def valkey_page_def native_records_def fst_ReadRecordPage
      intro!: fst_listNativeRecordPage split: option.split)

abbreviation directed :: "SortDirection \<Rightarrow> 'a list \<Rightarrow> 'a list" where
  "directed direction xs \<equiv> (if direction = SortDescending then rev xs else xs)"

lemma native_reads:
  assumes "answers_ranges client stream s es" and "stream \<noteq> ''''" and "\<forall>e \<in> set es. xe_ID e \<noteq> ''''"
  shows "reads_entries xe_ID (native_read client stream direction s) (directed direction es)"
  unfolding reads_entries_def
proof (intro conjI allI impI)
  fix n :: int
  assume "n > 0"
  then show "native_read client stream direction s '''' n = Inr (take (nat n) (directed direction es))"
    using assms(1,2) by (simp add: native_read_def answers_ranges_def)
next
  fix pre e post and n :: int
  assume split: "directed direction es = pre @ e # post" and n: "n > 0"
  have "e \<in> set es" using arg_cong [OF split, of set] by (auto split: if_splits)
  then have "xe_ID e \<noteq> ''''" using assms(3) by blast
  moreover have "es = rev post @ e # rev pre" if "direction = SortDescending"
    using arg_cong [OF split, of rev] that by simp
  ultimately show "native_read client stream direction s (xe_ID e) n = Inr (take (nat n) post)"
    using assms(1,2) split n unfolding answers_ranges_def
    by (cases "direction = SortDescending") (auto simp: native_read_def)
qed


definition valkey_fetch ::
  "'w go_runtime \<Rightarrow> ('h, 'm) ValkeyOptions \<Rightarrow> nativeTransport \<Rightarrow> 's client \<Rightarrow> RecordKind \<Rightarrow> string \<Rightarrow> 's \<Rightarrow> PageRequest \<Rightarrow>
    string \<Rightarrow> go_err + JobRecord list \<times> string" where
  "valkey_fetch rt opts t client kind stream s =
     listing_fetch (\<lambda>request. fst (valkey_listRecords rt opts (native_records t client) None request kind stream s))"

lemma valkey_fetch_page:
  "valkey_fetch rt opts t client kind stream s request =
    listing_fetch (valkey_page (rt, opts, kind, stream) (native_read client stream (pr_Direction request) s)) request"
  by (simp add: fun_eq_iff valkey_fetch_def listing_fetch_def native_listing)

lemma kept_rows:
  assumes "\<And>e i. P e i \<Longrightarrow> xe_ID e \<noteq> ''''" and "list_all2 P es items"
  shows "\<forall>e \<in> set es. xe_ID e \<noteq> ''''"
  using list_all2_member [OF assms(2)] assms(1) by blast

lemma scan_limit_pos: "PageRequest_Validate request = None \<Longrightarrow> 0 < scan_limit request"
  using uint_pos [of "pr_Limit request"] by (auto simp: PageRequest_Validate_def scan_limit_def split: if_splits)



section \<open>Concrete inputs\<close>

text \<open>A server with one stream, whose state is its entries in order.\<close>

fun range_client :: "XRangeEntry list client" where
  "range_client (CmdRange stream lo hi n) es =
     (ReplyRange (take (nat n) (if lo = ''-'' then es else tl (dropWhile (\<lambda>e. ''('' @ xe_ID e \<noteq> lo) es))), es)"
| "range_client (CmdRevRange stream hi lo n) es =
     (ReplyRange (take (nat n) (rev (if hi = ''+'' then es else takeWhile (\<lambda>e. ''('' @ xe_ID e \<noteq> hi) es))), es)"
| "range_client _ es = (ReplyNil, es)"

lemma range_client_answers:
  assumes "distinct (map xe_ID es)"
  shows "answers_ranges range_client stream es es"
  unfolding answers_ranges_def
proof (intro conjI allI impI)
  fix pre e post and n :: int
  assume split: "es = pre @ e # post"
  have "xe_ID e \<notin> xe_ID ` set pre"
    using assms by (simp add: split)
  then have behind: "''('' @ xe_ID x \<noteq> ''('' @ xe_ID e" if "x \<in> set pre" for x
    using imageI [OF that, of xe_ID] by auto
  then show "range_client (CmdRange stream (''('' @ xe_ID e) ''+'' n) es = (ReplyRange (take (nat n) post), es)"
    by (simp add: split dropWhile_append2)
  from behind show "range_client (CmdRevRange stream (''('' @ xe_ID e) ''-'' n) es = (ReplyRange (take (nat n) (rev pre)), es)"
    by (simp add: split takeWhile_append2)
qed simp_all

definition sample_runtime :: "unit go_runtime" where
  "sample_runtime = \<lparr>gr_iter_fields = (\<lambda>xs. xs), gr_iter_times = (\<lambda>xs. xs),
     gr_unmarshal = (\<lambda>b. Inl (sentinel ''json'')), gr_ToLower = (\<lambda>s. s)\<rparr>"

definition sample_entry :: "string \<Rightarrow> XRangeEntry" where
  "sample_entry ident = \<lparr>xe_ID = ident, xe_FieldValues =
     map_of [(''body'', ''x''), (''original_id'', ''1-0''), (''delivery_attempts'', ''2'')]\<rparr>"

definition sample_item :: "string \<Rightarrow> JobRecord" where
  "sample_item ident = plain_record RecordFailure ident ''valkey-streams'' ''golang-queue''
     (case recordTime ident of Inr t \<Rightarrow> t | Inl _ \<Rightarrow> zero_time) 2 ''handler_failed''
     (record_payload PayloadHidden ''x'')"

definition sample_search :: PageRequest where
  "sample_search = \<lparr>pr_Cursor = '''', pr_Limit = 1, pr_Search = ''failed'', pr_Sort = SortOccurredAt,
     pr_Direction = SortAscending\<rparr>"

lemma sample_facts:
  "recordTime ''5-0'' = Inr (UTC (UnixMilli 5))" "recordTime ''6-0'' = Inr (UTC (UnixMilli 6))"
  "Atoi ''2'' = Some 2" "\<not> invalidIdentity ''5-0''" "\<not> invalidIdentity ''6-0''"
  "\<not> invalidIdentity ''valkey-streams''" "\<not> invalidIdentity ''golang-queue''"
  "\<not> invalidIdentity ''handler_failed''"
  "\<not> IsZero (UnixMilli 5)" "\<not> IsZero (UnixMilli 6)"
  by code_simp+

lemma sample_converts:
  assumes "ident \<in> {''5-0'', ''6-0''}"
  shows "valkey_convert (sample_runtime, sample_options, RecordFailure, ''f'') (sample_entry ident) = Inr (sample_item ident)"
  using assms
  by (auto simp: valkey_convert_def convertNativeRecord_def unversioned_record_def sample_entry_def sample_item_def
      sample_facts management_item_def sample_options_def valkey_defaults_def plain_record_def record_payload_def
      JobRecord_Validate_def Payload_validate_def hasV1Metadata_def empty_payload_def CurrentEnvelopeVersion_def
      map_entries_def Let_def)


lemma sample_matches: "search_matches sample_runtime ''failed'' (sample_item ident)"
proof -
  have that: "strings_Contains (xs @ ''failed'') ''failed''" for xs
    by (induction xs) simp_all
  moreover have "TrimSpace ''failed'' = ''failed''"
    by code_simp
  ultimately show ?thesis
    using that [of "ident @ '' golang-queue handler_''"]
    by (simp add: filterRecords_def sample_runtime_def sample_item_def plain_record_def Let_def
        del: strings_Contains.simps)
qed


end
