(* ===== verification/Control_Cache.thy ===== *)
theory Control_Cache
  imports Control Go_Prelude
begin

text \<open>
  The idempotency cache the stream adapters keep in front of their record mutations (Execute of
  src/valkeystream/control.go and src/adapters/redisstream/control.go): any number of callers, an
  entry per idempotency key made under one lock, and the mutations serialized by another. The
  adapter's own entry operation is a parameter of the step relation; \<open>control_cache\<close> is what it
  promises.
\<close>

record control_entry =
  ce_command :: Command
  ce_result :: "CommandResult option"

type_synonym control_entries = "(string \<times> control_entry) list"

text \<open>What an entry operation answers: a result of its own, the existing entry, or the table with a new one.\<close>

datatype entry_answer = AnswerNow CommandResult | AnswerExisting | AnswerNew control_entries

definition finish_entry :: "string \<Rightarrow> CommandResult \<Rightarrow> control_entries \<Rightarrow> control_entries" where
  "finish_entry key result = map (\<lambda>(k, e). (k, if k = key then e\<lparr>ce_result := Some result\<rparr> else e))"

text \<open>
  Where a caller of Execute stands: before the entry, answered at once, waiting for the entry of
  another caller, before and behind the mutation, and returned. \<open>cc_applied\<close> is the history of the
  mutations, \<open>cc_server\<close> what they act on; other clients may change it at any time.
\<close>

datatype control_pc =
    CIdle
  | CRefused Command CommandResult
  | CWaiting Command
  | CApplying Command
  | CStoring Command CommandResult
  | CReturned Command CommandResult

record 's control_sys =
  cc_entries :: control_entries
  cc_lock :: "nat option"
  cc_server :: 's
  cc_pc :: "nat \<Rightarrow> control_pc"
  cc_applied :: "(Command \<times> CommandResult) list"

text \<open>
  \<open>entry\<close> and \<open>exec\<close> are relations because both read the clock. The mutation holds its lock from
  \<open>cc_lock\<close> to \<open>cc_apply\<close>; a waiting caller may also give up when its context ends.
\<close>

inductive cc_step ::
  "(Command \<Rightarrow> control_entries \<Rightarrow> entry_answer \<Rightarrow> bool) \<Rightarrow> (Command \<Rightarrow> 's \<Rightarrow> CommandResult \<Rightarrow> 's \<Rightarrow> bool) \<Rightarrow>
    's control_sys \<Rightarrow> 's control_sys \<Rightarrow> bool"
  for entry exec where
  cc_answer: "cc_pc g i = CIdle \<Longrightarrow> entry c (cc_entries g) (AnswerNow r) \<Longrightarrow>
    cc_step entry exec g (g\<lparr>cc_pc := (cc_pc g)(i := CRefused c r)\<rparr>)"
| cc_existing: "cc_pc g i = CIdle \<Longrightarrow> entry c (cc_entries g) AnswerExisting \<Longrightarrow>
    cc_step entry exec g (g\<lparr>cc_pc := (cc_pc g)(i := CWaiting c)\<rparr>)"
| cc_new: "cc_pc g i = CIdle \<Longrightarrow> entry c (cc_entries g) (AnswerNew es) \<Longrightarrow>
    cc_step entry exec g (g\<lparr>cc_entries := es, cc_pc := (cc_pc g)(i := CApplying c)\<rparr>)"
| cc_acquire: "cc_pc g i = CApplying c \<Longrightarrow> cc_lock g = None \<Longrightarrow>
    cc_step entry exec g (g\<lparr>cc_lock := Some i\<rparr>)"
| cc_apply: "cc_pc g i = CApplying c \<Longrightarrow> cc_lock g = Some i \<Longrightarrow> exec c (cc_server g) r s \<Longrightarrow>
    cc_step entry exec g (g\<lparr>cc_lock := None, cc_server := s, cc_applied := cc_applied g @ [(c, r)],
      cc_pc := (cc_pc g)(i := CStoring c r)\<rparr>)"
| cc_store: "cc_pc g i = CStoring c r \<Longrightarrow>
    cc_step entry exec g (g\<lparr>cc_entries := finish_entry (cmd_IdempotencyKey c) r (cc_entries g),
      cc_pc := (cc_pc g)(i := CReturned c r)\<rparr>)"
| cc_wake: "cc_pc g i = CWaiting c \<Longrightarrow> map_of (cc_entries g) (cmd_IdempotencyKey c) = Some e \<Longrightarrow> ce_result e = Some r \<Longrightarrow>
    cc_step entry exec g (g\<lparr>cc_pc := (cc_pc g)(i := CReturned c r)\<rparr>)"
| cc_cancel: "cc_pc g i = CWaiting c \<Longrightarrow> cc_step entry exec g (g\<lparr>cc_pc := (cc_pc g)(i := CIdle)\<rparr>)"
| cc_again: "cc_pc g i \<in> {CReturned c r, CRefused c r} \<Longrightarrow> cc_step entry exec g (g\<lparr>cc_pc := (cc_pc g)(i := CIdle)\<rparr>)"
| cc_other: "cc_step entry exec g (g\<lparr>cc_server := s\<rparr>)"

definition cc_start :: "'s control_sys \<Rightarrow> bool" where
  "cc_start g \<longleftrightarrow> cc_entries g = [] \<and> cc_lock g = None \<and> cc_applied g = [] \<and> (\<forall>i. cc_pc g i = CIdle)"

section \<open>The invariant\<close>

text \<open>The command a caller made the entry of and has not stored a result for yet.\<close>

fun pc_owns :: "control_pc \<Rightarrow> Command option" where
  "pc_owns (CApplying c) = Some c"
| "pc_owns (CStoring c r) = Some c"
| "pc_owns _ = None"

text \<open>
  Per key: without an entry nothing was applied; an entry without a result belongs to exactly one
  caller, which has not applied it or is about to store what it got; an entry with a result was
  applied once, with that result.
\<close>

definition applied_for :: "string \<Rightarrow> 's control_sys \<Rightarrow> (Command \<times> CommandResult) list" where
  "applied_for key g = filter (\<lambda>(c, r). cmd_IdempotencyKey c = key) (cc_applied g)"

definition owner_inv :: "'s control_sys \<Rightarrow> bool" where
  "owner_inv g \<longleftrightarrow> (\<forall>i c. pc_owns (cc_pc g i) = Some c \<longrightarrow>
     map_of (cc_entries g) (cmd_IdempotencyKey c) = Some \<lparr>ce_command = c, ce_result = None\<rparr> \<and>
     (\<forall>j d. pc_owns (cc_pc g j) = Some d \<and> cmd_IdempotencyKey d = cmd_IdempotencyKey c \<longrightarrow> j = i) \<and>
     applied_for (cmd_IdempotencyKey c) g = (case cc_pc g i of CStoring _ r \<Rightarrow> [(c, r)] | _ \<Rightarrow> []))"

definition entry_inv :: "'s control_sys \<Rightarrow> bool" where
  "entry_inv g \<longleftrightarrow>
     (\<forall>key. map_of (cc_entries g) key = None \<longrightarrow> applied_for key g = []) \<and>
     (\<forall>key e. map_of (cc_entries g) key = Some e \<and> ce_result e = None \<longrightarrow>
        cmd_IdempotencyKey (ce_command e) = key \<and> (\<exists>i. pc_owns (cc_pc g i) = Some (ce_command e))) \<and>
     (\<forall>key e r. map_of (cc_entries g) key = Some e \<and> ce_result e = Some r \<longrightarrow>
        applied_for key g = [(ce_command e, r)])"

definition caller_inv :: "'s control_sys \<Rightarrow> bool" where
  "caller_inv g \<longleftrightarrow> (\<forall>i.
     (\<forall>c. cc_pc g i = CWaiting c \<longrightarrow> (\<exists>e. map_of (cc_entries g) (cmd_IdempotencyKey c) = Some e \<and> ce_command e = c)) \<and>
     (\<forall>c r. cc_pc g i = CReturned c r \<longrightarrow> map_of (cc_entries g) (cmd_IdempotencyKey c) = Some \<lparr>ce_command = c, ce_result = Some r\<rparr>))"

definition cc_inv :: "'s control_sys \<Rightarrow> bool" where
  "cc_inv g \<longleftrightarrow> owner_inv g \<and> entry_inv g \<and> caller_inv g"


lemma applied_for_update [simp]:
  "applied_for key (g\<lparr>cc_entries := es\<rparr>) = applied_for key g" "applied_for key (g\<lparr>cc_pc := ps\<rparr>) = applied_for key g"
  "applied_for key (g\<lparr>cc_lock := l\<rparr>) = applied_for key g" "applied_for key (g\<lparr>cc_server := s\<rparr>) = applied_for key g"
  by (simp_all add: applied_for_def)

lemma map_of_finish:
  "map_of (finish_entry key r es) k =
    (if k = key then map_option (\<lambda>e. e\<lparr>ce_result := Some r\<rparr>) (map_of es k) else map_of es k)"
  by (induction es) (auto simp: finish_entry_def)

text \<open>A step that leaves the table, the history and the owners alone keeps their part of the invariant.\<close>

definition same_owners :: "'s control_sys \<Rightarrow> 's control_sys \<Rightarrow> bool" where
  "same_owners g h \<longleftrightarrow> cc_entries h = cc_entries g \<and> cc_applied h = cc_applied g \<and>
     (\<forall>j. pc_owns (cc_pc h j) = pc_owns (cc_pc g j) \<and> (pc_owns (cc_pc g j) \<noteq> None \<longrightarrow> cc_pc h j = cc_pc g j))"

lemma owner_same: "same_owners g h \<Longrightarrow> owner_inv g \<Longrightarrow> owner_inv h"
  by (simp add: owner_inv_def same_owners_def applied_for_def)

lemma entry_same: "same_owners g h \<Longrightarrow> entry_inv g \<Longrightarrow> entry_inv h"
  by (simp add: entry_inv_def same_owners_def applied_for_def) blast

lemma caller_move:
  assumes "caller_inv g" and "cc_entries h = cc_entries g" and "cc_pc h = (cc_pc g)(i := p)"
    and "\<And>c. p = CWaiting c \<Longrightarrow> \<exists>e. map_of (cc_entries g) (cmd_IdempotencyKey c) = Some e \<and> ce_command e = c"
    and "\<And>c r. p = CReturned c r \<Longrightarrow> map_of (cc_entries g) (cmd_IdempotencyKey c) = Some \<lparr>ce_command = c, ce_result = Some r\<rparr>"
  shows "caller_inv h"
  using assms by (simp add: caller_inv_def)

lemma quiet_step:
  fixes g h :: "'s control_sys"
  assumes "cc_inv g" and "cc_entries h = cc_entries g" and "cc_applied h = cc_applied g"
    and "cc_pc h = (cc_pc g)(i := p)" and "pc_owns (cc_pc g i) = None" and "pc_owns p = None"
    and "\<And>c. p = CWaiting c \<Longrightarrow> \<exists>e. map_of (cc_entries g) (cmd_IdempotencyKey c) = Some e \<and> ce_command e = c"
    and "\<And>c r. p = CReturned c r \<Longrightarrow> map_of (cc_entries g) (cmd_IdempotencyKey c) = Some \<lparr>ce_command = c, ce_result = Some r\<rparr>"
  shows "cc_inv h"
proof -
  have "same_owners g h" using assms(2-6) by (auto simp: same_owners_def)
  then show ?thesis
    using assms(1) owner_same entry_same caller_move [OF _ assms(2,4,7,8)] unfolding cc_inv_def by blast
qed

lemma unowned:
  assumes "cc_inv g" and "map_of (cc_entries g) key = None"
  shows "applied_for key g = []" and "pc_owns (cc_pc g i) = Some c \<Longrightarrow> cmd_IdempotencyKey c \<noteq> key"
  using assms by (auto simp: cc_inv_def entry_inv_def owner_inv_def dest: spec [of _ key])

lemma entry_invI:
  assumes "\<And>key. map_of (cc_entries g) key = None \<Longrightarrow> applied_for key g = []"
    and "\<And>key e. map_of (cc_entries g) key = Some e \<Longrightarrow> ce_result e = None \<Longrightarrow>
      cmd_IdempotencyKey (ce_command e) = key \<and> (\<exists>i. pc_owns (cc_pc g i) = Some (ce_command e))"
    and "\<And>key e r. map_of (cc_entries g) key = Some e \<Longrightarrow> ce_result e = Some r \<Longrightarrow> applied_for key g = [(ce_command e, r)]"
  shows "entry_inv g"
  using assms unfolding entry_inv_def by blast

lemma entry_pending:
  assumes "cc_inv g" and "map_of (cc_entries g) key = Some e" and "ce_result e = None"
  obtains i where "pc_owns (cc_pc g i) = Some (ce_command e)" and "cmd_IdempotencyKey (ce_command e) = key"
  using assms unfolding cc_inv_def entry_inv_def by blast

lemma entry_done:
  "cc_inv g \<Longrightarrow> map_of (cc_entries g) key = Some e \<Longrightarrow> ce_result e = Some r \<Longrightarrow> applied_for key g = [(ce_command e, r)]"
  unfolding cc_inv_def entry_inv_def by blast

lemma owned:
  assumes "cc_inv g" and "pc_owns (cc_pc g i) = Some c"
  shows "map_of (cc_entries g) (cmd_IdempotencyKey c) = Some \<lparr>ce_command = c, ce_result = None\<rparr>"
    and "pc_owns (cc_pc g j) = Some d \<Longrightarrow> cmd_IdempotencyKey d = cmd_IdempotencyKey c \<Longrightarrow> j = i"
    and "applied_for (cmd_IdempotencyKey c) g = (case cc_pc g i of CStoring _ r \<Rightarrow> [(c, r)] | _ \<Rightarrow> [])"
  using assms unfolding cc_inv_def owner_inv_def by blast+

lemma waiting_entry:
  "cc_inv g \<Longrightarrow> cc_pc g i = CWaiting c \<Longrightarrow> \<exists>e. map_of (cc_entries g) (cmd_IdempotencyKey c) = Some e \<and> ce_command e = c"
  unfolding cc_inv_def caller_inv_def by blast

lemma returned_entry:
  "cc_inv g \<Longrightarrow> cc_pc g i = CReturned c r \<Longrightarrow>
    map_of (cc_entries g) (cmd_IdempotencyKey c) = Some \<lparr>ce_command = c, ce_result = Some r\<rparr>"
  unfolding cc_inv_def caller_inv_def by blast

lemma caller_invI:
  assumes "\<And>i c. cc_pc g i = CWaiting c \<Longrightarrow> \<exists>e. map_of (cc_entries g) (cmd_IdempotencyKey c) = Some e \<and> ce_command e = c"
    and "\<And>i c r. cc_pc g i = CReturned c r \<Longrightarrow>
      map_of (cc_entries g) (cmd_IdempotencyKey c) = Some \<lparr>ce_command = c, ce_result = Some r\<rparr>"
  shows "caller_inv g"
  using assms unfolding caller_inv_def by blast

lemma new_step:
  assumes inv: "cc_inv g" and idle: "cc_pc g i = CIdle"
    and fresh: "map_of (cc_entries g) (cmd_IdempotencyKey c) = None"
    and table: "map_of es = (map_of (cc_entries g))(cmd_IdempotencyKey c \<mapsto> \<lparr>ce_command = c, ce_result = None\<rparr>)"
    and h: "h = g\<lparr>cc_entries := es, cc_pc := (cc_pc g)(i := CApplying c)\<rparr>"
  shows "cc_inv h"
proof -
  let ?key = "cmd_IdempotencyKey c"
  have "owner_inv h"
    unfolding owner_inv_def
  proof (intro allI impI)
    fix j d
    assume own: "pc_owns (cc_pc h j) = Some d"
    show "map_of (cc_entries h) (cmd_IdempotencyKey d) = Some \<lparr>ce_command = d, ce_result = None\<rparr> \<and>
      (\<forall>j' d'. pc_owns (cc_pc h j') = Some d' \<and> cmd_IdempotencyKey d' = cmd_IdempotencyKey d \<longrightarrow> j' = j) \<and>
      applied_for (cmd_IdempotencyKey d) h = (case cc_pc h j of CStoring _ r \<Rightarrow> [(d, r)] | _ \<Rightarrow> [])"
    proof (cases "j = i")
      case True
      then show ?thesis
        using own unowned [OF inv fresh] by (auto simp: h table split: if_splits)
    next
      case False
      then have own: "pc_owns (cc_pc g j) = Some d" using own by (simp add: h)
      show ?thesis
        using own False inv unowned(2) [OF inv fresh own] by (auto simp: cc_inv_def owner_inv_def h table split: if_splits)
    qed
  qed
  moreover have "entry_inv h"
  proof (rule entry_invI)
    fix key e
    assume pending: "map_of (cc_entries h) key = Some e" "ce_result e = None"
    show "cmd_IdempotencyKey (ce_command e) = key \<and> (\<exists>j. pc_owns (cc_pc h j) = Some (ce_command e))"
    proof (cases "key = ?key")
      case True
      then show ?thesis using pending by (auto simp: h table intro: exI [of _ i])
    next
      case False
      then obtain j where "pc_owns (cc_pc g j) = Some (ce_command e)" "cmd_IdempotencyKey (ce_command e) = key"
        using entry_pending [OF inv, of key e] pending by (auto simp: h table)
      then show ?thesis using idle by (auto simp: h intro!: exI [of _ j])
    qed
  qed (use entry_done [OF inv] unowned(1) [OF inv] in \<open>auto simp: h table split: if_splits\<close>)
  moreover have "caller_inv h"
  proof (rule caller_invI)
    fix j d
    assume "cc_pc h j = CWaiting d"
    then have "cc_pc g j = CWaiting d" by (auto simp: h split: if_splits)
    from waiting_entry [OF inv this] fresh
    show "\<exists>e. map_of (cc_entries h) (cmd_IdempotencyKey d) = Some e \<and> ce_command e = d"
      by (auto simp: h table)
  next
    fix j d r
    assume "cc_pc h j = CReturned d r"
    then have "cc_pc g j = CReturned d r" by (auto simp: h split: if_splits)
    from returned_entry [OF inv this] fresh
    show "map_of (cc_entries h) (cmd_IdempotencyKey d) = Some \<lparr>ce_command = d, ce_result = Some r\<rparr>"
      by (auto simp: h table)
  qed
  ultimately show ?thesis by (simp add: cc_inv_def)
qed


lemma mutation_step:
  assumes inv: "cc_inv g" and pc: "cc_pc g i = CApplying c"
    and h: "h = g\<lparr>cc_lock := l, cc_server := s, cc_applied := cc_applied g @ [(c, r)], cc_pc := (cc_pc g)(i := CStoring c r)\<rparr>"
  shows "cc_inv h"
proof -
  have own: "pc_owns (cc_pc g i) = Some c" by (simp add: pc)
  have app: "applied_for key h = applied_for key g @ (if cmd_IdempotencyKey c = key then [(c, r)] else [])" for key
    by (simp add: h applied_for_def)
  have pcs: "pc_owns (cc_pc h j) = pc_owns (cc_pc g j)" for j
    by (simp add: h pc)
  have "owner_inv h"
    unfolding owner_inv_def pcs
  proof (intro allI impI conjI)
    fix j d
    assume d: "pc_owns (cc_pc g j) = Some d"
    show "map_of (cc_entries h) (cmd_IdempotencyKey d) = Some \<lparr>ce_command = d, ce_result = None\<rparr>"
      using owned(1) [OF inv d] by (simp add: h)
    show "applied_for (cmd_IdempotencyKey d) h = (case cc_pc h j of CStoring _ r \<Rightarrow> [(d, r)] | _ \<Rightarrow> [])"
      using owned(3) [OF inv d] owned(2) [OF inv own d] own d unfolding app by (auto simp: h pc)
  qed (use owned(2) [OF inv] in blast)
  moreover have "entry_inv h"
  proof (rule entry_invI)
    fix key e
    assume "map_of (cc_entries h) key = Some e" "ce_result e = None"
    then show "cmd_IdempotencyKey (ce_command e) = key \<and> (\<exists>i. pc_owns (cc_pc h i) = Some (ce_command e))"
      unfolding pcs using entry_pending [OF inv, of key e] by (auto simp: h)
  next
    show "map_of (cc_entries h) key = None \<Longrightarrow> applied_for key h = []" for key
      using owned(1) [OF inv own] unowned(1) [OF inv] unfolding app by (auto simp: h)
    show "map_of (cc_entries h) key = Some e \<Longrightarrow> ce_result e = Some r' \<Longrightarrow> applied_for key h = [(ce_command e, r')]" for key e r'
      using owned(1) [OF inv own] entry_done [OF inv] unfolding app by (auto simp: h)
  qed
  moreover have "caller_inv h"
    using waiting_entry [OF inv] returned_entry [OF inv] unfolding caller_inv_def by (auto simp: h)
  ultimately show ?thesis by (simp add: cc_inv_def)
qed

lemma store_step:
  assumes inv: "cc_inv g" and pc: "cc_pc g i = CStoring c r"
    and h: "h = g\<lparr>cc_entries := finish_entry (cmd_IdempotencyKey c) r (cc_entries g), cc_pc := (cc_pc g)(i := CReturned c r)\<rparr>"
  shows "cc_inv h"
proof -
  let ?key = "cmd_IdempotencyKey c"
  have own: "pc_owns (cc_pc g i) = Some c" by (simp add: pc)
  note mine = owned [OF inv own]
  have table: "map_of (cc_entries h) key =
      (if key = ?key then Some \<lparr>ce_command = c, ce_result = Some r\<rparr> else map_of (cc_entries g) key)" for key
    using mine(1) by (simp add: h map_of_finish)
  have "owner_inv h"
    unfolding owner_inv_def
  proof (intro allI impI)
    fix j d
    assume "pc_owns (cc_pc h j) = Some d"
    then have d: "pc_owns (cc_pc g j) = Some d" "j \<noteq> i" by (auto simp: h split: if_splits)
    then have key: "cmd_IdempotencyKey d \<noteq> ?key" using mine(2) [of j d] by blast
    have other: "j' = j" if "pc_owns (cc_pc h j') = Some d'" "cmd_IdempotencyKey d' = cmd_IdempotencyKey d" for j' d'
      using that owned(2) [OF inv d(1), of j' d'] by (auto simp: h split: if_splits)
    show "map_of (cc_entries h) (cmd_IdempotencyKey d) = Some \<lparr>ce_command = d, ce_result = None\<rparr> \<and>
        (\<forall>j' d'. pc_owns (cc_pc h j') = Some d' \<and> cmd_IdempotencyKey d' = cmd_IdempotencyKey d \<longrightarrow> j' = j) \<and>
        applied_for (cmd_IdempotencyKey d) h = (case cc_pc h j of CStoring _ r \<Rightarrow> [(d, r)] | _ \<Rightarrow> [])"
      using owned(1,3) [OF inv d(1)] key other d(2) unfolding table by (auto simp: h)
  qed
  moreover have "entry_inv h"
  proof (rule entry_invI)
    fix key e
    assume e: "map_of (cc_entries h) key = Some e" "ce_result e = None"
    then have "map_of (cc_entries g) key = Some e" "key \<noteq> ?key" by (auto simp: table split: if_splits)
    then obtain j where "pc_owns (cc_pc g j) = Some (ce_command e)" "cmd_IdempotencyKey (ce_command e) = key"
      using entry_pending [OF inv _ e(2)] by blast
    then show "cmd_IdempotencyKey (ce_command e) = key \<and> (\<exists>j. pc_owns (cc_pc h j) = Some (ce_command e))"
      using own \<open>key \<noteq> ?key\<close> by (auto simp: h intro!: exI [of _ j])
  next
    have app: "applied_for key h = applied_for key g" for key by (simp add: h)
    show "map_of (cc_entries h) key = None \<Longrightarrow> applied_for key h = []" for key
      using unowned(1) [OF inv] unfolding app table by (auto split: if_splits)
    show "map_of (cc_entries h) key = Some e \<Longrightarrow> ce_result e = Some r' \<Longrightarrow> applied_for key h = [(ce_command e, r')]" for key e r'
      using mine(3) entry_done [OF inv] unfolding app table by (auto simp: pc split: if_splits)
  qed
  moreover have "caller_inv h"
  proof (rule caller_invI)
    fix j d
    assume "cc_pc h j = CWaiting d"
    then have "cc_pc g j = CWaiting d" by (auto simp: h split: if_splits)
    from waiting_entry [OF inv this] mine(1)
    show "\<exists>e. map_of (cc_entries h) (cmd_IdempotencyKey d) = Some e \<and> ce_command e = d"
      unfolding table by auto
  next
    fix j d r'
    assume "cc_pc h j = CReturned d r'"
    then have "j = i \<and> d = c \<and> r' = r \<or> cc_pc g j = CReturned d r'" by (auto simp: h split: if_splits)
    with returned_entry [OF inv, of j d r'] mine(1)
    show "map_of (cc_entries h) (cmd_IdempotencyKey d) = Some \<lparr>ce_command = d, ce_result = Some r'\<rparr>"
      unfolding table by auto
  qed
  ultimately show ?thesis by (simp add: cc_inv_def)
qed


section \<open>The contract of an entry operation\<close>

lemma map_of_append_new: "map_of es k = None \<Longrightarrow> map_of (es @ [(k, e)]) = (map_of es)(k \<mapsto> e)"
  by (auto simp: fun_eq_iff map_add_def split: option.splits)

text \<open>
  An entry operation makes a new entry only for a key without one, finds an entry only for the very
  same command, and everything it answers itself is a rejection.
\<close>

locale control_cache =
  fixes entry :: "Command \<Rightarrow> control_entries \<Rightarrow> entry_answer \<Rightarrow> bool"
  assumes entry_new: "entry c es (AnswerNew es') \<Longrightarrow> map_of es (cmd_IdempotencyKey c) = None \<and>
      map_of es' = (map_of es)(cmd_IdempotencyKey c \<mapsto> \<lparr>ce_command = c, ce_result = None\<rparr>)"
    and entry_existing: "entry c es AnswerExisting \<Longrightarrow>
      \<exists>e. map_of es (cmd_IdempotencyKey c) = Some e \<and> ce_command e = c"
    and entry_now: "entry c es (AnswerNow r) \<Longrightarrow> result_Status r = CommandRejected"
begin

lemma cc_step_inv:
  assumes "cc_step entry exec g h" and "cc_inv g"
  shows "cc_inv h"
  using assms
proof (cases rule: cc_step.cases)
  case (cc_answer i c r)
  then show ?thesis using quiet_step [OF assms(2), of h i "CRefused c r"] by simp
next
  case (cc_existing i c)
  then show ?thesis using quiet_step [OF assms(2), of h i "CWaiting c"] entry_existing by simp
next
  case (cc_new i c es)
  then show ?thesis using new_step [OF assms(2)] entry_new by blast
next
  case (cc_acquire i c)
  then have "same_owners g h" by (simp add: same_owners_def)
  then show ?thesis
    using assms(2) owner_same entry_same cc_acquire by (auto simp: cc_inv_def caller_inv_def)
next
  case (cc_apply i c r s)
  then show ?thesis using mutation_step [OF assms(2)] by blast
next
  case (cc_store i c r)
  then show ?thesis using store_step [OF assms(2)] by blast
next
  case (cc_wake i c e r)
  then have "e = \<lparr>ce_command = c, ce_result = Some r\<rparr>"
    using waiting_entry [OF assms(2) cc_wake(2)] by (cases e) simp
  then show ?thesis using cc_wake quiet_step [OF assms(2), of h i "CReturned c r"] by simp
next
  case (cc_cancel i c)
  then show ?thesis using quiet_step [OF assms(2), of h i CIdle] by simp
next
  case (cc_again i c r)
  then show ?thesis using quiet_step [OF assms(2), of h i CIdle] by auto
next
  case (cc_other s)
  then have "same_owners g h" by (simp add: same_owners_def)
  then show ?thesis
    using assms(2) owner_same entry_same cc_other by (auto simp: cc_inv_def caller_inv_def)
qed

lemma cc_start_inv: "cc_start g \<Longrightarrow> cc_inv g"
  by (simp add: cc_start_def cc_inv_def owner_inv_def entry_inv_def caller_inv_def applied_for_def)

lemma refused_step:
  assumes "cc_step entry exec g h" and "\<forall>i c r. cc_pc g i = CRefused c r \<longrightarrow> result_Status r = CommandRejected"
  shows "\<forall>i c r. cc_pc h i = CRefused c r \<longrightarrow> result_Status r = CommandRejected"
  using assms by (cases rule: cc_step.cases) (auto dest: entry_now)

lemma reachable_inv:
  assumes "reachable_from cc_start (cc_step entry exec) g"
  shows "cc_inv g" and "cc_pc g i = CRefused c r \<Longrightarrow> result_Status r = CommandRejected"
proof -
  have "cc_inv g \<and> (\<forall>i c r. cc_pc g i = CRefused c r \<longrightarrow> result_Status r = CommandRejected)"
    using assms
  proof (induction rule: reachable_from.induct)
    case (reach_start g)
    then show ?case using cc_start_inv by (simp add: cc_start_def)
  next
    case (reach_step g h)
    then show ?case using cc_step_inv [of exec g h] refused_step [of exec g h] by blast
  qed
  then show "cc_inv g" and "cc_pc g i = CRefused c r \<Longrightarrow> result_Status r = CommandRejected"
    by blast+
qed

text \<open>Per key at most one mutation, and every caller that returned got its result.\<close>

lemma commands_once:
  assumes "reachable_from cc_start (cc_step entry exec) g"
  shows "length (applied_for key g) \<le> 1"
    and "cc_pc g i = CReturned c r \<Longrightarrow> applied_for (cmd_IdempotencyKey c) g = [(c, r)]"
proof -
  note inv = reachable_inv(1) [OF assms]
  show "cc_pc g i = CReturned c r \<Longrightarrow> applied_for (cmd_IdempotencyKey c) g = [(c, r)]"
    using entry_done [OF inv returned_entry [OF inv]] by simp
  show "length (applied_for key g) \<le> 1"
  proof (cases "map_of (cc_entries g) key")
    case (Some e)
    show ?thesis
    proof (cases "ce_result e")
      case None
      obtain i where "pc_owns (cc_pc g i) = Some (ce_command e)" "cmd_IdempotencyKey (ce_command e) = key"
        using entry_pending [OF inv Some None] .
      then show ?thesis using owned(3) [OF inv] by (auto split: control_pc.split)
    qed (use entry_done [OF inv Some] in simp)
  qed (use unowned(1) [OF inv] in simp)
qed

end

end
