(* ===== verification/Valkey_Control.thy ===== *)
theory Valkey_Control
  imports Control_Cache Valkey_Records Valkey_Worker
begin

text \<open>
  Record mutations and status of the Valkey worker, src/valkeystream/control.go and
  src/valkeystream/status.go. A mutation runs on the native transport; \<open>now\<close> is what the clock of
  the worker reads when the deadline is checked and \<open>completed\<close> when the result is made.
\<close>

section \<open>Results and the idempotency cache\<close>

definition defaultControlCapacity :: int where "defaultControlCapacity = 1024"

abbreviation ErrManagementControlDisabled :: go_err where
  "ErrManagementControlDisabled \<equiv> sentinel ''valkeystream.ErrManagementControlDisabled''"

definition controlResult ::
  "StatusMetadata \<Rightarrow> go_time \<Rightarrow> Command \<Rightarrow> CommandResultStatus \<Rightarrow> string \<Rightarrow> CommandResult" where
  "controlResult m completed command status failureCode =
     \<lparr>result_CommandID = cmd_ID command, result_IdempotencyKey = cmd_IdempotencyKey command,
      result_WorkerID = sm_ID m, result_Protocol = sm_Protocol m, result_Status = status,
      result_FailureCode = failureCode, result_CompletedAt = UTC completed\<rparr>"

definition controlEntry ::
  "StatusMetadata \<Rightarrow> int \<Rightarrow> go_time \<Rightarrow> Command \<Rightarrow> control_entries \<Rightarrow> entry_answer" where
  "controlEntry m controlCapacity completed command entries =
     (case map_of entries (cmd_IdempotencyKey command) of
        Some entry \<Rightarrow>
          if ce_command entry \<noteq> command
          then AnswerNow (controlResult m completed command CommandRejected ''idempotency_conflict'')
          else AnswerExisting
      | None \<Rightarrow>
          let capacity = (if controlCapacity \<le> 0 then defaultControlCapacity else controlCapacity)
          in if int (length entries) \<ge> capacity
             then AnswerNow (controlResult m completed command CommandRejected ''idempotency_capacity'')
             else AnswerNew (entries @ [(cmd_IdempotencyKey command, \<lparr>ce_command = command, ce_result = None\<rparr>)]))"

text \<open>What Execute checks before it looks at the cache; \<open>mutable\<close>: the transport can mutate records.\<close>

definition valkey_Execute_checks :: "('h, 'm) ValkeyOptions \<Rightarrow> bool \<Rightarrow> error \<Rightarrow> Command \<Rightarrow> error" where
  "valkey_Execute_checks opts mutable ctx_err command =
     (if vo_management opts = None then Some ErrManagementControlDisabled
      else if Command_Validate command \<noteq> None then Command_Validate command
      else if ctx_err \<noteq> None then ctx_err
      else if \<not> mutable then Some ErrManagementControlDisabled else None)"

section \<open>Mutations\<close>

definition recordStream :: "('h, 'm) ValkeyOptions \<Rightarrow> TargetKind \<Rightarrow> string" where
  "recordStream opts kind = (if kind = TargetDeadLetter then vo_deadLetterStream opts else vo_failureStream opts)"

definition retry_record ::
  "('h, 'm) ValkeyOptions \<Rightarrow> nativeTransport \<Rightarrow> 's client \<Rightarrow> TargetKind \<Rightarrow> string \<Rightarrow> 's \<Rightarrow> (go_err + nativeRetryOutcome) \<times> 's" where
  "retry_record opts t client kind ident =
     nt_RetryRecord t client (recordStream opts kind) ident (vo_stream opts) (vo_stream opts) (vo_group opts)
       (kind = TargetFailure)"

definition retryNativeRecord ::
  "StatusMetadata \<Rightarrow> ('h, 'm) ValkeyOptions \<Rightarrow> nativeTransport \<Rightarrow> 's client \<Rightarrow> go_time \<Rightarrow> Command \<Rightarrow> 's \<Rightarrow> CommandResult \<times> 's" where
  "retryNativeRecord m opts t client completed command s =
     (let (r, s) = retry_record opts t client (target_Kind (cmd_Target command)) (target_Name (cmd_Target command)) s;
          result = controlResult m completed command
      in (case r of
            Inl err \<Rightarrow> result CommandUnknown ''''
          | Inr nativeRetryOK \<Rightarrow> result CommandAcknowledged ''''
          | Inr nativeRetryNotFound \<Rightarrow> result CommandRejected ''record_not_found''
          | Inr nativeRetryStale \<Rightarrow> result CommandRejected ''source_record_stale''
          | Inr nativeRetryMalformed \<Rightarrow> result CommandFailed ''record_malformed''
          | Inr nativeRetryCapacity \<Rightarrow> result CommandRejected ''queue_capacity'', s))"

definition replayNativeRecord ::
  "StatusMetadata \<Rightarrow> ('h, 'm) ValkeyOptions \<Rightarrow> nativeTransport \<Rightarrow> 's client \<Rightarrow> go_time \<Rightarrow> Command \<Rightarrow> ReplayOptions \<Rightarrow> 's \<Rightarrow>
    CommandResult \<times> 's" where
  "replayNativeRecord m opts t client completed command replay s =
     (let result = controlResult m completed command
      in if length (vo_replayDestinations opts) = 0 then (result CommandUnsupported ''unsupported_action'', s)
         else if Destination replay \<notin> set (vo_replayDestinations opts)
         then (result CommandRejected ''destination_not_allowed'', s)
         else let (r, s) = nt_ReplayRecord t client (recordStream opts (target_Kind (cmd_Target command)))
                    (target_Name (cmd_Target command)) (Destination replay) (IdempotencyPolicy replay) s
              in (case r of
                    Inl err \<Rightarrow> result CommandUnknown ''''
                  | Inr nativeReplayOK \<Rightarrow> result CommandAcknowledged ''''
                  | Inr nativeReplayNotFound \<Rightarrow> result CommandRejected ''record_not_found''
                  | Inr nativeReplayMalformed \<Rightarrow> result CommandFailed ''record_malformed''
                  | Inr nativeReplayDuplicate \<Rightarrow> result CommandRejected ''replay_duplicate''
                  | Inr nativeReplayCapacity \<Rightarrow> result CommandRejected ''queue_capacity'', s))"

text \<open>The loop of a bulk retry over the records it selected, from \<open>index\<close> on.\<close>

fun bulk_retry_loop ::
  "('h, 'm) ValkeyOptions \<Rightarrow> nativeTransport \<Rightarrow> 's client \<Rightarrow> TargetKind \<Rightarrow> nat \<Rightarrow> nativeRecord list \<Rightarrow> 's \<Rightarrow>
    (CommandResultStatus \<times> string) \<times> 's" where
  "bulk_retry_loop opts t client kind index [] s = ((CommandAcknowledged, ''''), s)"
| "bulk_retry_loop opts t client kind index (record # records) s =
     (case retry_record opts t client kind (nr_ID record) s of
        (Inl err, s) \<Rightarrow>
          (if index = 0 then (CommandUnknown, '''') else (CommandPartial, ''bulk_enqueue_unknown''), s)
      | (Inr outcome, s) \<Rightarrow>
          if outcome = nativeRetryCapacity
          then ((if index = 0 then CommandRejected else CommandPartial, ''queue_capacity''), s)
          else if outcome \<noteq> nativeRetryOK then ((CommandPartial, ''bulk_record_unavailable''), s)
          else bulk_retry_loop opts t client kind (index + 1) records s)"

definition bulkRetryNativeRecords ::
  "StatusMetadata \<Rightarrow> ('h, 'm) ValkeyOptions \<Rightarrow> nativeTransport \<Rightarrow> 's client \<Rightarrow> go_time \<Rightarrow> Command \<Rightarrow> 32 word \<Rightarrow> 's \<Rightarrow>
    CommandResult \<times> 's" where
  "bulkRetryNativeRecords m opts t client completed command selection s =
     (case nt_ReadRecords t client (recordStream opts (target_Kind (cmd_Target command))) s of
        (Inl err, s) \<Rightarrow> (controlResult m completed command CommandFailed ''records_unavailable'', s)
      | (Inr records, s) \<Rightarrow>
          let limit = min (length records) (unat selection);
              ((status, failureCode), s) = bulk_retry_loop opts t client (target_Kind (cmd_Target command)) 0 (take limit records) s
          in (controlResult m completed command status failureCode, s))"

definition deleteNativeRecord ::
  "StatusMetadata \<Rightarrow> ('h, 'm) ValkeyOptions \<Rightarrow> 's client \<Rightarrow> go_time \<Rightarrow> Command \<Rightarrow> 's \<Rightarrow> CommandResult \<times> 's" where
  "deleteNativeRecord m opts client completed command s =
     (let (r, s) = nt_DeleteRecord client (recordStream opts (target_Kind (cmd_Target command)))
            (target_Name (cmd_Target command)) s;
          result = controlResult m completed command
      in (case r of
            Inl err \<Rightarrow> result CommandUnknown ''''
          | Inr deleted \<Rightarrow>
              if \<not> deleted then result CommandRejected ''record_not_found'' else result CommandAcknowledged '''', s))"

text \<open>
  The commands come here validated: a bulk retry has its selection and a replay its options. A
  missing one is the nil dereference of the code, the value None.
\<close>

definition executeNativeCommand ::
  "StatusMetadata \<Rightarrow> ('h, 'm) ValkeyOptions \<Rightarrow> nativeTransport \<Rightarrow> 's client \<Rightarrow> go_time \<Rightarrow> go_time \<Rightarrow> Command \<Rightarrow> 's \<Rightarrow>
    (CommandResult \<times> 's) option" where
  "executeNativeCommand m opts t client now completed command s =
     (let result = controlResult m completed command
      in if cmd_Protocol command \<noteq> sm_Protocol m then Some (result CommandUnsupported ''protocol_mismatch'', s)
         else if \<not> After (cmd_Deadline command) (UTC now) then Some (result CommandTimedOut ''deadline_exceeded'', s)
         else case cmd_Action command of
             CommandRetry \<Rightarrow> Some (retryNativeRecord m opts t client completed command s)
           | CommandBulkRetry \<Rightarrow>
               map_option (\<lambda>n. bulkRetryNativeRecords m opts t client completed command n s) (cmd_Selection command)
           | CommandDelete \<Rightarrow> Some (deleteNativeRecord m opts client completed command s)
           | CommandPurge \<Rightarrow>
               if target_Kind (cmd_Target command) = TargetQueue
               then Some (result CommandUnsupported ''unsupported_action'', s)
               else (case nt_PurgeRecords client (recordStream opts (target_Kind (cmd_Target command))) s of
                       (Some err, s) \<Rightarrow> Some (result CommandUnknown '''', s)
                     | (None, s) \<Rightarrow> Some (result CommandAcknowledged '''', s))
           | CommandReplay \<Rightarrow>
               map_option (\<lambda>replay. replayNativeRecord m opts t client completed command replay s) (cmd_Replay command)
           | _ \<Rightarrow> Some (result CommandUnsupported ''unsupported_action'', s))"

section \<open>Status\<close>

abbreviation ErrManagementStatusDisabled :: go_err where
  "ErrManagementStatusDisabled \<equiv> sentinel ''valkeystream.ErrManagementStatusDisabled''"

definition worker_capabilities :: "('h, 'm) ValkeyOptions \<Rightarrow> Capability list" where
  "worker_capabilities opts =
     [CapabilityWorkerStatus, CapabilityQueueStatus, CapabilityFailures, CapabilityDeadLetters, CapabilityRetry,
      CapabilityBulkRetry, CapabilityDelete, CapabilityPurge] @
     (if length (vo_replayDestinations opts) > 0 then [CapabilityReplay] else []) @
     (if vo_recordMaxLength opts > 0 then [CapabilityRetentionCount] else [])"


definition valkey_ObserveWorker ::
  "('h, 'm) ValkeyOptions \<Rightarrow> go_time \<Rightarrow> error \<Rightarrow> go_time \<Rightarrow> bool \<Rightarrow> 32 word \<Rightarrow> go_err + WorkerStatus" where
  "valkey_ObserveWorker opts startedAt ctx_err now stopped currentJobs =
     (case vo_management opts of
        None \<Rightarrow> Inl ErrManagementStatusDisabled
      | Some m \<Rightarrow>
          if IsZero startedAt then Inl ErrManagementStatusDisabled
          else case ctx_err of Some err \<Rightarrow> Inl err
          | None \<Rightarrow>
              if Before (UTC now) startedAt then Inl ErrInvalidManagementStatus
              else Inr \<lparr>ws_ID = sm_ID m, ws_Version = sm_Version m, ws_StartedAt = startedAt, ws_HeartbeatAt = UTC now,
                     ws_Queues = [vo_stream opts], ws_Concurrency = sm_Concurrency m,
                     ws_State = (if stopped then WorkerStopped else WorkerRunning), ws_CurrentJobs = currentJobs,
                     ws_DrainStatus = DrainNotRequested, ws_Backend = ''valkey-streams'', ws_Protocol = sm_Protocol m,
                     ws_Capabilities = worker_capabilities opts\<rparr>)"

abbreviation supported :: "'a \<Rightarrow> 'a Measurement" where
  "supported v \<equiv> \<lparr>Value = v, Supported = True\<rparr>"

definition valkey_metrics :: "WorkerStats \<Rightarrow> QueueMetrics" where
  "valkey_metrics stats =
     (let counters = vs_metrics stats
      in \<lparr>qm_Depth = (if vs_LagKnown stats then supported (sint (vs_Depth stats)) else unsupported 0),
          qm_Lag = (if vs_LagKnown stats then supported (sint (vs_Lag stats)) else unsupported 0),
          qm_Pending = supported (sint (vs_Pending stats)), qm_OldestAge = supported (vs_OldestPendingAge stats),
          qm_Throughput = unsupported (Finite 0), qm_Runtime = unsupported 0,
          qm_Succeeded = supported (wm_acknowledged counters), qm_Failed = unsupported 0,
          qm_Retried = supported (wm_retries counters), qm_Reclaimed = supported (wm_reclaimed counters),
          qm_DeadLettered = supported (wm_deadLettered counters),
          qm_SettlementErrors = supported (wm_settlementFailures counters)\<rparr>)"

definition valkey_ObserveQueue ::
  "'s Transport \<Rightarrow> ('h, 'm) ValkeyOptions \<Rightarrow> error \<Rightarrow> go_time \<Rightarrow> go_time \<Rightarrow> 's worker_world \<Rightarrow> (go_err + QueueStatus) \<times> 's worker_world" where
  "valkey_ObserveQueue tr opts ctx_err now observed w =
     (if vo_management opts = None then (Inl ErrManagementStatusDisabled, w)
      else case ctx_err of Some err \<Rightarrow> (Inl err, w)
      | None \<Rightarrow>
          (case valkey_Stats tr opts (UTC now) w of
             (Inl err, w) \<Rightarrow> (Inl err, w)
           | (Inr stats, w) \<Rightarrow>
               (Inr \<lparr>qs_Backend = ''valkey-streams'', qs_Queue = vo_stream opts, qs_ObservedAt = UTC observed,
                     qs_Metrics = valkey_metrics stats\<rparr>, w)))"


section \<open>The cache contract\<close>

definition valkey_entry :: "StatusMetadata \<Rightarrow> int \<Rightarrow> Command \<Rightarrow> control_entries \<Rightarrow> entry_answer \<Rightarrow> bool" where
  "valkey_entry m controlCapacity command entries answer \<longleftrightarrow>
     (\<exists>completed. controlEntry m controlCapacity completed command entries = answer)"

definition valkey_exec ::
  "StatusMetadata \<Rightarrow> ('h, 'm) ValkeyOptions \<Rightarrow> nativeTransport \<Rightarrow> 's client \<Rightarrow> Command \<Rightarrow> 's \<Rightarrow> CommandResult \<Rightarrow> 's \<Rightarrow> bool" where
  "valkey_exec m opts t client command s result s' \<longleftrightarrow>
     (\<exists>now completed. executeNativeCommand m opts t client now completed command s = Some (result, s'))"

lemma controlEntry_answer:
  "controlEntry m controlCapacity completed c es = AnswerNew es' \<Longrightarrow> map_of es (cmd_IdempotencyKey c) = None \<and>
     es' = es @ [(cmd_IdempotencyKey c, \<lparr>ce_command = c, ce_result = None\<rparr>)]"
  "controlEntry m controlCapacity completed c es = AnswerExisting \<Longrightarrow>
     \<exists>e. map_of es (cmd_IdempotencyKey c) = Some e \<and> ce_command e = c"
  "controlEntry m controlCapacity completed c es = AnswerNow r \<Longrightarrow> result_Status r = CommandRejected"
  by (auto simp only: controlEntry_def Let_def entry_answer.simps option.simps controlResult_def CommandResult.select_convs
      split: option.splits if_splits)

interpretation valkey_cache: control_cache "valkey_entry m controlCapacity" for m controlCapacity
proof (unfold_locales, goal_cases)
  case (1 c es es')
  then show ?case
    unfolding valkey_entry_def by (auto dest!: controlEntry_answer(1) simp: map_of_append_new simp del: map_of_append)
next
  case (2 c es)
  then show ?case unfolding valkey_entry_def using controlEntry_answer(2) by blast
next
  case (3 c es r)
  then show ?case unfolding valkey_entry_def using controlEntry_answer(3) by blast
qed

section \<open>Mutations on the server\<close>

text \<open>
  The server that runs the scripts of the native transport; a policy goes to the replay script as
  its text. Deleting an entry answers how many there were.
\<close>

fun policy_text :: "ReplayPolicy \<Rightarrow> string" where
  "policy_text ReplayRejectDuplicate = ''reject_duplicate''"
| "policy_text ReplayReplaceDuplicate = ''replace_duplicate''"
| "policy_text (OtherPolicy s) = s"

fun script_client :: "'s server \<Rightarrow> 's client" where
  "script_client sv (CmdRetry records destination source ident grp kind capacity) s =
     map_prod ReplyText id (retryRecordScript sv records destination source ident grp kind (of_int capacity) s)"
| "script_client sv (CmdReplay records destination registry order ident policy replayKey capacity) s =
     map_prod ReplyText id
       (replayRecordScript sv records destination registry order ident (policy_text policy) replayKey (of_int capacity) s)"
| "script_client sv (CmdDeleteEntry stream ident) s =
     (case XRANGE_entry sv stream ident s of None \<Rightarrow> (ReplyInt 0, s) | Some _ \<Rightarrow> (ReplyInt 1, XDEL sv stream ident s))"
| "script_client sv _ s = (ReplyError (sentinel ''unreachable server''), s)"


lemma script_retry:
  assumes "records \<noteq> ''''" and "ident \<noteq> ''''" and "destination \<noteq> ''''" and "source \<noteq> ''''" and "grp \<noteq> ''''"
    and run: "nt_RetryRecord t (script_client sv) records ident destination source grp failure s = (r, s')"
  obtains outcome where "r = Inr outcome" and "outcome \<noteq> nativeRetryOK \<Longrightarrow> s' = s"
    and "outcome = nativeRetryOK \<Longrightarrow> retry_effect sv records destination (if failure then source else destination) ident grp
      (if failure then RetryFailure else RetryDeadLetter) (of_int (nt_maxLength t)) s s'"
proof -
  obtain v s1 where script: "retryRecordScript sv records destination (if failure then source else destination) ident grp
      (if failure then RetryFailure else RetryDeadLetter) (of_int (nt_maxLength t)) s = (v, s1)"
    by fastforce
  note out = retryRecordScript_outcomes [OF script]
  have "s' = s1" and r: "r = (case retry_outcome v of None \<Rightarrow> Inl malformedResponse | Some outcome \<Rightarrow> Inr outcome)"
    using run script assms(1-5) by (auto simp: nt_RetryRecord_def Let_def)
  moreover have "v \<in> {''ok'', ''not_found'', ''stale'', ''malformed'', ''capacity''}"
    using out(1) by blast
  then obtain outcome where "retry_outcome v = Some outcome" "outcome = nativeRetryOK \<longleftrightarrow> v = ''ok''"
    by (auto simp: retry_outcome_def)
  ultimately show thesis
    using that [of outcome] out by auto
qed

lemma script_replay:
  assumes "records \<noteq> ''''" and "ident \<noteq> ''''" and "destination \<noteq> ''''" and "policy_valid policy"
    and run: "nt_ReplayRecord t (script_client sv) records ident destination policy s = (r, s')"
  obtains outcome where "r = Inr outcome" and "outcome \<noteq> nativeReplayOK \<Longrightarrow> s' = s"
    and "outcome = nativeReplayOK \<Longrightarrow> replay_sound sv records (destination @ '':queue:replay-index'') ident
      (policy_text policy) (RawURL_EncodeToString (records @ [CHR 0x00] @ ident)) s"
proof -
  have policy: "policy = ReplayRejectDuplicate \<or> policy = ReplayReplaceDuplicate"
    using assms(4) by (cases policy) auto
  obtain v s1 where script: "replayRecordScript sv records destination (destination @ '':queue:replay-index'')
      (destination @ '':queue:replay-order'') ident (policy_text policy)
      (RawURL_EncodeToString (records @ [CHR 0x00] @ ident)) (of_int (nt_maxLength t)) s = (v, s1)"
    by fastforce
  note out = replayRecordScript_outcomes [OF script]
  have "s' = s1" and r: "r = (case replay_outcome v of None \<Rightarrow> Inl malformedResponse | Some outcome \<Rightarrow> Inr outcome)"
    using run script assms(1-3) policy by (auto simp: nt_ReplayRecord_def Let_def)
  moreover obtain outcome where "replay_outcome v = Some outcome" "outcome = nativeReplayOK \<longleftrightarrow> v = ''ok''"
    using out(2) by (auto simp: replay_outcome_def)
  ultimately show thesis
    using that [of outcome] out by auto
qed


text \<open>What an acknowledged mutation of one record did on the server.\<close>

definition mutation_effect ::
  "'s server \<Rightarrow> ('h, 'm) ValkeyOptions \<Rightarrow> nativeTransport \<Rightarrow> Command \<Rightarrow> 's \<Rightarrow> 's \<Rightarrow> bool" where
  "mutation_effect sv opts t command s s' \<longleftrightarrow>
     (let records = recordStream opts (target_Kind (cmd_Target command)); ident = target_Name (cmd_Target command)
      in case cmd_Action command of
           CommandRetry \<Rightarrow> retry_effect sv records (vo_stream opts) (vo_stream opts) ident (vo_group opts)
             (if target_Kind (cmd_Target command) = TargetFailure then RetryFailure else RetryDeadLetter)
             (of_int (nt_maxLength t)) s s'
         | CommandReplay \<Rightarrow> (\<exists>replay. cmd_Replay command = Some replay \<and> Destination replay \<in> set (vo_replayDestinations opts) \<and>
             replay_sound sv records (Destination replay @ '':queue:replay-index'') ident (policy_text (IdempotencyPolicy replay))
               (RawURL_EncodeToString (records @ [CHR 0x00] @ ident)) s)
         | _ \<Rightarrow> XRANGE_entry sv records ident s \<noteq> None \<and> s' = XDEL sv records ident s)"

lemma accepted_target:
  assumes "Command_Validate command = None"
  shows "target_Name (cmd_Target command) \<noteq> ''''" and "cmd_ID command \<noteq> ''''" and "\<not> invalidIdentity (cmd_ID command)"
    and "\<not> invalidIdentity (cmd_IdempotencyKey command)"
    and "cmd_Action command = CommandReplay \<Longrightarrow>
      \<exists>replay. cmd_Replay command = Some replay \<and> Destination replay \<noteq> '''' \<and> policy_valid (IdempotencyPolicy replay)"
  using assms
  by (auto simp: Command_Validate_def validate_action_def invalidIdentity_def split: if_splits option.splits)

lemma record_streams: "valkey_safe opts \<Longrightarrow> recordStream opts kind \<noteq> '''' \<and> vo_stream opts \<noteq> '''' \<and> vo_group opts \<noteq> ''''"
  by (auto simp: valkey_safe_def recordStream_def nonblank_def)

lemma status_of_controlResult [simp]: "result_Status (controlResult m completed c status code) = status"
  by (simp add: controlResult_def)

lemma retry_effects:
  assumes "valkey_safe opts" and "Command_Validate command = None" and "cmd_Action command = CommandRetry"
    and run: "retryNativeRecord m opts t (script_client sv) completed command s = (r, s')"
  shows "(result_Status r \<noteq> CommandAcknowledged \<longrightarrow> s' = s) \<and>
    (result_Status r = CommandAcknowledged \<longrightarrow> mutation_effect sv opts t command s s') \<and> result_Status r \<noteq> CommandUnknown"
proof -
  let ?kind = "target_Kind (cmd_Target command)" and ?ident = "target_Name (cmd_Target command)"
  obtain q s1 where q: "retry_record opts t (script_client sv) ?kind ?ident s = (q, s1)" by fastforce
  obtain outcome where "q = Inr outcome" and "outcome \<noteq> nativeRetryOK \<Longrightarrow> s1 = s"
    and "outcome = nativeRetryOK \<Longrightarrow> retry_effect sv (recordStream opts ?kind) (vo_stream opts)
      (if ?kind = TargetFailure then vo_stream opts else vo_stream opts) ?ident (vo_group opts)
      (if ?kind = TargetFailure then RetryFailure else RetryDeadLetter) (of_int (nt_maxLength t)) s s1"
    using script_retry [OF _ _ _ _ _ q [unfolded retry_record_def]] record_streams [OF assms(1)] accepted_target(1) [OF assms(2)]
    by metis
  then show ?thesis
    using run q assms(3) by (cases outcome) (auto simp: retryNativeRecord_def mutation_effect_def)
qed

lemma replay_effects:
  assumes "valkey_safe opts" and "Command_Validate command = None" and "cmd_Action command = CommandReplay"
    and replay: "cmd_Replay command = Some replay"
    and run: "replayNativeRecord m opts t (script_client sv) completed command replay s = (r, s')"
  shows "(result_Status r \<noteq> CommandAcknowledged \<longrightarrow> s' = s) \<and>
    (result_Status r = CommandAcknowledged \<longrightarrow> mutation_effect sv opts t command s s') \<and> result_Status r \<noteq> CommandUnknown"
proof (cases "Destination replay \<in> set (vo_replayDestinations opts)")
  case False
  then show ?thesis using run by (auto simp: replayNativeRecord_def Let_def split: if_splits)
next
  case True
  let ?kind = "target_Kind (cmd_Target command)" and ?ident = "target_Name (cmd_Target command)"
  have ok: "Destination replay \<noteq> ''''" "policy_valid (IdempotencyPolicy replay)"
    using accepted_target(5) [OF assms(2,3)] replay by auto
  obtain q s1 where q: "nt_ReplayRecord t (script_client sv) (recordStream opts ?kind) ?ident (Destination replay)
      (IdempotencyPolicy replay) s = (q, s1)" by fastforce
  obtain outcome where "q = Inr outcome" and "outcome \<noteq> nativeReplayOK \<Longrightarrow> s1 = s"
    and "outcome = nativeReplayOK \<Longrightarrow> replay_sound sv (recordStream opts ?kind) (Destination replay @ '':queue:replay-index'')
      ?ident (policy_text (IdempotencyPolicy replay)) (RawURL_EncodeToString (recordStream opts ?kind @ [CHR 0x00] @ ?ident)) s"
    using script_replay [OF _ _ ok q] record_streams [OF assms(1)] accepted_target(1) [OF assms(2)] by metis
  moreover have "vo_replayDestinations opts \<noteq> []" using True by auto
  ultimately show ?thesis
    using run q assms(3) replay True
    by (cases outcome) (auto simp: replayNativeRecord_def mutation_effect_def Let_def)
qed

lemma delete_effects:
  assumes "valkey_safe opts" and "Command_Validate command = None" and "cmd_Action command = CommandDelete"
    and run: "deleteNativeRecord m opts (script_client sv) completed command s = (r, s')"
  shows "(result_Status r \<noteq> CommandAcknowledged \<longrightarrow> s' = s) \<and>
    (result_Status r = CommandAcknowledged \<longrightarrow> mutation_effect sv opts t command s s') \<and> result_Status r \<noteq> CommandUnknown"
  using run assms(3) record_streams [OF assms(1)] accepted_target(1) [OF assms(2)]
  by (auto simp: deleteNativeRecord_def nt_DeleteRecord_def mutation_effect_def Let_def split: option.splits)

text \<open>Every result the worker makes passes its own validation.\<close>

definition reportable :: "CommandResultStatus \<Rightarrow> string \<Rightarrow> bool" where
  "reportable status code \<longleftrightarrow> status_valid status \<and> (requiresFailureCode status \<longrightarrow> \<not> invalidIdentity code) \<and>
     (\<not> requiresFailureCode status \<longrightarrow> code = '''')"

lemma control_codes:
  "\<not> invalidIdentity ''record_not_found''" "\<not> invalidIdentity ''source_record_stale''" "\<not> invalidIdentity ''record_malformed''"
  "\<not> invalidIdentity ''queue_capacity''" "\<not> invalidIdentity ''unsupported_action''" "\<not> invalidIdentity ''replay_duplicate''"
  "\<not> invalidIdentity ''destination_not_allowed''" "\<not> invalidIdentity ''records_unavailable''"
  "\<not> invalidIdentity ''bulk_enqueue_unknown''" "\<not> invalidIdentity ''bulk_record_unavailable''"
  "\<not> invalidIdentity ''protocol_mismatch''" "\<not> invalidIdentity ''deadline_exceeded''"
  by (simp_all add: invalidIdentity_def MaxIdentityBytes_def)

lemma controlResult_valid:
  assumes "StatusMetadata_Validate m = None" and "Command_Validate command = None" and "\<not> IsZero completed"
    and "reportable status code"
  shows "CommandResult_Validate (controlResult m completed command status code) = None"
proof -
  have "\<not> invalidIdentity (sm_ID m)" "sm_Protocol m \<noteq> zero_version"
    using assms(1) by (auto simp: StatusMetadata_Validate_def split: if_splits)
  then show ?thesis
    using accepted_target(3,4) [OF assms(2)] assms(3,4)
    by (auto simp: CommandResult_Validate_def controlResult_def reportable_def)
qed

lemma bulk_loop_reportable: "fst (bulk_retry_loop opts t client kind index records s) = (status, code) \<Longrightarrow> reportable status code"
  by (induction opts t client kind index records s rule: bulk_retry_loop.induct)
    (auto simp: reportable_def control_codes split: prod.splits sum.splits if_splits)

text \<open>A result made for the command.\<close>

definition made_for :: "StatusMetadata \<Rightarrow> go_time \<Rightarrow> Command \<Rightarrow> CommandResult \<Rightarrow> bool" where
  "made_for m completed command r \<longleftrightarrow> (\<exists>status code. r = controlResult m completed command status code \<and> reportable status code)"

lemma made_controlResult [simp]:
  "reportable status code \<Longrightarrow> made_for m completed command (controlResult m completed command status code)"
  by (auto simp: made_for_def)

lemma reportable_simps [simp]:
  "reportable CommandAcknowledged code \<longleftrightarrow> code = ''''" "reportable CommandUnknown code \<longleftrightarrow> code = ''''"
  "reportable CommandRejected code \<longleftrightarrow> \<not> invalidIdentity code" "reportable CommandFailed code \<longleftrightarrow> \<not> invalidIdentity code"
  "reportable CommandUnsupported code \<longleftrightarrow> \<not> invalidIdentity code" "reportable CommandTimedOut code \<longleftrightarrow> \<not> invalidIdentity code"
  "reportable CommandPartial code \<longleftrightarrow> \<not> invalidIdentity code"
  by (simp_all add: reportable_def)

lemma made_mutations:
  "made_for m completed command (fst (retryNativeRecord m opts t client completed command s))"
  "made_for m completed command (fst (replayNativeRecord m opts t client completed command replay s))"
  "made_for m completed command (fst (deleteNativeRecord m opts client completed command s))"
  by (simp_all add: retryNativeRecord_def replayNativeRecord_def deleteNativeRecord_def Let_def control_codes case_prod_beta
      split: sum.split nativeRetryOutcome.split nativeReplayOutcome.split)

lemma made_bulk: "made_for m completed command (fst (bulkRetryNativeRecords m opts t client completed command n s))"
proof (cases "nt_ReadRecords t client (recordStream opts (target_Kind (cmd_Target command))) s")
  case (Pair q s1)
  show ?thesis
  proof (cases q)
    case (Inr records)
    obtain status code s2 where run: "bulk_retry_loop opts t client (target_Kind (cmd_Target command)) 0
        (take (min (length records) (unat n)) records) s1 = ((status, code), s2)"
      by (metis prod.exhaust)
    have "reportable status code"
      using bulk_loop_reportable [OF arg_cong [OF run, of fst, unfolded fst_conv]] .
    with run show ?thesis
      by (simp add: Pair Inr bulkRetryNativeRecords_def)
  qed (simp add: Pair bulkRetryNativeRecords_def control_codes)
qed

lemma made_runs:
  "retryNativeRecord m opts t client completed command s = (r, s') \<Longrightarrow> made_for m completed command r"
  "replayNativeRecord m opts t client completed command replay s = (r, s') \<Longrightarrow> made_for m completed command r"
  "deleteNativeRecord m opts client completed command s = (r, s') \<Longrightarrow> made_for m completed command r"
  "bulkRetryNativeRecords m opts t client completed command n s = (r, s') \<Longrightarrow> made_for m completed command r"
  using made_mutations made_bulk by (metis fst_conv)+

lemma executed_made:
  assumes "executeNativeCommand m opts t client now completed command s = Some (r, s')"
  shows "made_for m completed command r"
  using assms
  by (cases "cmd_Action command")
    (auto simp: executeNativeCommand_def Let_def control_codes split: if_splits prod.splits option.splits dest: made_runs)

lemma executed_result:
  assumes "StatusMetadata_Validate m = None" and "Command_Validate command = None" and "\<not> IsZero completed"
    and "executeNativeCommand m opts t client now completed command s = Some (r, s')"
  shows "CommandResult_Validate r = None"
  using executed_made [OF assms(4)] controlResult_valid [OF assms(1-3)] by (auto simp: made_for_def)

lemma executed_mutation:
  assumes "cmd_Action command \<in> {CommandRetry, CommandReplay, CommandDelete}"
    and "executeNativeCommand m opts t client now completed command s = Some (r, s')"
  obtains (refused) "s' = s" and "result_Status r \<in> {CommandUnsupported, CommandTimedOut}"
  | (retry) "cmd_Action command = CommandRetry" and "retryNativeRecord m opts t client completed command s = (r, s')"
  | (replay) replay where "cmd_Action command = CommandReplay" and "cmd_Replay command = Some replay"
      and "replayNativeRecord m opts t client completed command replay s = (r, s')"
  | (delete) "cmd_Action command = CommandDelete" and "deleteNativeRecord m opts client completed command s = (r, s')"
  using assms by (auto simp: executeNativeCommand_def Let_def split: if_splits)



definition sample_stream_worker :: StatusMetadata where
  "sample_stream_worker = \<lparr>sm_ID = ''w1'', sm_Version = ''1'', sm_Concurrency = 1, sm_Protocol = ProtocolVersion 1 0\<rparr>"

definition sample_retry :: Command where
  "sample_retry = sample_command\<lparr>cmd_Action := CommandRetry, cmd_Target := Target TargetDeadLetter ''5-0'',
     cmd_Selection := None\<rparr>"

definition sample_native_transport :: nativeTransport where
  "sample_native_transport = newNativeTransport 10 DefaultMaxMessageBytes"

lemma sample_stream_worker_ok: "StatusMetadata_Validate sample_stream_worker = None"
  by code_simp

lemma sample_retry_ok: "Command_Validate sample_retry = None"
  by code_simp

lemma sample_retry_run:
  "executeNativeCommand sample_stream_worker sample_options sample_native_transport (script_client tiny) (GoTime 6 0) (GoTime 7 0)
     sample_retry tiny_letter =
   Some (controlResult sample_stream_worker (GoTime 7 0) sample_retry CommandAcknowledged '''',
     snd (retryRecordScript tiny (vo_deadLetterStream sample_options) (vo_stream sample_options) (vo_stream sample_options)
       ''5-0'' (vo_group sample_options) RetryDeadLetter 10 tiny_letter))"
proof -
  have "valkey_safe sample_options" using sample_newOptions by (rule valkey_newOptions_safe)
  then have "vo_deadLetterStream sample_options \<noteq> ''''" "vo_stream sample_options \<noteq> ''''" "vo_group sample_options \<noteq> ''''"
    by (auto simp: valkey_safe_def nonblank_def)
  moreover have "fst (retryRecordScript tiny records destination source ''5-0'' grp RetryDeadLetter 10 tiny_letter) = ''ok''"
    for records destination source grp
    by (simp add: retryRecordScript_def tiny_def tiny_letter_def next_lineage_def)
  moreover have "UTC (GoTime 6 0) = GoTime 6 0" "After (GoTime 9 0) (GoTime 6 0)" by code_simp+
  ultimately show ?thesis
    by (simp add: executeNativeCommand_def sample_retry_def sample_command_def sample_stream_worker_def Let_def
        retryNativeRecord_def retry_record_def nt_RetryRecord_def recordStream_def sample_native_transport_def
        newNativeTransport_def retry_outcome_def case_prod_beta map_prod_def)
qed



section \<open>Commands and their idempotency keys\<close>

text \<open>
  C20: with any number of callers in Execute at once, a mutation is applied at most once per
  idempotency key, every caller that comes back with a result of the cache gets the one result of
  that mutation, for the very same command, and the cache itself only ever rejects.
\<close>

theorem valkey_commands_once:
  assumes "reachable_from cc_start (cc_step (valkey_entry m controlCapacity) (valkey_exec m opts t client)) g"
  shows "length (applied_for key g) \<le> 1 \<and>
    (\<forall>i c r. cc_pc g i = CReturned c r \<longrightarrow> applied_for (cmd_IdempotencyKey c) g = [(c, r)]) \<and>
    (\<forall>i c r. cc_pc g i = CRefused c r \<longrightarrow> result_Status r = CommandRejected)"
  using valkey_cache.commands_once [OF assms] valkey_cache.reachable_inv(2) [OF assms] by blast

definition sample_control :: "tiny_server control_sys" where
  "sample_control = \<lparr>cc_entries = [], cc_lock = None, cc_server = tiny_letter, cc_pc = (\<lambda>i. CIdle), cc_applied = []\<rparr>"

definition sample_answer :: CommandResult where
  "sample_answer = controlResult sample_stream_worker (GoTime 7 0) sample_retry CommandAcknowledged ''''"

lemma sample_control_run:
  "\<exists>g. reachable_from cc_start (cc_step (valkey_entry sample_stream_worker 1)
     (valkey_exec sample_stream_worker sample_options sample_native_transport (script_client tiny))) g \<and>
   cc_pc g 0 = CReturned sample_retry sample_answer"
proof -
  let ?step = "cc_step (valkey_entry sample_stream_worker 1)
     (valkey_exec sample_stream_worker sample_options sample_native_transport (script_client tiny))"
  let ?es = "[(''k1'', \<lparr>ce_command = sample_retry, ce_result = None\<rparr>)]"
  let ?s = "snd (retryRecordScript tiny (vo_deadLetterStream sample_options) (vo_stream sample_options)
    (vo_stream sample_options) ''5-0'' (vo_group sample_options) RetryDeadLetter 10 tiny_letter)"
  let ?g1 = "sample_control\<lparr>cc_entries := ?es, cc_pc := (cc_pc sample_control)(0 := CApplying sample_retry)\<rparr>"
  let ?g2 = "?g1\<lparr>cc_lock := Some 0\<rparr>"
  let ?g3 = "?g2\<lparr>cc_lock := None, cc_server := ?s, cc_applied := cc_applied ?g2 @ [(sample_retry, sample_answer)],
    cc_pc := (cc_pc ?g2)(0 := CStoring sample_retry sample_answer)\<rparr>"
  let ?g4 = "?g3\<lparr>cc_entries := finish_entry (cmd_IdempotencyKey sample_retry) sample_answer (cc_entries ?g3),
    cc_pc := (cc_pc ?g3)(0 := CReturned sample_retry sample_answer)\<rparr>"
  have key: "cmd_IdempotencyKey sample_retry = ''k1''"
    by (simp add: sample_retry_def sample_command_def)
  have "valkey_entry sample_stream_worker 1 sample_retry (cc_entries sample_control) (AnswerNew ?es)"
    by (simp add: valkey_entry_def controlEntry_def sample_control_def key)
  then have "?step sample_control ?g1" by (intro cc_new) (simp_all add: sample_control_def)
  moreover have "?step ?g1 ?g2" by (rule cc_acquire) (simp_all add: sample_control_def)
  moreover have "?step ?g2 ?g3"
    using sample_retry_run by (intro cc_apply) (auto simp: valkey_exec_def sample_answer_def sample_control_def)
  moreover have "?step ?g3 ?g4" by (rule cc_store) simp
  moreover have "cc_start sample_control" by (simp add: cc_start_def sample_control_def)
  ultimately have "reachable_from cc_start ?step ?g4"
    by (meson reachable_from.intros)
  then show ?thesis by (intro exI [of _ ?g4]) simp
qed

theorem valkey_commands_once_witness:
  "\<exists>g :: tiny_server control_sys. applied_for ''k1'' g = [(sample_retry, sample_answer)]"
proof -
  obtain g where run: "reachable_from cc_start (cc_step (valkey_entry sample_stream_worker 1)
      (valkey_exec sample_stream_worker sample_options sample_native_transport (script_client tiny))) g"
    and "cc_pc g 0 = CReturned sample_retry sample_answer"
    using sample_control_run by blast
  then have "applied_for (cmd_IdempotencyKey sample_retry) g = [(sample_retry, sample_answer)]"
    using valkey_commands_once [OF run] by blast
  then show ?thesis
    by (auto simp: sample_retry_def sample_command_def)
qed

end
