(* ===== verification/Service_Publish.thy ===== *)
theory Service_Publish
  imports Job Reader Queue_Admission
begin

text \<open>
  Publication and delivery of the service adapter, src/adapters/service/queueservice.go: names,
  error values, callback boundaries, the metadata a message leaves with, Publish with its
  acceptance, the delivery handler and the construction of the adapters. The correlation and
  propagation packages are not part of the repository: what the adapter calls of them are fields of
  \<open>publish_env\<close> and \<open>handler_env\<close>. Contexts \<open>'c\<close>, correlation values \<open>'v\<close> and messages \<open>'q\<close> are opaque.
\<close>

section \<open>Names\<close>

definition MaxNameBytes :: nat where "MaxNameBytes = 128"

text \<open>\<^verbatim>\<open>utf8.ValidString\<close>: shortest encodings, no surrogates, nothing above U+10FFFF.\<close>

abbreviation byte_in :: "nat \<Rightarrow> nat \<Rightarrow> nat \<Rightarrow> bool" where
  "byte_in lo hi b \<equiv> lo \<le> b \<and> b \<le> hi"

fun valid_runes :: "nat list \<Rightarrow> bool" where
  "valid_runes [] \<longleftrightarrow> True"
| "valid_runes (b # bs) \<longleftrightarrow>
     (if b < 128 then valid_runes bs
      else if byte_in 194 223 b
      then (case bs of b1 # rest \<Rightarrow> byte_in 128 191 b1 \<and> valid_runes rest | _ \<Rightarrow> False)
      else if byte_in 224 239 b
      then (case bs of b1 # b2 # rest \<Rightarrow>
              byte_in (if b = 224 then 160 else 128) (if b = 237 then 159 else 191) b1 \<and>
              byte_in 128 191 b2 \<and> valid_runes rest
            | _ \<Rightarrow> False)
      else if byte_in 240 244 b
      then (case bs of b1 # b2 # b3 # rest \<Rightarrow>
              byte_in (if b = 240 then 144 else 128) (if b = 244 then 143 else 191) b1 \<and>
              byte_in 128 191 b2 \<and> byte_in 128 191 b3 \<and> valid_runes rest
            | _ \<Rightarrow> False)
      else False)"

definition ValidString :: "string \<Rightarrow> bool" where
  "ValidString s = valid_runes (map of_char s)"

definition validName :: "string \<Rightarrow> bool" where
  "validName name \<longleftrightarrow> length name \<le> MaxNameBytes \<and> ValidString name \<and> TrimSpace name \<noteq> ''''"

text \<open>\<^verbatim>\<open>nilValue\<close> by reflection, on the same three kinds of values as the status reader's check.\<close>

definition nilValue :: "'r provider_value \<Rightarrow> bool" where
  "nilValue v \<longleftrightarrow> (case v of NilInterface \<Rightarrow> True | TypedNil \<Rightarrow> True | Provider _ \<Rightarrow> False)"

section \<open>Errors\<close>

datatype CallbackOperation =
    CallbackStartup
  | CallbackReadiness
  | CallbackPublish
  | CallbackHandler
  | CallbackRun
  | CallbackShutdown
  | CallbackAdmission

datatype PublishAcceptance = PublishNotAccepted | PublishAccepted | PublishUnknown | OtherAcceptance "8 word"

abbreviation ErrInvalidOptions :: go_err where "ErrInvalidOptions \<equiv> sentinel ''queueservice.ErrInvalidOptions''"
abbreviation ErrUnavailable :: go_err where "ErrUnavailable \<equiv> sentinel ''queueservice.ErrUnavailable''"
abbreviation ErrMissingCorrelation :: go_err where
  "ErrMissingCorrelation \<equiv> sentinel ''queueservice.ErrMissingCorrelation''"
abbreviation ErrCallbackPanic :: go_err where "ErrCallbackPanic \<equiv> sentinel ''queueservice.ErrCallbackPanic''"
abbreviation ErrPublishOutcomeUnknown :: go_err where
  "ErrPublishOutcomeUnknown \<equiv> sentinel ''queueservice.ErrPublishOutcomeUnknown''"
abbreviation ErrInvalidPublishAcceptance :: go_err where
  "ErrInvalidPublishAcceptance \<equiv> sentinel ''queueservice.ErrInvalidPublishAcceptance''"
abbreviation ErrWorkerExited :: go_err where "ErrWorkerExited \<equiv> sentinel ''queueservice.ErrWorkerExited''"

text \<open>
  The error types of the package; \<open>PlainError\<close> is an error of another package or a sentinel,
  \<open>JoinedError\<close> what \<^verbatim>\<open>errors.Join\<close> makes of them.
\<close>

datatype service_error =
    PlainError go_err
  | OptionsError string string
  | CallbackPanicError CallbackOperation
  | CallbackError CallbackOperation go_err
  | StartupError service_error "service_error option"
  | PublishError PublishAcceptance service_error
  | JoinedError "service_error list"

fun service_Unwrap :: "service_error \<Rightarrow> service_error list" where
  "service_Unwrap (PlainError err) = []"
| "service_Unwrap (OptionsError _ _) = [PlainError ErrInvalidOptions]"
| "service_Unwrap (CallbackPanicError _) = [PlainError ErrCallbackPanic]"
| "service_Unwrap (CallbackError _ err) = [PlainError err]"
| "service_Unwrap (StartupError validation cleanup) =
     validation # (case cleanup of None \<Rightarrow> [] | Some err \<Rightarrow> [err])"
| "service_Unwrap (PublishError _ err) = [err]"
| "service_Unwrap (JoinedError errs) = errs"

text \<open>\<^verbatim>\<open>errors.Is\<close> against a sentinel of any package.\<close>

fun service_Is :: "service_error \<Rightarrow> string \<Rightarrow> bool" where
  "service_Is (PlainError err) target \<longleftrightarrow> errors_Is err target"
| "service_Is (OptionsError _ _) target \<longleftrightarrow> errors_Is ErrInvalidOptions target"
| "service_Is (CallbackPanicError _) target \<longleftrightarrow> errors_Is ErrCallbackPanic target"
| "service_Is (CallbackError _ err) target \<longleftrightarrow> errors_Is err target"
| "service_Is (StartupError validation cleanup) target \<longleftrightarrow>
     service_Is validation target \<or> (case cleanup of None \<Rightarrow> False | Some err \<Rightarrow> service_Is err target)"
| "service_Is (PublishError _ err) target \<longleftrightarrow> service_Is err target"
| "service_Is (JoinedError errs) target \<longleftrightarrow> (\<exists>err \<in> set errs. service_Is err target)"

definition service_Join :: "service_error option list \<Rightarrow> service_error option" where
  "service_Join errs =
     (let kept = List.map_filter (\<lambda>e. e) errs in if kept = [] then None else Some (JoinedError kept))"

fun callbackOperationName :: "CallbackOperation \<Rightarrow> string" where
  "callbackOperationName CallbackStartup = ''startup''"
| "callbackOperationName CallbackReadiness = ''readiness''"
| "callbackOperationName CallbackPublish = ''publish''"
| "callbackOperationName CallbackHandler = ''handler''"
| "callbackOperationName CallbackRun = ''run''"
| "callbackOperationName CallbackShutdown = ''shutdown''"
| "callbackOperationName CallbackAdmission = ''admission''"

fun publishAcceptanceName :: "PublishAcceptance \<Rightarrow> string" where
  "publishAcceptanceName PublishNotAccepted = ''not-accepted''"
| "publishAcceptanceName PublishAccepted = ''accepted''"
| "publishAcceptanceName PublishUnknown = ''unknown''"
| "publishAcceptanceName (OtherAcceptance _) = ''invalid''"

text \<open>The Error methods of the package's own types; \<open>text_of\<close> is the text of any other error.\<close>

fun service_Error :: "(service_error \<Rightarrow> string) \<Rightarrow> service_error \<Rightarrow> string" where
  "service_Error text_of (OptionsError field reason) =
     field @ '': '' @ reason @ '': invalid queue service options''"
| "service_Error text_of (CallbackPanicError operation) =
     ''queue service '' @ callbackOperationName operation @ '' callback panicked''"
| "service_Error text_of (CallbackError operation _) =
     ''queue service '' @ callbackOperationName operation @ '' callback failed''"
| "service_Error text_of (StartupError _ cleanup) =
     (if cleanup \<noteq> None then ''queue service startup validation and cleanup failed''
      else ''queue service startup validation failed'')"
| "service_Error text_of (PublishError acceptance _) =
     ''queue service publish failed with '' @ publishAcceptanceName acceptance @ '' acceptance''"
| "service_Error text_of err = text_of err"

section \<open>Callback boundaries\<close>

definition invokeCallback :: "CallbackOperation \<Rightarrow> 'w callback \<Rightarrow> 'w \<Rightarrow> service_error option \<times> 'w" where
  "invokeCallback operation callback w =
     (case callback w of
        (Panics _, w) \<Rightarrow> (Some (CallbackPanicError operation), w)
      | (Returns None, w) \<Rightarrow> (None, w)
      | (Returns (Some err), w) \<Rightarrow> (Some (CallbackError operation err), w))"

definition invokePublishCallback ::
  "('w \<Rightarrow> (PublishAcceptance \<times> error) outcome \<times> 'w) \<Rightarrow> 'w \<Rightarrow> (PublishAcceptance \<times> service_error option) \<times> 'w" where
  "invokePublishCallback callback w =
     (case callback w of
        (Panics _, w) \<Rightarrow> ((PublishUnknown, Some (CallbackPanicError CallbackPublish)), w)
      | (Returns (acceptance, None), w) \<Rightarrow> ((acceptance, None), w)
      | (Returns (acceptance, Some err), w) \<Rightarrow> ((acceptance, Some (CallbackError CallbackPublish err)), w))"

fun normalizePublishResult ::
  "PublishAcceptance \<Rightarrow> service_error option \<Rightarrow> PublishAcceptance \<times> service_error option" where
  "normalizePublishResult PublishAccepted err =
     (case err of None \<Rightarrow> (PublishAccepted, None) | Some e \<Rightarrow> (PublishAccepted, Some (PublishError PublishAccepted e)))"
| "normalizePublishResult PublishNotAccepted err =
     (case err of
        Some e \<Rightarrow> (PublishNotAccepted, Some (PublishError PublishNotAccepted e))
      | None \<Rightarrow> (PublishNotAccepted,
          map_option (PublishError PublishNotAccepted) (service_Join [Some (PlainError ErrInvalidPublishAcceptance), err])))"
| "normalizePublishResult PublishUnknown err =
     (PublishUnknown,
      map_option (PublishError PublishUnknown) (service_Join [Some (PlainError ErrPublishOutcomeUnknown), err]))"
| "normalizePublishResult (OtherAcceptance _) err =
     (PublishUnknown,
      map_option (PublishError PublishUnknown)
        (service_Join [Some (PlainError ErrPublishOutcomeUnknown), Some (PlainError ErrInvalidPublishAcceptance), err]))"

section \<open>Metadata\<close>

type_synonym carrier = "(string \<times> string) list"

definition copy_entries :: "carrier \<Rightarrow> carrier" where
  "copy_entries kvs = fold (\<lambda>(k, v) clone. map_put k v clone) kvs []"

definition zero_metadata :: Metadata where
  "zero_metadata = \<lparr>md_OriginalID = '''', md_PayloadSchemaVersion = '''', md_ContentType = '''', md_EnqueuedAt = None,
     md_RetryPolicy = '''', md_HandlerType = '''', md_JobType = '''', md_Tags = None, md_TraceID = '''', md_TenantID = '''',
     md_ProducerVersion = '''', md_Correlation = None, md_TraceContext = None\<rparr>"

definition zero_option :: AllowOption where
  "zero_option = \<lparr>allow_RetryCount = None, allow_RetryDelay = None, allow_RetryFactor = None, allow_RetryMin = None,
     allow_RetryMax = None, allow_Jitter = None, allow_Timeout = None, allow_Metadata = None\<rparr>"

definition correlationCarrier :: "AllowOption list \<Rightarrow> carrier" where
  "correlationCarrier options =
     (case options of [] \<Rightarrow> []
      | first # _ \<Rightarrow> (case allow_Metadata first of None \<Rightarrow> [] | Some md \<Rightarrow> copy_entries (map_entries (md_Correlation md))))"

definition service_cloneMetadata :: "Metadata option \<Rightarrow> Metadata option" where
  "service_cloneMetadata metadata =
     map_option (\<lambda>m. m\<lparr>md_Tags := copy_map (md_Tags m), md_TraceContext := copy_map (md_TraceContext m)\<rparr>) metadata"

definition withTransportMetadata :: "AllowOption list \<Rightarrow> carrier \<Rightarrow> carrier \<Rightarrow> AllowOption list" where
  "withTransportMetadata options correlation trace =
     (let copied = (if options = [] then [zero_option] else options);
          metadata = (case service_cloneMetadata (allow_Metadata (hd copied)) of None \<Rightarrow> zero_metadata | Some m \<Rightarrow> m);
          metadata = metadata\<lparr>md_Correlation := Some (copy_entries correlation),
                              md_TraceContext := (if trace = [] then None else Some (copy_entries trace))\<rparr>
      in (hd copied)\<lparr>allow_Metadata := Some metadata\<rparr> # tl copied)"

definition removeEmptyFields :: "carrier \<Rightarrow> carrier" where
  "removeEmptyFields kvs = filter (\<lambda>(key, v). TrimSpace v \<noteq> '''') kvs"


section \<open>Producers\<close>

record ('a, 'f, 'p, 'c, 'v, 'w) publish_env =
  pe_New :: "'f \<Rightarrow> go_err + 'a"
  pe_Cause :: "'c \<Rightarrow> error"
  pe_FromContext :: "'c \<Rightarrow> 'v option"
  pe_WithValues :: "'c \<Rightarrow> 'v \<Rightarrow> 'c"
  pe_Send :: "'a \<Rightarrow> carrier \<Rightarrow> 'v \<Rightarrow> 'w \<Rightarrow> ((go_err + 'v) \<times> carrier) \<times> 'w"
  pe_Inject :: "'p \<Rightarrow> 'c \<Rightarrow> carrier \<Rightarrow> 'w \<Rightarrow> carrier outcome \<times> 'w"

type_synonym ('c, 'r, 'w) resource_callback = "'c \<Rightarrow> 'r \<Rightarrow> 'w callback"
type_synonym ('c, 'r, 'q, 'w) publish_callback = "'c \<Rightarrow> 'r \<Rightarrow> 'q \<Rightarrow> AllowOption list \<Rightarrow> 'w callback"
type_synonym ('c, 'r, 'q, 'w) acceptance_callback =
  "'c \<Rightarrow> 'r \<Rightarrow> 'q \<Rightarrow> AllowOption list \<Rightarrow> 'w \<Rightarrow> (PublishAcceptance \<times> error) outcome \<times> 'w"

text \<open>\<open>po_Correlation\<close> is the factory with its options.\<close>

record ('r, 'f, 'p, 'c, 'q, 'w) ProducerOptions =
  po_Name :: string
  po_Resource :: "'r provider_value"
  po_Correlation :: "'f option"
  po_TracePropagator :: "'p provider_value"
  po_Startup :: "('c, 'r, 'w) resource_callback option"
  po_Readiness :: "('c, 'r, 'w) resource_callback option"
  po_Publish :: "('c, 'r, 'q, 'w) publish_callback option"
  po_PublishWithAcceptance :: "('c, 'r, 'q, 'w) acceptance_callback option"
  po_Shutdown :: "('c, 'r, 'w) resource_callback option"

text \<open>What of a producer never changes; its admission state is in the lifecycle theory.\<close>

record ('r, 'a, 'p, 'c, 'q, 'w) Producer =
  pd_name :: string
  pd_resource :: 'r
  pd_propagation :: 'a
  pd_trace :: "'p option"
  pd_startup :: "('c, 'r, 'w) resource_callback option"
  pd_readiness :: "('c, 'r, 'w) resource_callback option"
  pd_publish :: "('c, 'r, 'q, 'w) publish_callback option"
  pd_publishWithAcceptance :: "('c, 'r, 'q, 'w) acceptance_callback option"
  pd_shutdown :: "('c, 'r, 'w) resource_callback option"

fun value_of :: "'r provider_value \<Rightarrow> 'r option" where
  "value_of (Provider r) = Some r"
| "value_of _ = None"

abbreviation options_error :: "string \<Rightarrow> string \<Rightarrow> service_error + 'b" where
  "options_error field reason \<equiv> Inl (OptionsError field reason)"

definition NewProducer ::
  "('a, 'f, 'p, 'c, 'v, 'w) publish_env \<Rightarrow> ('r, 'f, 'p, 'c, 'q, 'w) ProducerOptions \<Rightarrow>
    service_error + ('r, 'a, 'p, 'c, 'q, 'w) Producer" where
  "NewProducer env options =
     (if \<not> validName (po_Name options)
      then options_error ''Name'' ''must be valid UTF-8 within the configured bound''
      else case value_of (po_Resource options) of
          None \<Rightarrow> options_error ''Resource'' ''must not be nil''
        | Some resource \<Rightarrow>
            (case po_Correlation options of
               None \<Rightarrow> options_error ''Correlation'' ''must not be nil''
             | Some factory \<Rightarrow>
                 if po_TracePropagator options \<noteq> NilInterface \<and> nilValue (po_TracePropagator options)
                 then options_error ''TracePropagator'' ''must not be nil''
                 else if (po_Publish options = None) = (po_PublishWithAcceptance options = None)
                 then options_error ''Publish'' ''requires exactly one publish callback''
                 else (case pe_New env factory of
                         Inl err \<Rightarrow> Inl (PlainError err)
                       | Inr adapter \<Rightarrow>
                           Inr \<lparr>pd_name = po_Name options, pd_resource = resource, pd_propagation = adapter,
                                pd_trace = value_of (po_TracePropagator options), pd_startup = po_Startup options,
                                pd_readiness = po_Readiness options, pd_publish = po_Publish options,
                                pd_publishWithAcceptance = po_PublishWithAcceptance options,
                                pd_shutdown = po_Shutdown options\<rparr>)))"

text \<open>The call of the backend and how a plain publish callback is read as an acceptance.\<close>

definition publish_call ::
  "('r, 'a, 'p, 'c, 'q, 'w) Producer \<Rightarrow> 'c \<Rightarrow> 'q \<Rightarrow> AllowOption list \<Rightarrow> 'w \<Rightarrow>
    (PublishAcceptance \<times> service_error option) \<times> 'w" where
  "publish_call producer publishContext message transportOptions w =
     (case pd_publishWithAcceptance producer of
        Some publish \<Rightarrow> invokePublishCallback (publish publishContext (pd_resource producer) message transportOptions) w
      | None \<Rightarrow>
          let (err, w) = (case pd_publish producer of
                Some publish \<Rightarrow>
                  invokeCallback CallbackPublish (publish publishContext (pd_resource producer) message transportOptions) w
              | None \<Rightarrow> (Some (CallbackPanicError CallbackPublish), w))
          in ((if err = None then PublishAccepted else PublishUnknown, err), w))"

text \<open>
  The body of PublishWithAcceptance between beginUse and finishUse; the zero correlation values are
  None. A nil context is None.
\<close>

definition publish_body ::
  "('a, 'f, 'p, 'c, 'v, 'w) publish_env \<Rightarrow> ('r, 'a, 'p, 'c, 'q, 'w) Producer \<Rightarrow> 'c option \<Rightarrow> 'q \<Rightarrow> AllowOption list \<Rightarrow> 'w \<Rightarrow>
    ('v option \<times> PublishAcceptance \<times> service_error option) \<times> 'w" where
  "publish_body env producer ctx message options w =
     (case ctx of
        None \<Rightarrow> ((None, PublishNotAccepted, Some (OptionsError ''ctx'' ''must not be nil'')), w)
      | Some ctx \<Rightarrow>
          (case pe_Cause env ctx of
             Some cause \<Rightarrow> ((None, PublishNotAccepted, Some (PlainError cause)), w)
           | None \<Rightarrow>
               (case pe_FromContext env ctx of
                  None \<Rightarrow> ((None, PublishNotAccepted, Some (PlainError ErrMissingCorrelation)), w)
                | Some parent \<Rightarrow>
                    let ((sent, carrier), w) = pe_Send env (pd_propagation producer) (correlationCarrier options) parent w
                    in case sent of
                         Inl err \<Rightarrow> ((None, PublishNotAccepted, Some (PlainError err)), w)
                       | Inr vals \<Rightarrow>
                           let (traced, w) = (case pd_trace producer of
                                 None \<Rightarrow> (Returns [], w)
                               | Some trace \<Rightarrow> pe_Inject env trace ctx [] w)
                           in case traced of
                                Panics _ \<Rightarrow>
                                  let (acceptance, err) =
                                    normalizePublishResult PublishNotAccepted (Some (CallbackPanicError CallbackPublish))
                                  in ((Some vals, acceptance, err), w)
                              | Returns traceCarrier \<Rightarrow>
                                  let transportOptions = withTransportMetadata options carrier
                                        (if pd_trace producer = None then traceCarrier else removeEmptyFields traceCarrier)
                                  in case Option.bind (allow_Metadata (hd transportOptions)) Metadata_Validate of
                                       Some err \<Rightarrow> ((Some vals, PublishNotAccepted, Some (PlainError err)), w)
                                     | None \<Rightarrow>
                                         let ((acceptance, err), w) =
                                               publish_call producer (pe_WithValues env ctx vals) message transportOptions w;
                                             (acceptance, err) = normalizePublishResult acceptance err
                                         in ((Some vals, acceptance, err), w))))"

section \<open>Delivery\<close>

record ('a, 'f, 'p, 'c, 'v, 'm, 'w) handler_env =
  he_New :: "'f \<Rightarrow> go_err + 'a"
  he_CorrelationMetadata :: "'m \<Rightarrow> string_map option"
  he_TraceContextMetadata :: "'m \<Rightarrow> string_map option"
  he_Receive :: "'a \<Rightarrow> string_map \<Rightarrow> bool \<Rightarrow> 'w \<Rightarrow> (go_err + 'v) outcome \<times> 'w"
  he_Extract :: "'p \<Rightarrow> 'c \<Rightarrow> string_map \<Rightarrow> 'w \<Rightarrow> 'c outcome \<times> 'w"
  he_WithValues :: "'c \<Rightarrow> 'v \<Rightarrow> 'c"

type_synonym ('c, 'm, 'w) app_handler = "'c \<Rightarrow> 'm \<Rightarrow> 'w callback"

record ('f, 'p, 'c, 'm, 'w) HandlerOptions =
  ho_Correlation :: "'f option"
  ho_TrustedMetadata :: bool
  ho_TracePropagator :: "'p provider_value"
  ho_Handler :: "('c, 'm, 'w) app_handler option"

text \<open>
  The function NewHandler returns. A message without the optional interface carries no metadata,
  which is the nil map.
\<close>

definition delivery_handler ::
  "('a, 'f, 'p, 'c, 'v, 'm, 'w) handler_env \<Rightarrow> ('f, 'p, 'c, 'm, 'w) HandlerOptions \<Rightarrow> 'a \<Rightarrow> ('c, 'm, 'w) app_handler \<Rightarrow>
    'c \<Rightarrow> 'm \<Rightarrow> 'w \<Rightarrow> service_error option \<times> 'w" where
  "delivery_handler env options adapter handler ctx message w =
     (let run = (\<lambda>ctx vals. invokeCallback CallbackHandler (handler (he_WithValues env ctx vals) message));
          metadata = (case he_CorrelationMetadata env message of None \<Rightarrow> None | Some md \<Rightarrow> md)
      in case he_Receive env adapter metadata (ho_TrustedMetadata options) w of
           (Panics _, w) \<Rightarrow> (Some (CallbackPanicError CallbackHandler), w)
         | (Returns (Inl err), w) \<Rightarrow> (Some (PlainError err), w)
         | (Returns (Inr vals), w) \<Rightarrow>
             (case ho_TracePropagator options of
                Provider propagator \<Rightarrow>
                  let traceMetadata = (case he_TraceContextMetadata env message of None \<Rightarrow> None | Some md \<Rightarrow> md)
                  in (case Metadata_Validate (zero_metadata\<lparr>md_TraceContext := traceMetadata\<rparr>) of
                        Some err \<Rightarrow> (Some (PlainError err), w)
                      | None \<Rightarrow>
                          (case he_Extract env propagator ctx traceMetadata w of
                             (Panics _, w) \<Rightarrow> (Some (CallbackPanicError CallbackHandler), w)
                           | (Returns ctx, w) \<Rightarrow> run ctx vals w))
              | _ \<Rightarrow> run ctx vals w))"

definition NewHandler ::
  "('a, 'f, 'p, 'c, 'v, 'm, 'w) handler_env \<Rightarrow> ('f, 'p, 'c, 'm, 'w) HandlerOptions \<Rightarrow>
    service_error + ('c \<Rightarrow> 'm \<Rightarrow> 'w \<Rightarrow> service_error option \<times> 'w)" where
  "NewHandler env options =
     (case ho_Correlation options of
        None \<Rightarrow> options_error ''Correlation'' ''must not be nil''
      | Some factory \<Rightarrow>
          if ho_TracePropagator options \<noteq> NilInterface \<and> nilValue (ho_TracePropagator options)
          then options_error ''TracePropagator'' ''must not be nil''
          else (case ho_Handler options of
                  None \<Rightarrow> options_error ''Handler'' ''must not be nil''
                | Some handler \<Rightarrow>
                    (case he_New env factory of
                       Inl err \<Rightarrow> Inl (PlainError err)
                     | Inr adapter \<Rightarrow> Inr (delivery_handler env options adapter handler))))"

section \<open>Lifecycle workers\<close>

type_synonym ('c, 'm, 'w) service_handler = "'c \<Rightarrow> 'm \<Rightarrow> 'w \<Rightarrow> service_error option \<times> 'w"
type_synonym ('c, 'r, 'm, 'w) run_callback = "'c \<Rightarrow> 'r \<Rightarrow> ('c, 'm, 'w) service_handler \<Rightarrow> 'w callback"

record ('r, 'f, 'p, 'c, 'm, 'w) LifecycleWorkerOptions =
  lo_Name :: string
  lo_Resource :: "'r provider_value"
  lo_Delivery :: "('f, 'p, 'c, 'm, 'w) HandlerOptions"
  lo_Startup :: "('c, 'r, 'w) resource_callback option"
  lo_Readiness :: "('c, 'r, 'w) resource_callback option"
  lo_CloseAdmission :: "('r \<Rightarrow> 'w callback) option"
  lo_Run :: "('c, 'r, 'm, 'w) run_callback option"
  lo_Shutdown :: "('c, 'r, 'w) resource_callback option"

record ('r, 'c, 'm, 'w) LifecycleWorker =
  lw_name :: string
  lw_resource :: 'r
  lw_handler :: "('c, 'm, 'w) service_handler"
  lw_startup :: "('c, 'r, 'w) resource_callback option"
  lw_readiness :: "('c, 'r, 'w) resource_callback option"
  lw_admission :: "('r \<Rightarrow> 'w callback) option"
  lw_run :: "('c, 'r, 'm, 'w) run_callback"
  lw_shutdown :: "('c, 'r, 'w) resource_callback"

text \<open>
  \<open>guarded\<close> is the wrapper around the handler: \<open>begin\<close> and \<open>finish\<close> are beginUse and finishUse
  of the worker on the world.
\<close>

definition guarded ::
  "('w \<Rightarrow> bool \<times> 'w) \<Rightarrow> ('w \<Rightarrow> 'w) \<Rightarrow> ('c, 'm, 'w) service_handler \<Rightarrow> ('c, 'm, 'w) service_handler" where
  "guarded beginUse finishUse handler ctx message w =
     (let (ok, w) = beginUse w
      in if \<not> ok then (Some (PlainError ErrUnavailable), w)
         else let (err, w) = handler ctx message w in (err, finishUse w))"

definition NewLifecycleWorker ::
  "('a, 'f, 'p, 'c, 'v, 'm, 'w) handler_env \<Rightarrow> ('w \<Rightarrow> bool \<times> 'w) \<Rightarrow> ('w \<Rightarrow> 'w) \<Rightarrow>
    ('r, 'f, 'p, 'c, 'm, 'w) LifecycleWorkerOptions \<Rightarrow> service_error + ('r, 'c, 'm, 'w) LifecycleWorker" where
  "NewLifecycleWorker env beginUse finishUse options =
     (if \<not> validName (lo_Name options)
      then options_error ''Name'' ''must be valid UTF-8 within the configured bound''
      else case value_of (lo_Resource options) of
          None \<Rightarrow> options_error ''Resource'' ''must not be nil''
        | Some resource \<Rightarrow>
            (case lo_Run options of
               None \<Rightarrow> options_error ''Run'' ''must not be nil''
             | Some run \<Rightarrow>
                 (case lo_Shutdown options of
                    None \<Rightarrow> options_error ''Shutdown'' ''must not be nil''
                  | Some shutdown \<Rightarrow>
                      (case NewHandler env (lo_Delivery options) of
                         Inl err \<Rightarrow> Inl err
                       | Inr handler \<Rightarrow>
                           Inr \<lparr>lw_name = lo_Name options, lw_resource = resource,
                                lw_handler = guarded beginUse finishUse handler, lw_startup = lo_Startup options,
                                lw_readiness = lo_Readiness options, lw_admission = lo_CloseAdmission options,
                                lw_run = run, lw_shutdown = shutdown\<rparr>))))"

text \<open>
  What runTask returns once beginRun has admitted it; \<open>cause\<close> is the cause of its context when the
  run callback has returned.
\<close>

definition runTask_result ::
  "('r, 'c, 'm, 'w) LifecycleWorker \<Rightarrow> error \<Rightarrow> 'c \<Rightarrow> 'w \<Rightarrow> service_error option \<times> 'w" where
  "runTask_result worker cause ctx w =
     (let (err, w) = invokeCallback CallbackRun (lw_run worker ctx (lw_resource worker) (lw_handler worker)) w
      in (if err = None \<and> cause = None then Some (PlainError ErrWorkerExited) else err, w))"

section \<open>The component of a concrete queue\<close>

text \<open>
  The three callbacks of Worker.Component over the queue's CloseAdmission, Start and
  ReleaseContext.
\<close>

record 'w service_component =
  cp_CloseAdmission :: "'w \<Rightarrow> service_error option \<times> 'w"
  cp_Start :: "'w \<Rightarrow> service_error option \<times> 'w"
  cp_Stop :: "'w \<Rightarrow> service_error option \<times> 'w"

definition Worker_Component :: "'w callback \<Rightarrow> 'w callback \<Rightarrow> 'w callback \<Rightarrow> 'w service_component" where
  "Worker_Component closeAdmission start release =
     \<lparr>cp_CloseAdmission = invokeCallback CallbackAdmission closeAdmission,
      cp_Start = invokeCallback CallbackStartup start,
      cp_Stop = (\<lambda>w. let (err, w) = invokeCallback CallbackShutdown release w
        in (if (case err of None \<Rightarrow> False | Some e \<Rightarrow> service_Is e ''queue.ErrWorkerShutdownPanic'')
            then service_Join [err, Some (CallbackPanicError CallbackShutdown)] else err, w))\<rparr>"

definition NewWorker :: "string \<Rightarrow> 'b option \<Rightarrow> service_error + string \<times> 'b" where
  "NewWorker name queue =
     (if \<not> validName name then options_error ''Name'' ''must be valid UTF-8 within the configured bound''
      else case queue of None \<Rightarrow> options_error ''Queue'' ''must not be nil'' | Some queue \<Rightarrow> Inr (name, queue))"


section \<open>What a publish tells its caller\<close>

lemma service_Join_None [simp]: "service_Join errs = None \<longleftrightarrow> set errs \<subseteq> {None}"
  by (auto simp: service_Join_def map_filter_def Let_def filter_empty_conv)

lemma service_Join_Some [simp]: "\<exists>j. service_Join (Some e # errs) = Some j"
  by (simp add: service_Join_def map_filter_def)

lemma service_Join_Is:
  "service_Join errs = Some e \<Longrightarrow> service_Is e target \<longleftrightarrow> (\<exists>x \<in> set errs. case x of None \<Rightarrow> False | Some y \<Rightarrow> service_Is y target)"
  by (force simp: service_Join_def map_filter_def Let_def split: if_splits option.splits)

text \<open>
  What a normalised result says: an error unless the backend accepted, and for an unknown outcome
  an error that \<^verbatim>\<open>errors.Is\<close> finds the stable sentinel in.
\<close>

definition honest_result :: "PublishAcceptance \<Rightarrow> service_error option \<Rightarrow> bool" where
  "honest_result acceptance err \<longleftrightarrow>
     acceptance \<in> {PublishNotAccepted, PublishAccepted, PublishUnknown} \<and>
     (err = None \<longrightarrow> acceptance = PublishAccepted) \<and>
     (acceptance = PublishUnknown \<longrightarrow> (\<exists>e. err = Some e \<and> service_Is e ''queueservice.ErrPublishOutcomeUnknown''))"

lemma normalized_honest:
  assumes "normalizePublishResult acceptance err = (acceptance', err')"
  shows "honest_result acceptance' err'"
proof -
  have join: "\<exists>j. service_Join (Some (PlainError ErrPublishOutcomeUnknown) # errs) = Some j \<and>
      service_Is j ''queueservice.ErrPublishOutcomeUnknown''" for errs
    by (cases "service_Join (Some (PlainError ErrPublishOutcomeUnknown) # errs)") (auto simp: service_Join_Is)
  show ?thesis
  proof (cases acceptance)
    case PublishUnknown
    then show ?thesis using assms join [of "[err]"] by (auto simp: honest_result_def)
  next
    case (OtherAcceptance x)
    then show ?thesis using assms join [of "[Some (PlainError ErrInvalidPublishAcceptance), err]"] by (auto simp: honest_result_def)
  qed (use assms in \<open>auto simp: honest_result_def split: option.splits\<close>)
qed

abbreviation valid_options :: "AllowOption list \<Rightarrow> bool" where
  "valid_options options \<equiv> Option.bind (allow_Metadata (hd options)) Metadata_Validate = None"

text \<open>
  A count of backend calls: a publish callback of the producer, called with valid metadata, adds
  one, and the correlation and propagation packages leave it alone.
\<close>

definition counts_calls ::
  "('w \<Rightarrow> nat) \<Rightarrow> ('a, 'f, 'p, 'c, 'v, 'w) publish_env \<Rightarrow> ('r, 'a, 'p, 'c, 'q, 'w) Producer \<Rightarrow> bool" where
  "counts_calls calls env producer \<longleftrightarrow>
     (\<forall>publish c q options w. pd_publish producer = Some publish \<and> valid_options options \<longrightarrow>
        calls (snd (publish c (pd_resource producer) q options w)) = Suc (calls w)) \<and>
     (\<forall>publish c q options w. pd_publishWithAcceptance producer = Some publish \<and> valid_options options \<longrightarrow>
        calls (snd (publish c (pd_resource producer) q options w)) = Suc (calls w)) \<and>
     (\<forall>a carrier v w. calls (snd (pe_Send env a carrier v w)) = calls w) \<and>
     (\<forall>p c carrier w. calls (snd (pe_Inject env p c carrier w)) = calls w)"

lemma publish_call_counts:
  assumes "counts_calls calls env producer" and "pd_publish producer \<noteq> None \<or> pd_publishWithAcceptance producer \<noteq> None"
    and "valid_options options"
  shows "calls (snd (publish_call producer c q options w)) = Suc (calls w)"
proof (cases "pd_publishWithAcceptance producer")
  case (Some publish)
  then have "calls (snd (publish c (pd_resource producer) q options w)) = Suc (calls w)"
    using assms by (auto simp: counts_calls_def)
  with Some show ?thesis
    by (auto simp: publish_call_def invokePublishCallback_def split: prod.splits outcome.splits option.splits)
next
  case None
  then obtain publish where publish: "pd_publish producer = Some publish" using assms(2) by blast
  then have "calls (snd (publish c (pd_resource producer) q options w)) = Suc (calls w)"
    using assms by (auto simp: counts_calls_def)
  with None publish show ?thesis
    by (auto simp: publish_call_def invokeCallback_def split: prod.splits outcome.splits option.splits)
qed


text \<open>Every call of the backend panics.\<close>

definition backend_panics :: "('r, 'a, 'p, 'c, 'q, 'w) Producer \<Rightarrow> bool" where
  "backend_panics producer \<longleftrightarrow>
     (\<forall>publish c q options w. pd_publish producer = Some publish \<longrightarrow>
        (\<exists>reason w'. publish c (pd_resource producer) q options w = (Panics reason, w'))) \<and>
     (\<forall>publish c q options w. pd_publishWithAcceptance producer = Some publish \<longrightarrow>
        (\<exists>reason w'. publish c (pd_resource producer) q options w = (Panics reason, w')))"

lemma panics_unknown:
  assumes "backend_panics producer" and "publish_call producer c q options w = ((a, e), w')"
  shows "a = PublishUnknown"
proof (cases "pd_publishWithAcceptance producer")
  case (Some publish)
  then obtain reason w1 where "publish c (pd_resource producer) q options w = (Panics reason, w1)"
    using assms(1) unfolding backend_panics_def by blast
  then show ?thesis using assms(2) Some by (simp add: publish_call_def invokePublishCallback_def)
next
  case None
  show ?thesis
  proof (cases "pd_publish producer")
    case (Some publish)
    then obtain reason w1 where "publish c (pd_resource producer) q options w = (Panics reason, w1)"
      using assms(1) unfolding backend_panics_def by blast
    then show ?thesis using assms(2) None Some by (simp add: publish_call_def invokeCallback_def)
  qed (use assms(2) None in \<open>simp add: publish_call_def\<close>)
qed

lemma publish_body_cases:
  assumes quiet: "\<And>a carrier v w. calls (snd (pe_Send env a carrier v w)) = calls w"
      "\<And>p c carrier w. calls (snd (pe_Inject env p c carrier w)) = calls w"
    and run: "publish_body env producer ctx message opts w = ((vals, acceptance, err), w')"
  obtains (refused) e where "acceptance = PublishNotAccepted" and "err = Some e" and "calls w' = calls w"
  | (called) c options w1 a e where "valid_options options" and "calls w1 = calls w"
      and "publish_call producer c message options w1 = ((a, e), w')"
      and "normalizePublishResult a e = (acceptance, err)"
proof -
  have sent: "calls w2 = calls w1" if "pe_Send env a carrier v w1 = (x, w2)" for a carrier v w1 x w2
    using quiet(1) [of a carrier v w1] that by simp
  have injected: "calls w2 = calls w1" if "pe_Inject env p c carrier w1 = (x, w2)" for p c carrier w1 x w2
    using quiet(2) [of p c carrier w1] that by simp
  show thesis
    using run unfolding publish_body_def
    by (auto simp: Let_def split: option.splits prod.splits sum.splits outcome.splits
        dest!: sent injected intro: refused called)
qed



definition sample_env :: "(unit, unit, unit, unit, unit, nat) publish_env" where
  "sample_env = \<lparr>pe_New = (\<lambda>f. Inr ()), pe_Cause = (\<lambda>c. None), pe_FromContext = (\<lambda>c. Some ()),
     pe_WithValues = (\<lambda>c v. c), pe_Send = (\<lambda>a carrier v w. ((Inr (), (''traceparent'', ''00'') # carrier), w)),
     pe_Inject = (\<lambda>p c carrier w. (Returns carrier, w))\<rparr>"

definition sample_producer_options :: "(unit, unit, unit, unit, unit, nat) ProducerOptions" where
  "sample_producer_options = \<lparr>po_Name = ''jobs'', po_Resource = Provider (), po_Correlation = Some (),
     po_TracePropagator = NilInterface, po_Startup = None, po_Readiness = None,
     po_Publish = Some (\<lambda>c r q options w. (Panics ''connection lost'', Suc w)), po_PublishWithAcceptance = None,
     po_Shutdown = None\<rparr>"

definition sample_producer :: "(unit, unit, unit, unit, unit, nat) Producer" where
  "sample_producer = \<lparr>pd_name = ''jobs'', pd_resource = (), pd_propagation = (), pd_trace = None, pd_startup = None,
     pd_readiness = None, pd_publish = po_Publish sample_producer_options, pd_publishWithAcceptance = None,
     pd_shutdown = None\<rparr>"

lemma sample_NewProducer: "NewProducer sample_env sample_producer_options = Inr sample_producer"
proof -
  have "validName ''jobs''" by code_simp
  then show ?thesis
    by (simp add: NewProducer_def sample_env_def sample_producer_options_def sample_producer_def)
qed


end
