(* ===== verification/Service_Lifecycle.thy ===== *)
theory Service_Lifecycle
  imports Service_Publish Go_Threads
begin

text \<open>
  The lifecycle of the service adapter, src/adapters/service/queueservice.go. A producer and a
  lifecycle worker keep the same admission state under their mutex: whether they are active or
  stopping, how many uses are in flight, the channel a stop waits on, a startup attempt and the one
  shutdown attempt. \<open>gate\<close> is that state; its operations are the critical sections of both types,
  and \<open>sv_step\<close> interleaves the calls of any number of goroutines at that granularity. Channels
  that are only ever closed live in \<open>gt_channels\<close>, by position; closing one twice, which panics in
  Go, is the value None.
\<close>

section \<open>The admission state\<close>

datatype shutdownAttempt = ShutdownRunning | ShutdownDone "service_error option"

record gate =
  gt_active :: bool
  gt_stopping :: bool
  gt_inflight :: int
  gt_drained :: "nat option"
  gt_startupAttempt :: "nat option"
  gt_shutdownAttempt :: "shutdownAttempt option"
  gt_runStarted :: bool
  gt_channels :: "bool list"

definition new_gate :: gate where
  "new_gate = \<lparr>gt_active = False, gt_stopping = False, gt_inflight = 0, gt_drained = None, gt_startupAttempt = None,
     gt_shutdownAttempt = None, gt_runStarted = False, gt_channels = []\<rparr>"

definition close_channel :: "nat \<Rightarrow> gate \<Rightarrow> gate option" where
  "close_channel ch g = (if gt_channels g ! ch then None else Some (g\<lparr>gt_channels := (gt_channels g)[ch := True]\<rparr>))"

definition make_channel :: "gate \<Rightarrow> nat \<times> gate" where
  "make_channel g = (length (gt_channels g), g\<lparr>gt_channels := gt_channels g @ [False]\<rparr>)"

definition service_beginUse :: "gate \<Rightarrow> bool \<times> gate" where
  "service_beginUse g =
     (if \<not> gt_active g \<or> gt_stopping g then (False, g) else (True, g\<lparr>gt_inflight := gt_inflight g + 1\<rparr>))"

definition service_finishUse :: "gate \<Rightarrow> gate option" where
  "service_finishUse g =
     (let g = g\<lparr>gt_inflight := gt_inflight g - 1\<rparr>
      in if gt_stopping g \<and> gt_inflight g = 0
         then (case gt_drained g of
                 None \<Rightarrow> Some g
               | Some d \<Rightarrow> map_option (\<lambda>g. g\<lparr>gt_drained := None\<rparr>) (close_channel d g))
         else Some g)"

definition service_closeAdmission :: "gate \<Rightarrow> gate" where
  "service_closeAdmission g = g\<lparr>gt_active := False, gt_stopping := True\<rparr>"

definition beginRun :: "gate \<Rightarrow> bool \<times> gate" where
  "beginRun g =
     (if \<not> gt_active g \<or> gt_stopping g \<or> gt_runStarted g then (False, g)
      else (True, g\<lparr>gt_runStarted := True, gt_inflight := gt_inflight g + 1\<rparr>))"

text \<open>
  The first critical section of start: it returns with an error or without, or goes on, with the
  channel of a new attempt where there is a startup callback.
\<close>

datatype start_entry = StartReturns "service_error option" | StartRuns "nat option"

definition start_enter :: "bool \<Rightarrow> gate \<Rightarrow> start_entry \<times> gate" where
  "start_enter hasStartup g =
     (if gt_stopping g then (StartReturns (Some (PlainError ErrUnavailable)), g)
      else if gt_active g then (StartReturns None, g)
      else if gt_startupAttempt g \<noteq> None then (StartReturns (Some (PlainError ErrUnavailable)), g)
      else if hasStartup
      then let (attempt, g) = make_channel g in (StartRuns (Some attempt), g\<lparr>gt_startupAttempt := Some attempt\<rparr>)
      else (StartRuns None, g))"

text \<open>The section behind a failed startup; \<open>stops\<close>: whether the failure stops the adapter.\<close>

definition start_fail :: "bool \<Rightarrow> nat \<Rightarrow> gate \<Rightarrow> gate option" where
  "start_fail stops attempt g =
     close_channel attempt (g\<lparr>gt_startupAttempt := None, gt_stopping := gt_stopping g \<or> stops\<rparr>)"

definition start_finish :: "nat option \<Rightarrow> gate \<Rightarrow> (service_error option \<times> gate) option" where
  "start_finish attempt g =
     map_option (\<lambda>g. if gt_stopping g then (Some (PlainError ErrUnavailable), g) else (None, g\<lparr>gt_active := True\<rparr>))
       (case attempt of None \<Rightarrow> Some g | Some ch \<Rightarrow> close_channel ch (g\<lparr>gt_startupAttempt := None\<rparr>))"

text \<open>The section of stop behind closeAdmission: the startup attempt and the drained channel it waits for.\<close>

definition stop_enter :: "gate \<Rightarrow> (nat option \<times> nat) \<times> gate" where
  "stop_enter g =
     (case gt_drained g of
        Some d \<Rightarrow> ((gt_startupAttempt g, d), g)
      | None \<Rightarrow>
          let startup = gt_startupAttempt g;
              (d, g) = make_channel g;
              g = g\<lparr>gt_drained := Some d\<rparr>
          in ((startup, d), if gt_inflight g = 0 then g\<lparr>gt_channels := (gt_channels g)[d := True]\<rparr> else g))"

text \<open>shutdownResource: whether this call runs the callback, and what it does when it has run.\<close>

definition shutdown_enter :: "gate \<Rightarrow> bool \<times> gate" where
  "shutdown_enter g =
     (if gt_shutdownAttempt g \<noteq> None then (False, g) else (True, g\<lparr>gt_shutdownAttempt := Some ShutdownRunning\<rparr>))"

definition shutdown_finish :: "service_error option \<Rightarrow> gate \<Rightarrow> gate" where
  "shutdown_finish err g = g\<lparr>gt_shutdownAttempt := Some (ShutdownDone err)\<rparr>"

section \<open>Concurrent calls\<close>

text \<open>
  Which callbacks an adapter was built with. A lifecycle worker has a shutdown callback, an admission
  callback behind a \<^verbatim>\<open>sync.Once\<close> and a supervised run; a producer may lack its shutdown callback.
\<close>

record gate_config =
  gc_startup :: bool
  gc_shutdown :: bool
  gc_worker :: bool

definition producer_config :: "('r, 'a, 'p, 'c, 'q, 'w) Producer \<Rightarrow> gate_config" where
  "producer_config producer =
     \<lparr>gc_startup = pd_startup producer \<noteq> None, gc_shutdown = pd_shutdown producer \<noteq> None, gc_worker = False\<rparr>"

definition worker_config :: "bool \<Rightarrow> gate_config" where
  "worker_config hasStartup = \<lparr>gc_startup = hasStartup, gc_shutdown = True, gc_worker = True\<rparr>"

text \<open>
  Where a goroutine is: in a use (a publish, a readiness check, a delivery), in the supervised run
  or its deferred function, in the startup callback, behind the section of closeAdmission (\<open>True\<close>
  for a stop), in the admission callback, waiting in stop, and in shutdownResource. \<open>sv_admissions\<close> and
  \<open>sv_shutdowns\<close> count the calls of the two callbacks.
\<close>

datatype gate_pc =
    GIdle
  | GUsing
  | GRunning
  | GRunEnded
  | GStarting "nat option"
  | GClosing bool
  | GAdmitting bool
  | GStopping
  | GWaitStartup nat nat
  | GWaitDrained nat
  | GShutdown
  | GShutting
  | GWaitShutdown
  | GReturned "service_error option"

datatype once_state = OnceNew | OnceRunning | OnceDone "service_error option"

record service_sys =
  sv_gate :: gate
  sv_pc :: "nat \<Rightarrow> gate_pc"
  sv_once :: once_state
  sv_admissions :: nat
  sv_shutdowns :: nat

abbreviation moves :: "nat \<Rightarrow> gate_pc \<Rightarrow> gate \<Rightarrow> service_sys \<Rightarrow> service_sys" where
  "moves i p g s \<equiv> s\<lparr>sv_gate := g, sv_pc := (sv_pc s)(i := p)\<rparr>"

text \<open>\<open>sv_cancel\<close> are the arms of the selects that a context ends.\<close>

inductive sv_step :: "gate_config \<Rightarrow> service_sys \<Rightarrow> service_sys \<Rightarrow> bool"
  for cfg where
  sv_use: "sv_pc s i = GIdle \<Longrightarrow> service_beginUse (sv_gate s) = (True, g) \<Longrightarrow> sv_step cfg s (moves i GUsing g s)"
| sv_used: "sv_pc s i = GUsing \<Longrightarrow> service_finishUse (sv_gate s) = Some g \<Longrightarrow> sv_step cfg s (moves i GIdle g s)"
| sv_run: "gc_worker cfg \<Longrightarrow> sv_pc s i = GIdle \<Longrightarrow> beginRun (sv_gate s) = (True, g) \<Longrightarrow> sv_step cfg s (moves i GRunning g s)"
| sv_ran: "sv_pc s i = GRunning \<Longrightarrow> sv_step cfg s (moves i GRunEnded (service_closeAdmission (sv_gate s)) s)"
| sv_run_exit: "sv_pc s i = GRunEnded \<Longrightarrow> service_finishUse (sv_gate s) = Some g \<Longrightarrow> sv_step cfg s (moves i GIdle g s)"
| sv_start: "sv_pc s i = GIdle \<Longrightarrow> start_enter (gc_startup cfg) (sv_gate s) = (StartRuns attempt, g) \<Longrightarrow>
    sv_step cfg s (moves i (GStarting attempt) g s)"
| sv_start_fails: "sv_pc s i = GStarting (Some attempt) \<Longrightarrow> start_fail (gc_shutdown cfg) attempt (sv_gate s) = Some g \<Longrightarrow>
    sv_step cfg s (moves i (if gc_shutdown cfg then GShutdown else GIdle) g s)"
| sv_started: "sv_pc s i = GStarting attempt \<Longrightarrow> start_finish attempt (sv_gate s) = Some (err, g) \<Longrightarrow>
    sv_step cfg s (moves i GIdle g s)"
| sv_close: "sv_pc s i = GIdle \<Longrightarrow> sv_step cfg s (moves i (GClosing stops) (service_closeAdmission (sv_gate s)) s)"
| sv_closed: "sv_pc s i = GClosing stops \<Longrightarrow> (gc_worker cfg \<Longrightarrow> \<exists>err. sv_once s = OnceDone err) \<Longrightarrow>
    sv_step cfg s (moves i (if stops then GStopping else GIdle) (sv_gate s) s)"
| sv_admission: "gc_worker cfg \<Longrightarrow> sv_pc s i = GClosing stops \<Longrightarrow> sv_once s = OnceNew \<Longrightarrow>
    sv_step cfg s ((moves i (GAdmitting stops) (sv_gate s) s)\<lparr>sv_once := OnceRunning, sv_admissions := sv_admissions s + 1\<rparr>)"
| sv_admitted: "sv_pc s i = GAdmitting stops \<Longrightarrow>
    sv_step cfg s ((moves i (if stops then GStopping else GIdle) (sv_gate s) s)\<lparr>sv_once := OnceDone err\<rparr>)"
| sv_stop: "sv_pc s i = GStopping \<Longrightarrow> stop_enter (sv_gate s) = ((startup, d), g) \<Longrightarrow>
    sv_step cfg s (moves i (case startup of None \<Rightarrow> GWaitDrained d | Some a \<Rightarrow> GWaitStartup a d) g s)"
| sv_startup_done: "sv_pc s i = GWaitStartup a d \<Longrightarrow> gt_channels (sv_gate s) ! a \<Longrightarrow>
    sv_step cfg s (moves i (GWaitDrained d) (sv_gate s) s)"
| sv_drained: "sv_pc s i = GWaitDrained d \<Longrightarrow> gt_channels (sv_gate s) ! d \<Longrightarrow>
    sv_step cfg s (moves i (if gc_shutdown cfg then GShutdown else GIdle) (sv_gate s) s)"
| sv_shutdown: "sv_pc s i = GShutdown \<Longrightarrow> shutdown_enter (sv_gate s) = (True, g) \<Longrightarrow>
    sv_step cfg s ((moves i GShutting g s)\<lparr>sv_shutdowns := sv_shutdowns s + 1\<rparr>)"
| sv_shutdown_join: "sv_pc s i = GShutdown \<Longrightarrow> shutdown_enter (sv_gate s) = (False, g) \<Longrightarrow>
    sv_step cfg s (moves i GWaitShutdown g s)"
| sv_shut: "sv_pc s i = GShutting \<Longrightarrow> sv_step cfg s (moves i (GReturned err) (shutdown_finish err (sv_gate s)) s)"
| sv_joined: "sv_pc s i = GWaitShutdown \<Longrightarrow> gt_shutdownAttempt (sv_gate s) = Some (ShutdownDone err) \<Longrightarrow>
    sv_step cfg s (moves i (GReturned err) (sv_gate s) s)"
| sv_return: "sv_pc s i = GReturned err \<Longrightarrow> sv_step cfg s (moves i GIdle (sv_gate s) s)"
| sv_cancel: "sv_pc s i \<in> {GWaitStartup a d, GWaitDrained d, GWaitShutdown} \<Longrightarrow> sv_step cfg s (moves i GIdle (sv_gate s) s)"

definition sv_start_state :: "service_sys \<Rightarrow> bool" where
  "sv_start_state s \<longleftrightarrow> sv_gate s = new_gate \<and> (\<forall>i. sv_pc s i = GIdle) \<and> sv_once s = OnceNew \<and>
     sv_admissions s = 0 \<and> sv_shutdowns s = 0"


section \<open>The invariant\<close>

text \<open>Stopping, with no use and no startup left: nothing of this ever changes again.\<close>

definition quiet :: "gate \<Rightarrow> bool" where
  "quiet g \<longleftrightarrow> gt_stopping g \<and> gt_inflight g = 0 \<and> gt_startupAttempt g = None"

definition gate_ok :: "gate \<Rightarrow> bool" where
  "gate_ok g \<longleftrightarrow>
     (gt_active g \<longrightarrow> \<not> gt_stopping g \<and> gt_startupAttempt g = None) \<and>
     0 \<le> gt_inflight g \<and> (gt_inflight g > 0 \<longrightarrow> gt_active g \<or> gt_stopping g) \<and>
     (\<forall>a. gt_startupAttempt g = Some a \<longrightarrow>
        a < length (gt_channels g) \<and> \<not> gt_channels g ! a \<and> gt_inflight g = 0 \<and> gt_drained g \<noteq> Some a) \<and>
     (\<forall>d. gt_drained g = Some d \<longrightarrow>
        d < length (gt_channels g) \<and> gt_stopping g \<and> (gt_channels g ! d \<longleftrightarrow> gt_inflight g = 0)) \<and>
     (gt_shutdownAttempt g \<noteq> None \<longrightarrow> quiet g)"

definition drain_ok :: "gate \<Rightarrow> nat \<Rightarrow> bool" where
  "drain_ok g d \<longleftrightarrow> d < length (gt_channels g) \<and> (gt_drained g = Some d \<or> gt_channels g ! d) \<and>
     (gt_channels g ! d \<longrightarrow> gt_inflight g = 0)"

fun gpc_ok :: "gate \<Rightarrow> gate_pc \<Rightarrow> bool" where
  "gpc_ok g (GStarting (Some a)) \<longleftrightarrow> gt_startupAttempt g = Some a"
| "gpc_ok g GRunEnded \<longleftrightarrow> gt_stopping g"
| "gpc_ok g (GClosing _) \<longleftrightarrow> gt_stopping g"
| "gpc_ok g (GAdmitting _) \<longleftrightarrow> gt_stopping g"
| "gpc_ok g GStopping \<longleftrightarrow> gt_stopping g"
| "gpc_ok g (GWaitStartup a d) \<longleftrightarrow> gt_stopping g \<and> a < length (gt_channels g) \<and> drain_ok g d \<and>
     (gt_startupAttempt g = Some a \<or> gt_startupAttempt g = None \<and> gt_channels g ! a)"
| "gpc_ok g (GWaitDrained d) \<longleftrightarrow> gt_stopping g \<and> gt_startupAttempt g = None \<and> drain_ok g d"
| "gpc_ok g GShutdown \<longleftrightarrow> quiet g"
| "gpc_ok g GShutting \<longleftrightarrow> gt_shutdownAttempt g = Some ShutdownRunning"
| "gpc_ok g GWaitShutdown \<longleftrightarrow> gt_shutdownAttempt g \<noteq> None"
| "gpc_ok g (GReturned err) \<longleftrightarrow> gt_shutdownAttempt g = Some (ShutdownDone err)"
| "gpc_ok g _ \<longleftrightarrow> True"

fun in_startup :: "gate_pc \<Rightarrow> bool" where
  "in_startup (GStarting (Some _)) \<longleftrightarrow> True"
| "in_startup _ \<longleftrightarrow> False"

lemmas gate_defs = gate_ok_def quiet_def drain_ok_def

text \<open>What an operation of the gate keeps for the goroutines that do not call it.\<close>

definition keeps :: "gate \<Rightarrow> gate \<Rightarrow> (gate_pc \<Rightarrow> bool) \<Rightarrow> bool" where
  "keeps g h except \<longleftrightarrow> gate_ok h \<and> (\<forall>p. gpc_ok g p \<and> \<not> except p \<longrightarrow> gpc_ok h p)"

lemma keepsI:
  assumes "gate_ok h" and "\<And>p. gpc_ok g p \<Longrightarrow> \<not> except p \<Longrightarrow> gpc_ok h p"
  shows "keeps g h except"
  using assms by (simp add: keeps_def)

lemma beginUse_keeps:
  assumes "gate_ok g" and "service_beginUse g = (True, h)"
  shows "keeps g h (\<lambda>p. False)"
proof (rule keepsI)
  have h: "gt_active g" "\<not> gt_stopping g" "gt_startupAttempt g = None" "gt_shutdownAttempt g = None" "gt_drained g = None"
    "h = g\<lparr>gt_inflight := gt_inflight g + 1\<rparr>"
    using assms by (auto simp: service_beginUse_def gate_defs split: if_splits)
  then show "gate_ok h" using assms(1) by (simp add: gate_defs)
  show "gpc_ok h p" if "gpc_ok g p" for p
    using that h by (cases p rule: in_startup.cases; auto simp: gate_defs)
qed

lemma closeAdmission_keeps:
  assumes "gate_ok g"
  shows "keeps g (service_closeAdmission g) (\<lambda>p. False)"
proof (rule keepsI)
  show "gate_ok (service_closeAdmission g)" using assms by (auto simp: gate_defs service_closeAdmission_def)
  show "gpc_ok (service_closeAdmission g) p" if "gpc_ok g p" for p
    using that by (cases "(g, p)" rule: gpc_ok.cases) (auto simp: gate_defs service_closeAdmission_def)
qed

lemma finishUse_keeps:
  assumes "gate_ok g" and "0 < gt_inflight g"
  obtains h where "service_finishUse g = Some h" and "keeps g h (\<lambda>p. False)" and "gt_inflight h = gt_inflight g - 1"
    and "gt_stopping h = gt_stopping g" and "gt_shutdownAttempt h = gt_shutdownAttempt g" and "gt_startupAttempt h = gt_startupAttempt g"
proof -
  define g1 where "g1 = g\<lparr>gt_inflight := gt_inflight g - 1\<rparr>"
  have none: "gt_startupAttempt g = None" "gt_shutdownAttempt g = None"
    using assms by (auto simp: gate_defs)
  show thesis
  proof (cases "\<exists>d. gt_stopping g \<and> gt_inflight g = 1 \<and> gt_drained g = Some d")
    case True
    then obtain d where d: "gt_stopping g" "gt_inflight g = 1" "gt_drained g = Some d" by blast
    then have "\<not> gt_channels g ! d" "d < length (gt_channels g)" using assms by (auto simp: gate_defs)
    then have run: "service_finishUse g = Some (g1\<lparr>gt_channels := (gt_channels g)[d := True], gt_drained := None\<rparr>)" (is "_ = Some ?h")
      using d by (simp add: service_finishUse_def close_channel_def g1_def)
    have "keeps g ?h (\<lambda>p. False)"
    proof (rule keepsI)
      show "gate_ok ?h" using assms(1) d none by (simp add: gate_defs g1_def)
      show "gpc_ok ?h p" if "gpc_ok g p" for p
        using that d none \<open>d < _\<close> by (cases "(g, p)" rule: gpc_ok.cases) (auto simp: gate_defs g1_def nth_list_update)
    qed
    then show thesis using that [OF run] by (simp add: g1_def)
  next
    case False
    then have run: "service_finishUse g = Some g1"
      by (auto simp: service_finishUse_def g1_def Let_def split: option.splits)
    have "keeps g g1 (\<lambda>p. False)"
    proof (rule keepsI)
      show "gate_ok g1" using assms False none by (auto simp: gate_defs g1_def)
      show "gpc_ok g1 p" if "gpc_ok g p" for p
        using that none assms(2) by (cases "(g, p)" rule: gpc_ok.cases) (auto simp: gate_defs g1_def)
    qed
    then show thesis using that [OF run] by (simp add: g1_def)
  qed
qed


lemma beginRun_keeps: "gate_ok g \<Longrightarrow> beginRun g = (True, h) \<Longrightarrow> keeps g h (\<lambda>p. False)"
proof -
  assume ok: "gate_ok g" and "beginRun g = (True, h)"
  then have "service_beginUse g = (True, h\<lparr>gt_runStarted := gt_runStarted g\<rparr>)"
    by (auto simp: beginRun_def service_beginUse_def split: if_splits)
  from beginUse_keeps [OF ok this] show ?thesis
  proof (unfold keeps_def, intro conjI allI impI, goal_cases)
    case 1
    then show ?case by (simp add: gate_defs)
  next
    case (2 p)
    then have "gpc_ok (h\<lparr>gt_runStarted := gt_runStarted g\<rparr>) p" by blast
    then show ?case by (cases "(h, p)" rule: gpc_ok.cases) (auto simp: gate_defs)
  qed
qed

lemma start_enter_keeps:
  assumes "gate_ok g" and "start_enter hasStartup g = (StartRuns attempt, h)"
  shows "keeps g h (\<lambda>p. False)" and "gpc_ok h (GStarting attempt)" and "gt_startupAttempt g = None"
    and "\<not> hasStartup \<Longrightarrow> attempt = None \<and> h = g" and "hasStartup \<Longrightarrow> attempt \<noteq> None"
    and "gt_inflight h = gt_inflight g" and "gt_shutdownAttempt h = gt_shutdownAttempt g"
proof -
  have h: "\<not> gt_stopping g" "\<not> gt_active g" "gt_startupAttempt g = None" "gt_inflight g = 0" "gt_drained g = None"
    "gt_shutdownAttempt g = None"
    "h = (if hasStartup then g\<lparr>gt_channels := gt_channels g @ [False], gt_startupAttempt := Some (length (gt_channels g))\<rparr> else g)"
    "attempt = (if hasStartup then Some (length (gt_channels g)) else None)"
    using assms by (auto simp: start_enter_def make_channel_def gate_defs split: if_splits)
  show "keeps g h (\<lambda>p. False)"
  proof (rule keepsI)
    show "gate_ok h" using assms(1) h by (simp add: gate_defs)
    show "gpc_ok h p" if "gpc_ok g p" for p
      using that h by (cases "(g, p)" rule: gpc_ok.cases) (auto simp: gate_defs)
  qed
  show "gpc_ok h (GStarting attempt)" "gt_startupAttempt g = None" "\<not> hasStartup \<Longrightarrow> attempt = None \<and> h = g"
    "hasStartup \<Longrightarrow> attempt \<noteq> None" "gt_inflight h = gt_inflight g" "gt_shutdownAttempt h = gt_shutdownAttempt g"
    using h by auto
qed

lemma startup_closed_keeps:
  assumes "gate_ok g" and "gt_startupAttempt g = Some a"
    and h: "h = g\<lparr>gt_startupAttempt := None, gt_stopping := gt_stopping g \<or> stops, gt_channels := (gt_channels g)[a := True]\<rparr>"
  shows "keeps g h in_startup" and "stops \<Longrightarrow> quiet h"
proof -
  have a: "a < length (gt_channels g)" "\<not> gt_channels g ! a" "gt_inflight g = 0" "gt_drained g \<noteq> Some a" "gt_shutdownAttempt g = None"
    using assms by (auto simp: gate_defs)
  show "keeps g h in_startup"
  proof (rule keepsI)
    show "gate_ok h" using assms a by (auto simp: gate_defs nth_list_update)
    show "gpc_ok h p" if "gpc_ok g p" "\<not> in_startup p" for p
      using that a assms(2) by (cases "(g, p)" rule: gpc_ok.cases) (auto simp: gate_defs h nth_list_update)
  qed
  show "stops \<Longrightarrow> quiet h" using a by (simp add: gate_defs h)
qed

lemma start_fail_keeps:
  assumes "gate_ok g" and "gt_startupAttempt g = Some a"
  obtains h where "start_fail stops a g = Some h" and "keeps g h in_startup" and "stops \<Longrightarrow> quiet h"
    and "gt_startupAttempt h = None" and "gt_inflight h = gt_inflight g" and "gt_shutdownAttempt h = gt_shutdownAttempt g"
proof -
  have "\<not> gt_channels g ! a" using assms by (simp add: gate_defs)
  then have "start_fail stops a g = Some (g\<lparr>gt_startupAttempt := None, gt_stopping := gt_stopping g \<or> stops, gt_channels := (gt_channels g)[a := True]\<rparr>)"
    by (simp add: start_fail_def close_channel_def)
  from that [OF this startup_closed_keeps [OF assms refl]] show thesis by simp
qed

lemma activate_keeps:
  assumes "gate_ok g" and "\<not> gt_stopping g" and "gt_startupAttempt g = None"
  shows "keeps g (g\<lparr>gt_active := True\<rparr>) (\<lambda>p. False)"
proof (rule keepsI)
  show "gate_ok (g\<lparr>gt_active := True\<rparr>)" using assms by (auto simp: gate_defs)
  show "gpc_ok (g\<lparr>gt_active := True\<rparr>) p" if "gpc_ok g p" for p
    using that by (cases "(g, p)" rule: gpc_ok.cases) (auto simp: gate_defs)
qed

lemma keeps_trans: "keeps g h except \<Longrightarrow> keeps h k (\<lambda>p. False) \<Longrightarrow> keeps g k except"
  by (simp add: keeps_def)

lemma start_finish_keeps:
  assumes "gate_ok g" and "gt_startupAttempt g = attempt"
  obtains err h where "start_finish attempt g = Some (err, h)" and "keeps g h in_startup"
    and "gt_startupAttempt h = None" and "gt_inflight h = gt_inflight g" and "gt_shutdownAttempt h = gt_shutdownAttempt g"
proof (cases attempt)
  case None
  then show thesis
    using that assms activate_keeps [OF assms(1)]
    by (cases "gt_stopping g") (auto simp: start_finish_def keeps_def)
next
  case (Some a)
  let ?k = "g\<lparr>gt_startupAttempt := None, gt_channels := (gt_channels g)[a := True]\<rparr>"
  have k: "?k = g\<lparr>gt_startupAttempt := None, gt_stopping := gt_stopping g \<or> False, gt_channels := (gt_channels g)[a := True]\<rparr>"
    by simp
  have "\<not> gt_channels g ! a" using assms Some by (simp add: gate_defs)
  then have run: "start_finish attempt g =
      Some (if gt_stopping g then (Some (PlainError ErrUnavailable), ?k) else (None, ?k\<lparr>gt_active := True\<rparr>))"
    by (simp add: Some start_finish_def close_channel_def)
  have kept: "keeps g ?k in_startup" using startup_closed_keeps(1) [OF assms(1) _ k] assms(2) Some by simp
  then have "gate_ok ?k" by (simp add: keeps_def)
  then have "\<not> gt_stopping g \<Longrightarrow> keeps g (?k\<lparr>gt_active := True\<rparr>) in_startup"
    using keeps_trans [OF kept activate_keeps [of ?k]] by simp
  then show thesis using that run kept by (cases "gt_stopping g") auto
qed

lemma stop_enter_keeps:
  assumes "gate_ok g" and "gt_stopping g" and "stop_enter g = ((startup, d), h)"
  shows "keeps g h (\<lambda>p. False)" and "gpc_ok h (case startup of None \<Rightarrow> GWaitDrained d | Some a \<Rightarrow> GWaitStartup a d)"
    and "gt_startupAttempt h = gt_startupAttempt g" and "gt_inflight h = gt_inflight g" and "gt_shutdownAttempt h = gt_shutdownAttempt g"
proof -
  have "keeps g h (\<lambda>p. False) \<and> gpc_ok h (case startup of None \<Rightarrow> GWaitDrained d | Some a \<Rightarrow> GWaitStartup a d) \<and>
    gt_startupAttempt h = gt_startupAttempt g \<and> gt_inflight h = gt_inflight g \<and> gt_shutdownAttempt h = gt_shutdownAttempt g"
  proof (cases "gt_drained g")
    case (Some d')
    then show ?thesis
      using assms by (auto simp: stop_enter_def keeps_def gate_defs split: option.splits)
  next
    case None
    then have h: "h = g\<lparr>gt_channels := gt_channels g @ [gt_inflight g = 0], gt_drained := Some (length (gt_channels g))\<rparr>"
      and r: "startup = gt_startupAttempt g" "d = length (gt_channels g)"
      using assms(3) by (auto simp: stop_enter_def make_channel_def Let_def split: if_splits)
    have "gpc_ok h p" if "gpc_ok g p" for p
      using that None assms(1) by (cases "(g, p)" rule: gpc_ok.cases) (auto simp: gate_defs h nth_append)
    moreover have "gate_ok h"
      using assms None by (auto simp: gate_defs h nth_append)
    ultimately show ?thesis
      using assms by (auto simp: keeps_def h r drain_ok_def nth_append gate_ok_def split: option.splits)
  qed
  then show "keeps g h (\<lambda>p. False)" and "gpc_ok h (case startup of None \<Rightarrow> GWaitDrained d | Some a \<Rightarrow> GWaitStartup a d)"
    and "gt_startupAttempt h = gt_startupAttempt g" and "gt_inflight h = gt_inflight g" and "gt_shutdownAttempt h = gt_shutdownAttempt g"
    by blast+
qed


lemma shutdown_enter_keeps:
  assumes "gate_ok g" and "quiet g" and "shutdown_enter g = (True, h)"
  shows "keeps g h (\<lambda>p. False)" and "gt_shutdownAttempt g = None" and "gt_shutdownAttempt h = Some ShutdownRunning"
    and "gt_startupAttempt h = gt_startupAttempt g" and "gt_inflight h = gt_inflight g"
proof -
  have h: "gt_shutdownAttempt g = None" "h = g\<lparr>gt_shutdownAttempt := Some ShutdownRunning\<rparr>"
    using assms(3) by (auto simp: shutdown_enter_def split: if_splits)
  show "keeps g h (\<lambda>p. False)"
  proof (rule keepsI)
    show "gate_ok h" using assms h by (simp add: gate_defs)
    show "gpc_ok h p" if "gpc_ok g p" for p
      using that h by (cases "(g, p)" rule: gpc_ok.cases) (auto simp: gate_defs)
  qed
  show "gt_shutdownAttempt g = None" "gt_shutdownAttempt h = Some ShutdownRunning"
    "gt_startupAttempt h = gt_startupAttempt g" "gt_inflight h = gt_inflight g"
    using h by simp_all
qed

lemma shutdown_finish_keeps:
  assumes "gate_ok g" and "gt_shutdownAttempt g = Some ShutdownRunning"
  shows "keeps g (shutdown_finish err g) (\<lambda>p. p = GShutting)"
proof (rule keepsI)
  show "gate_ok (shutdown_finish err g)" using assms by (auto simp: gate_defs shutdown_finish_def)
  show "gpc_ok (shutdown_finish err g) p" if "gpc_ok g p" "p \<noteq> GShutting" for p
    using that assms(2) by (cases "(g, p)" rule: gpc_ok.cases) (auto simp: gate_defs shutdown_finish_def)
qed

fun uses :: "gate_pc \<Rightarrow> bool" where
  "uses GUsing \<longleftrightarrow> True"
| "uses GRunning \<longleftrightarrow> True"
| "uses GRunEnded \<longleftrightarrow> True"
| "uses _ \<longleftrightarrow> False"

definition core_ok :: "gate \<Rightarrow> (nat \<Rightarrow> gate_pc) \<Rightarrow> bool" where
  "core_ok g pc \<longleftrightarrow> gate_ok g \<and> (\<forall>i. gpc_ok g (pc i)) \<and> finite (at_pc uses pc) \<and> gt_inflight g = int (card (at_pc uses pc))"

definition startup_ok :: "gate_config \<Rightarrow> gate \<Rightarrow> (nat \<Rightarrow> gate_pc) \<Rightarrow> bool" where
  "startup_ok cfg g pc \<longleftrightarrow>
     (\<forall>i j. in_startup (pc i) \<and> in_startup (pc j) \<longrightarrow> i = j) \<and>
     (\<forall>a. gt_startupAttempt g = Some a \<longrightarrow> (\<exists>i. pc i = GStarting (Some a))) \<and>
     (\<forall>i. pc i = GStarting None \<longrightarrow> \<not> gc_startup cfg) \<and> (\<not> gc_startup cfg \<longrightarrow> gt_startupAttempt g = None)"

definition shutdown_ok :: "gate \<Rightarrow> (nat \<Rightarrow> gate_pc) \<Rightarrow> nat \<Rightarrow> bool" where
  "shutdown_ok g pc n \<longleftrightarrow>
     (\<forall>i j. pc i = GShutting \<and> pc j = GShutting \<longrightarrow> i = j) \<and>
     (gt_shutdownAttempt g = Some ShutdownRunning \<longrightarrow> (\<exists>i. pc i = GShutting)) \<and>
     n = of_bool (gt_shutdownAttempt g \<noteq> None)"

definition once_ok :: "service_sys \<Rightarrow> bool" where
  "once_ok s \<longleftrightarrow> sv_admissions s = of_bool (sv_once s \<noteq> OnceNew) \<and> (\<forall>i stops. sv_pc s i = GAdmitting stops \<longrightarrow> sv_once s \<noteq> OnceNew)"

definition sv_inv :: "gate_config \<Rightarrow> service_sys \<Rightarrow> bool" where
  "sv_inv cfg s \<longleftrightarrow> core_ok (sv_gate s) (sv_pc s) \<and> startup_ok cfg (sv_gate s) (sv_pc s) \<and>
     shutdown_ok (sv_gate s) (sv_pc s) (sv_shutdowns s) \<and> once_ok s"

lemma core_move:
  assumes "core_ok g pc" and "keeps g h except" and "\<And>j. j \<noteq> i \<Longrightarrow> \<not> except (pc j)" and "gpc_ok h p"
    and "gt_inflight h = gt_inflight g + of_bool (uses p) - of_bool (uses (pc i))"
  shows "core_ok h (pc(i := p))"
  using assms card_at_move_bool [of uses pc i p] by (auto simp: core_ok_def keeps_def)

lemma startup_move:
  assumes "startup_ok cfg g pc" and "gt_startupAttempt h = gt_startupAttempt g" and "\<not> in_startup p" and "\<not> in_startup (pc i)"
    and "p = GStarting None \<Longrightarrow> \<not> gc_startup cfg"
  shows "startup_ok cfg h (pc(i := p))"
proof -
  have "\<exists>j. (pc(i := p)) j = GStarting (Some a)" if "gt_startupAttempt g = Some a" for a
    using assms(1,4) that unfolding startup_ok_def by (metis fun_upd_other in_startup.simps(1))
  then show ?thesis
    using assms by (auto simp: startup_ok_def)
qed

lemma shutdown_move:
  assumes "shutdown_ok g pc n" and "gt_shutdownAttempt h = gt_shutdownAttempt g" and "p \<noteq> GShutting" and "pc i \<noteq> GShutting"
  shows "shutdown_ok h (pc(i := p)) n"
  using assms unfolding shutdown_ok_def by (metis fun_upd_other fun_upd_same)

text \<open>A step that moves one goroutine outside the startup and shutdown callbacks.\<close>

lemma plain_move:
  assumes "sv_inv cfg s" and "keeps (sv_gate s) h (\<lambda>p. False)" and "gpc_ok h p"
    and "gt_inflight h = gt_inflight (sv_gate s) + of_bool (uses p) - of_bool (uses (sv_pc s i))"
    and "gt_startupAttempt h = gt_startupAttempt (sv_gate s)" and "gt_shutdownAttempt h = gt_shutdownAttempt (sv_gate s)"
    and "\<not> in_startup p" and "\<not> in_startup (sv_pc s i)" and "p \<noteq> GShutting" and "sv_pc s i \<noteq> GShutting"
    and "p = GStarting None \<Longrightarrow> \<not> gc_startup cfg"
    and "sv_gate t = h" and "sv_pc t = (sv_pc s)(i := p)" and "sv_shutdowns t = sv_shutdowns s"
    and "once_ok t"
  shows "sv_inv cfg t"
  using assms(1,12-15) core_move [of "sv_gate s" "sv_pc s" h "\<lambda>p. False" i p] assms(2-4)
    startup_move [of cfg "sv_gate s" "sv_pc s" h p i] assms(5,7,8,11)
    shutdown_move [of "sv_gate s" "sv_pc s" "sv_shutdowns s" h p i] assms(6,9,10)
  unfolding sv_inv_def by simp

lemma once_move:
  assumes "once_ok s" and "sv_pc t = (sv_pc s)(i := p)" and "sv_once t = sv_once s" and "sv_admissions t = sv_admissions s"
    and "\<And>stops. p \<noteq> GAdmitting stops"
  shows "once_ok t"
  using assms unfolding once_ok_def by auto

lemma keeps_refl: "gate_ok g \<Longrightarrow> keeps g g (\<lambda>p. False)"
  by (simp add: keeps_def)

lemma sv_invD:
  assumes "sv_inv cfg s"
  shows "gate_ok (sv_gate s)" and "gpc_ok (sv_gate s) (sv_pc s i)" and "uses (sv_pc s i) \<Longrightarrow> 0 < gt_inflight (sv_gate s)"
    and "in_startup (sv_pc s i) \<Longrightarrow> in_startup (sv_pc s j) \<Longrightarrow> i = j"
    and "sv_pc s i = GStarting None \<Longrightarrow> \<not> gc_startup cfg"
    and "\<not> gc_startup cfg \<Longrightarrow> gt_startupAttempt (sv_gate s) = None"
    and "sv_pc s i = GShutting \<Longrightarrow> sv_pc s j = GShutting \<Longrightarrow> i = j"
    and "once_ok s"
proof -
  show "uses (sv_pc s i) \<Longrightarrow> 0 < gt_inflight (sv_gate s)"
    using assms card_at_zero [of uses "sv_pc s"] by (fastforce simp: sv_inv_def core_ok_def)
  show "in_startup (sv_pc s i) \<Longrightarrow> in_startup (sv_pc s j) \<Longrightarrow> i = j"
    and "sv_pc s i = GShutting \<Longrightarrow> sv_pc s j = GShutting \<Longrightarrow> i = j"
    using assms unfolding sv_inv_def startup_ok_def shutdown_ok_def by blast+
  show "gate_ok (sv_gate s)" "gpc_ok (sv_gate s) (sv_pc s i)"
    "sv_pc s i = GStarting None \<Longrightarrow> \<not> gc_startup cfg" "\<not> gc_startup cfg \<Longrightarrow> gt_startupAttempt (sv_gate s) = None"
    "once_ok s"
    using assms by (auto simp: sv_inv_def core_ok_def startup_ok_def)
qed


text \<open>The three moves that enter or leave the startup callback.\<close>

lemma startup_begins:
  assumes inv: "sv_inv cfg s" and pc: "sv_pc s i = GIdle"
    and run: "start_enter (gc_startup cfg) (sv_gate s) = (StartRuns attempt, g)"
  shows "sv_inv cfg (moves i (GStarting attempt) g s)"
proof -
  note start = start_enter_keeps [OF sv_invD(1) [OF inv] run]
  have none: "\<not> in_startup (sv_pc s j)" for j
    using sv_invD(2) [OF inv, of j] start(3) by (cases "sv_pc s j" rule: in_startup.cases) auto
  have "startup_ok cfg g ((sv_pc s)(i := GStarting attempt))"
  proof (cases "gc_startup cfg")
    case True
    then obtain a where a: "attempt = Some a" using start(5) by blast
    then show ?thesis
      using none start(2) True inv by (auto simp: startup_ok_def sv_inv_def)
  next
    case False
    then show ?thesis
      using start(4) startup_move [of cfg "sv_gate s" "sv_pc s" g "GStarting attempt" i] inv pc by (simp add: sv_inv_def)
  qed
  then show ?thesis
    using once_move [OF sv_invD(8) [OF inv]] inv pc core_move [of "sv_gate s" "sv_pc s" g "\<lambda>p. False" i "GStarting attempt"] start(1,2,6,7)
      shutdown_move [of "sv_gate s" "sv_pc s" "sv_shutdowns s" g "GStarting attempt" i]
    by (simp add: sv_inv_def)
qed

lemma startup_ends:
  assumes inv: "sv_inv cfg s" and pc: "sv_pc s i = GStarting attempt" and attempt: "gt_startupAttempt (sv_gate s) = attempt"
    and g: "keeps (sv_gate s) g in_startup" "gt_startupAttempt g = None" "gt_inflight g = gt_inflight (sv_gate s)"
      "gt_shutdownAttempt g = gt_shutdownAttempt (sv_gate s)"
    and p: "gpc_ok g p" "p \<in> {GIdle, GShutdown}"
  shows "sv_inv cfg (moves i p g s)"
proof -
  have other: "\<not> in_startup (sv_pc s j)" if "j \<noteq> i" for j
  proof
    assume j: "in_startup (sv_pc s j)"
    then obtain a where "gt_startupAttempt (sv_gate s) = Some a"
      using sv_invD(2) [OF inv, of j] by (cases "sv_pc s j" rule: in_startup.cases) auto
    then show False using sv_invD(4) [OF inv j, of i] that pc attempt by simp
  qed
  have "core_ok g ((sv_pc s)(i := p))"
  proof (rule core_move [OF _ g(1) _ p(1)])
    show "core_ok (sv_gate s) (sv_pc s)" using inv by (simp add: sv_inv_def)
    show "gt_inflight g = gt_inflight (sv_gate s) + of_bool (uses p) - of_bool (uses (sv_pc s i))" using g(3) p(2) pc by auto
  qed (rule other)
  moreover have "\<not> in_startup (((sv_pc s)(i := p)) j)" for j
    using other p(2) by (cases "j = i") auto
  then have "startup_ok cfg g ((sv_pc s)(i := p))"
    using sv_invD(5) [OF inv] p(2) g(2) by (auto simp: startup_ok_def)
  ultimately show ?thesis
    using once_move [OF sv_invD(8) [OF inv]] inv shutdown_move [of "sv_gate s" "sv_pc s" "sv_shutdowns s" g p i] pc p(2) g(4) by (auto simp: sv_inv_def)
qed

lemma shutdown_begins:
  assumes inv: "sv_inv cfg s" and pc: "sv_pc s i = GShutdown" and run: "shutdown_enter (sv_gate s) = (True, g)"
  shows "sv_inv cfg ((moves i GShutting g s)\<lparr>sv_shutdowns := sv_shutdowns s + 1\<rparr>)"
proof -
  have "quiet (sv_gate s)" using sv_invD(2) [OF inv, of i] pc by simp
  note sd = shutdown_enter_keeps [OF sv_invD(1) [OF inv] this run]
  have "sv_pc s j \<noteq> GShutting" for j
    using sv_invD(2) [OF inv, of j] sd(2) by auto
  then have "shutdown_ok g ((sv_pc s)(i := GShutting)) (sv_shutdowns s + 1)"
    using inv sd(2,3) by (auto simp: shutdown_ok_def sv_inv_def)
  moreover have "core_ok g ((sv_pc s)(i := GShutting))"
    using core_move [of "sv_gate s" "sv_pc s" g "\<lambda>p. False" i GShutting] sd(1) inv pc sd(3,5) by (simp add: sv_inv_def)
  ultimately show ?thesis
    using once_move [OF sv_invD(8) [OF inv]] inv startup_move [of cfg "sv_gate s" "sv_pc s" g GShutting i] pc sd(4) by (simp add: sv_inv_def)
qed

lemma shutdown_ends:
  assumes inv: "sv_inv cfg s" and pc: "sv_pc s i = GShutting"
  shows "sv_inv cfg (moves i (GReturned err) (shutdown_finish err (sv_gate s)) s)"
proof -
  let ?g = "shutdown_finish err (sv_gate s)"
  have run: "gt_shutdownAttempt (sv_gate s) = Some ShutdownRunning" using sv_invD(2) [OF inv, of i] pc by simp
  have other: "sv_pc s j \<noteq> GShutting" if "j \<noteq> i" for j
    using sv_invD(7) [OF inv pc] that by blast
  then have "shutdown_ok ?g ((sv_pc s)(i := GReturned err)) (sv_shutdowns s)"
    using inv run by (auto simp: shutdown_ok_def sv_inv_def shutdown_finish_def)
  moreover have "core_ok ?g ((sv_pc s)(i := GReturned err))"
    using core_move [of "sv_gate s" "sv_pc s" ?g "\<lambda>p. p = GShutting" i "GReturned err"]
      shutdown_finish_keeps [OF sv_invD(1) [OF inv] run, of err] inv pc other
    by (simp add: sv_inv_def shutdown_finish_def)
  ultimately show ?thesis
    using once_move [OF sv_invD(8) [OF inv]] inv startup_move [of cfg "sv_gate s" "sv_pc s" ?g "GReturned err" i] pc by (simp add: sv_inv_def shutdown_finish_def)
qed


lemma use_ends:
  assumes inv: "sv_inv cfg s" and pc: "uses (sv_pc s i)" and run: "service_finishUse (sv_gate s) = Some g"
  shows "sv_inv cfg (moves i GIdle g s)"
proof -
  obtain h where "service_finishUse (sv_gate s) = Some h" and h: "keeps (sv_gate s) h (\<lambda>p. False)"
      "gt_inflight h = gt_inflight (sv_gate s) - 1" "gt_startupAttempt h = gt_startupAttempt (sv_gate s)"
      "gt_shutdownAttempt h = gt_shutdownAttempt (sv_gate s)"
    using finishUse_keeps [OF sv_invD(1) [OF inv] sv_invD(3) [OF inv pc]] by metis
  then have "h = g" using run by simp
  moreover have "\<not> in_startup (sv_pc s i)" "sv_pc s i \<noteq> GShutting" using pc by (auto elim: uses.elims)
  ultimately show ?thesis
    using plain_move [OF inv, of g GIdle i "moves i GIdle g s"] h pc once_move [OF sv_invD(8) [OF inv]] by simp
qed

lemma startup_fails:
  assumes inv: "sv_inv cfg s" and pc: "sv_pc s i = GStarting (Some attempt)"
    and run: "start_fail (gc_shutdown cfg) attempt (sv_gate s) = Some g"
  shows "sv_inv cfg (moves i (if gc_shutdown cfg then GShutdown else GIdle) g s)"
proof -
  have attempt: "gt_startupAttempt (sv_gate s) = Some attempt" using sv_invD(2) [OF inv, of i] pc by simp
  obtain h where "start_fail (gc_shutdown cfg) attempt (sv_gate s) = Some h" and h: "keeps (sv_gate s) h in_startup"
      "gt_startupAttempt h = None" "gt_inflight h = gt_inflight (sv_gate s)" "gt_shutdownAttempt h = gt_shutdownAttempt (sv_gate s)"
    and "gc_shutdown cfg \<Longrightarrow> quiet h"
    using start_fail_keeps [OF sv_invD(1) [OF inv] attempt, of "gc_shutdown cfg"] by metis
  moreover from this have "h = g" using run by simp
  ultimately show ?thesis
    using startup_ends [OF inv pc attempt, of g] by simp
qed

lemma startup_finishes:
  assumes inv: "sv_inv cfg s" and pc: "sv_pc s i = GStarting attempt" and run: "start_finish attempt (sv_gate s) = Some (err, g)"
  shows "sv_inv cfg (moves i GIdle g s)"
proof -
  have attempt: "gt_startupAttempt (sv_gate s) = attempt"
    using sv_invD(2,5) [OF inv, of i] sv_invD(6) [OF inv] pc by (cases attempt) auto
  obtain err' h where "start_finish attempt (sv_gate s) = Some (err', h)" and h: "keeps (sv_gate s) h in_startup"
      "gt_startupAttempt h = None" "gt_inflight h = gt_inflight (sv_gate s)" "gt_shutdownAttempt h = gt_shutdownAttempt (sv_gate s)"
    using start_finish_keeps [OF sv_invD(1) [OF inv] attempt] by metis
  moreover from this have "h = g" using run by simp
  ultimately show ?thesis
    using startup_ends [OF inv pc attempt, of g GIdle] by simp
qed

lemma stop_waits:
  assumes inv: "sv_inv cfg s" and pc: "sv_pc s i = GStopping" and run: "stop_enter (sv_gate s) = ((startup, d), g)"
  shows "sv_inv cfg (moves i (case startup of None \<Rightarrow> GWaitDrained d | Some a \<Rightarrow> GWaitStartup a d) g s)"
proof -
  let ?p = "case startup of None \<Rightarrow> GWaitDrained d | Some a \<Rightarrow> GWaitStartup a d"
  have "gt_stopping (sv_gate s)" using sv_invD(2) [OF inv, of i] pc by simp
  note stop = stop_enter_keeps [OF sv_invD(1) [OF inv] this run]
  have "\<not> uses ?p" "\<not> in_startup ?p" "?p \<noteq> GShutting" "?p \<noteq> GStarting None" "?p \<noteq> GAdmitting stops" for stops
    by (auto split: option.splits)
  then show ?thesis
    using plain_move [OF inv, of g ?p i "moves i ?p g s"] stop pc once_move [OF sv_invD(8) [OF inv]] by simp
qed


lemma sv_step_inv:
  assumes inv: "sv_inv cfg s" and step: "sv_step cfg s t"
  shows "sv_inv cfg t"
proof -
  note ok = sv_invD(1) [OF inv] and pcs = sv_invD(2) [OF inv] and once = once_move [OF sv_invD(8) [OF inv]]
  note stay = plain_move [OF inv keeps_refl [OF ok]]
  show ?thesis
    using step
  proof (cases rule: sv_step.cases)
    case (sv_use i g)
    moreover have "g = (sv_gate s)\<lparr>gt_inflight := gt_inflight (sv_gate s) + 1\<rparr>"
      using sv_use(3) by (simp add: service_beginUse_def split: if_splits)
    ultimately show ?thesis
      using plain_move [OF inv beginUse_keeps [OF ok sv_use(3)], of GUsing i t] once [of t i GUsing] by simp
  next
    case (sv_run i g)
    moreover have "g = (sv_gate s)\<lparr>gt_runStarted := True, gt_inflight := gt_inflight (sv_gate s) + 1\<rparr>"
      using sv_run(4) by (simp add: beginRun_def split: if_splits)
    ultimately show ?thesis
      using plain_move [OF inv beginRun_keeps [OF ok sv_run(4)], of GRunning i t] once [of t i GRunning] by simp
  next
    case (sv_ran i)
    then show ?thesis
      using plain_move [OF inv closeAdmission_keeps [OF ok], of GRunEnded i t] once [of t i GRunEnded]
      by (simp add: service_closeAdmission_def)
  next
    case (sv_close i stops)
    then show ?thesis
      using plain_move [OF inv closeAdmission_keeps [OF ok], of "GClosing stops" i t] once [of t i "GClosing stops"]
      by (simp add: service_closeAdmission_def)
  next
    case (sv_closed i stops)
    then show ?thesis
      using stay [of "if stops then GStopping else GIdle" i t] pcs [of i] once [of t i "if stops then GStopping else GIdle"]
      by (cases stops) simp_all
  next
    case (sv_admission i stops)
    then have "once_ok t" using sv_invD(8) [OF inv] by (simp add: once_ok_def)
    then show ?thesis using sv_admission stay [of "GAdmitting stops" i t] pcs [of i] by simp
  next
    case (sv_admitted i stops err)
    then have "once_ok t" using sv_invD(8) [OF inv] by (auto simp: once_ok_def)
    then show ?thesis using sv_admitted stay [of "if stops then GStopping else GIdle" i t] pcs [of i] by (cases stops) simp_all
  next
    case (sv_startup_done i a d)
    then show ?thesis
      using stay [of "GWaitDrained d" i t] pcs [of i] ok once [of t i "GWaitDrained d"] by (auto simp: gate_ok_def)
  next
    case (sv_drained i d)
    then show ?thesis
      using stay [of "if gc_shutdown cfg then GShutdown else GIdle" i t] pcs [of i]
        once [of t i "if gc_shutdown cfg then GShutdown else GIdle"]
      by (cases "gc_shutdown cfg") (simp_all add: quiet_def drain_ok_def)
  next
    case (sv_shutdown_join i g)
    then have "g = sv_gate s" "gt_shutdownAttempt g \<noteq> None" by (auto simp: shutdown_enter_def split: if_splits)
    then show ?thesis using sv_shutdown_join stay [of GWaitShutdown i t] once [of t i GWaitShutdown] by simp
  next
    case (sv_joined i err)
    then show ?thesis using stay [of "GReturned err" i t] once [of t i "GReturned err"] by simp
  next
    case (sv_return i err)
    then show ?thesis using stay [of GIdle i t] once [of t i GIdle] by simp
  next
    case (sv_cancel i a d)
    then have "\<not> uses (sv_pc s i)" "\<not> in_startup (sv_pc s i)" "sv_pc s i \<noteq> GShutting" by auto
    then show ?thesis using sv_cancel stay [of GIdle i t] once [of t i GIdle] by simp
  next
    case (sv_used i g)
    then show ?thesis using use_ends [OF inv, of i g] by simp
  next
    case (sv_run_exit i g)
    then show ?thesis using use_ends [OF inv, of i g] by simp
  next
    case (sv_start i attempt g)
    then show ?thesis using startup_begins [OF inv] by simp
  next
    case (sv_start_fails i attempt g)
    then show ?thesis using startup_fails [OF inv] by simp
  next
    case (sv_started i attempt err g)
    then show ?thesis using startup_finishes [OF inv] by simp
  next
    case (sv_stop i startup d g)
    then show ?thesis using stop_waits [OF inv] by simp
  next
    case (sv_shutdown i g)
    then show ?thesis using shutdown_begins [OF inv] by simp
  next
    case (sv_shut i err)
    then show ?thesis using shutdown_ends [OF inv] by simp
  qed
qed


interpretation service: step_system sv_start_state "sv_step cfg" "sv_inv cfg" for cfg
proof
  show "sv_inv cfg s" if "sv_start_state s" for s
    using that by (simp add: sv_start_state_def sv_inv_def core_ok_def startup_ok_def shutdown_ok_def once_ok_def gate_defs
        new_gate_def at_pc_def)
qed (rule sv_step_inv)

section \<open>Shutdown\<close>

lemma uses_inflight:
  assumes "sv_inv cfg s"
  shows "gt_inflight (sv_gate s) = 0 \<longleftrightarrow> (\<forall>i. \<not> uses (sv_pc s i))"
  using assms card_at_zero [of uses "sv_pc s"] by (auto simp: sv_inv_def core_ok_def)

lemma no_startup:
  assumes "sv_inv cfg s"
  shows "gt_startupAttempt (sv_gate s) = None \<longleftrightarrow> (\<forall>i. \<not> in_startup (sv_pc s i))"
proof -
  have "in_startup (sv_pc s i) \<Longrightarrow> gt_startupAttempt (sv_gate s) \<noteq> None" for i
    using sv_invD(2) [OF assms, of i] by (cases "sv_pc s i" rule: in_startup.cases) auto
  moreover have "gt_startupAttempt (sv_gate s) = Some a \<Longrightarrow> \<exists>i. in_startup (sv_pc s i)" for a
    using assms unfolding sv_inv_def startup_ok_def by (metis in_startup.simps(1))
  ultimately show ?thesis by (cases "gt_startupAttempt (sv_gate s)") blast+
qed

lemma in_startup_iff: "in_startup p \<longleftrightarrow> (\<exists>a. p = GStarting (Some a))"
  by (cases p rule: in_startup.cases) auto

text \<open>
  C17: for every interleaving of publishes, readiness checks, deliveries, the supervised run, start,
  closeAdmission and stop calls, the shutdown callback of an adapter is called at most once, and
  from that call on the adapter is stopping, no use, run or startup callback is in progress, and
  none begins. The admission callback is called at most once. Every caller of shutdownResource that
  returns gets the result of that one call, and no goroutine closes a channel twice.
\<close>

theorem service_shutdown_safe:
  assumes "reachable_from sv_start_state (sv_step cfg) s"
  shows "sv_shutdowns s \<le> 1 \<and> sv_admissions s \<le> 1 \<and>
    (sv_shutdowns s = 1 \<longrightarrow> gt_stopping (sv_gate s) \<and> (\<forall>i. \<not> uses (sv_pc s i) \<and> \<not> in_startup (sv_pc s i)) \<and>
       fst (service_beginUse (sv_gate s)) = False) \<and>
    (\<forall>i err. sv_pc s i = GReturned err \<longrightarrow> gt_shutdownAttempt (sv_gate s) = Some (ShutdownDone err)) \<and>
    (\<forall>i. uses (sv_pc s i) \<longrightarrow> service_finishUse (sv_gate s) \<noteq> None) \<and>
    (\<forall>i a stops. sv_pc s i = GStarting (Some a) \<longrightarrow>
       start_fail stops a (sv_gate s) \<noteq> None \<and> start_finish (Some a) (sv_gate s) \<noteq> None)"
proof -
  have inv: "sv_inv cfg s" using assms by (rule service.invar_reachable)
  note ok = sv_invD(1) [OF inv]
  have count: "sv_shutdowns s = of_bool (gt_shutdownAttempt (sv_gate s) \<noteq> None)" "sv_admissions s \<le> 1"
    using inv by (auto simp: sv_inv_def shutdown_ok_def once_ok_def)
  have "quiet (sv_gate s)" if "sv_shutdowns s = 1"
    using that count(1) ok by (cases "gt_shutdownAttempt (sv_gate s)") (auto simp: gate_ok_def)
  moreover have "service_finishUse (sv_gate s) \<noteq> None" if user: "uses (sv_pc s i)" for i
  proof -
    obtain h where "service_finishUse (sv_gate s) = Some h" using finishUse_keeps [OF ok sv_invD(3) [OF inv user]] .
    then show ?thesis by simp
  qed
  moreover have "start_fail stops a (sv_gate s) \<noteq> None \<and> start_finish (Some a) (sv_gate s) \<noteq> None"
    if "sv_pc s i = GStarting (Some a)" for i a stops
  proof -
    have a: "gt_startupAttempt (sv_gate s) = Some a" using sv_invD(2) [OF inv, of i] that by simp
    obtain h where "start_fail stops a (sv_gate s) = Some h" using start_fail_keeps [OF ok a] .
    moreover obtain err k where "start_finish (Some a) (sv_gate s) = Some (err, k)" using start_finish_keeps [OF ok a] .
    ultimately show ?thesis by simp
  qed
  moreover have "gt_shutdownAttempt (sv_gate s) = Some (ShutdownDone err)" if "sv_pc s i = GReturned err" for i err
    using sv_invD(2) [OF inv, of i] that by simp
  ultimately show ?thesis
    using count uses_inflight [OF inv] no_startup [OF inv] by (auto simp: quiet_def service_beginUse_def)
qed

text \<open>A producer that owns its transport, with one publish in flight when it is stopped.\<close>

definition sample_service :: service_sys where
  "sample_service = \<lparr>sv_gate = new_gate, sv_pc = (\<lambda>i. GIdle), sv_once = OnceNew, sv_admissions = 0, sv_shutdowns = 0\<rparr>"

abbreviation owned_transport :: gate_config where
  "owned_transport \<equiv> \<lparr>gc_startup = False, gc_shutdown = True, gc_worker = False\<rparr>"

abbreviation draining_gate :: gate where
  "draining_gate \<equiv> \<lparr>gt_active = False, gt_stopping = True, gt_inflight = 1, gt_drained = Some 0, gt_startupAttempt = None,
     gt_shutdownAttempt = None, gt_runStarted = False, gt_channels = [False]\<rparr>"

lemma sample_draining:
  "reachable_from sv_start_state (sv_step owned_transport)
     (sample_service\<lparr>sv_gate := draining_gate, sv_pc := (\<lambda>i. GIdle)(0 := GUsing, 1 := GWaitDrained 0)\<rparr>)"
proof -
  let ?reach = "reachable_from sv_start_state (sv_step owned_transport)"
  let ?active = "new_gate\<lparr>gt_active := True\<rparr>" and ?used = "new_gate\<lparr>gt_active := True, gt_inflight := 1\<rparr>"
  let ?closing = "moves 1 (GClosing True) (service_closeAdmission ?used) (moves 0 GUsing ?used (sample_service\<lparr>sv_gate := ?active\<rparr>))"
  have "?reach sample_service" by (rule reach_start) (simp add: sv_start_state_def sample_service_def)
  then have "?reach (moves 0 (GStarting None) new_gate sample_service)"
    by (rule reach_step) (rule sv_start, simp_all add: sample_service_def start_enter_def new_gate_def)
  then have "?reach (moves 0 GIdle ?active (moves 0 (GStarting None) new_gate sample_service))"
    by (rule reach_step) (rule sv_started [where attempt = None and err = None], simp_all add: start_finish_def new_gate_def)
  moreover have "(\<lambda>i :: nat. GIdle)(0 := GIdle) = (\<lambda>i. GIdle)" by auto
  ultimately have "?reach (sample_service\<lparr>sv_gate := ?active\<rparr>)" by (simp add: sample_service_def)
  then have "?reach (moves 0 GUsing ?used (sample_service\<lparr>sv_gate := ?active\<rparr>))"
    by (rule reach_step) (rule sv_use, simp_all add: sample_service_def service_beginUse_def new_gate_def)
  then have "?reach ?closing"
    by (rule reach_step) (use sv_close [where i = 1 and stops = True and
      s = "moves 0 GUsing ?used (sample_service\<lparr>sv_gate := ?active\<rparr>)" and cfg = owned_transport] in
      \<open>simp add: sample_service_def\<close>)
  then have "?reach (moves 1 GStopping (sv_gate ?closing) ?closing)"
    by (rule reach_step) (use sv_closed [where i = 1 and stops = True and s = ?closing and cfg = owned_transport] in simp)
  then have "?reach (moves 1 (GWaitDrained 0) draining_gate (moves 1 GStopping (sv_gate ?closing) ?closing))"
    by (rule reach_step) (use sv_stop [where i = 1 and startup = None and d = 0 and g = draining_gate and cfg = owned_transport and
      s = "moves 1 GStopping (sv_gate ?closing) ?closing"] in
      \<open>simp add: stop_enter_def make_channel_def service_closeAdmission_def new_gate_def\<close>)
  then show ?thesis by (simp add: sample_service_def)
qed

lemma sample_shutdown:
  "\<exists>s. reachable_from sv_start_state (sv_step owned_transport) s \<and> sv_shutdowns s = 1 \<and> sv_pc s 1 = GShutting"
proof -
  let ?reach = "reachable_from sv_start_state (sv_step owned_transport)"
  let ?s = "sample_service\<lparr>sv_gate := draining_gate, sv_pc := (\<lambda>i. GIdle)(0 := GUsing, 1 := GWaitDrained 0)\<rparr>"
  let ?drained = "draining_gate\<lparr>gt_inflight := 0, gt_drained := None, gt_channels := [True]\<rparr>"
  let ?t = "moves 0 GIdle ?drained ?s"
  let ?final = "(moves 1 GShutting (?drained\<lparr>gt_shutdownAttempt := Some ShutdownRunning\<rparr>) (moves 1 GShutdown ?drained ?t))
      \<lparr>sv_shutdowns := sv_shutdowns (moves 1 GShutdown ?drained ?t) + 1\<rparr>"
  have "?reach ?t"
    by (rule reach_step [OF sample_draining], rule sv_used)
      (simp_all add: service_finishUse_def close_channel_def)
  then have "?reach (moves 1 GShutdown ?drained ?t)"
    by (rule reach_step) (use sv_drained [where i = 1 and d = 0 and s = ?t and cfg = owned_transport] in simp)
  then have "?reach ?final"
    by (rule reach_step) (rule sv_shutdown, simp_all add: shutdown_enter_def)
  moreover have "sv_shutdowns ?final = 1" "sv_pc ?final 1 = GShutting" by (simp_all add: sample_service_def)
  ultimately show ?thesis by blast
qed

theorem service_shutdown_safe_witness:
  "\<exists>s :: service_sys. sv_shutdowns s = 1 \<and> sv_pc s 1 = GShutting \<and> gt_stopping (sv_gate s) \<and> (\<forall>i. \<not> uses (sv_pc s i))"
  using sample_shutdown service_shutdown_safe by blast

text \<open>
  C18: a stop is never left waiting for nothing: while it waits for a startup attempt some goroutine
  is in that startup callback or its channel is closed, while it waits for the drain some use is in
  progress or its channel is closed, and while it waits for another shutdown some goroutine is in
  the shutdown callback or the result is there.
\<close>

theorem service_stop_not_stuck:
  assumes "reachable_from sv_start_state (sv_step cfg) s"
  shows "(sv_pc s i = GWaitStartup a d \<longrightarrow> gt_channels (sv_gate s) ! a \<or> (\<exists>j. sv_pc s j = GStarting (Some a))) \<and>
    (sv_pc s i = GWaitDrained d \<longrightarrow> gt_channels (sv_gate s) ! d \<or> (\<exists>j. uses (sv_pc s j))) \<and>
    (sv_pc s i = GWaitShutdown \<longrightarrow>
       (\<exists>err. gt_shutdownAttempt (sv_gate s) = Some (ShutdownDone err)) \<or> (\<exists>j. sv_pc s j = GShutting))"
proof -
  have inv: "sv_inv cfg s" using assms by (rule service.invar_reachable)
  note pc = sv_invD(2) [OF inv, of i] and ok = sv_invD(1) [OF inv]
  have "gt_channels (sv_gate s) ! a \<or> (\<exists>j. sv_pc s j = GStarting (Some a))" if "sv_pc s i = GWaitStartup a d"
    using pc that inv unfolding sv_inv_def startup_ok_def by auto
  moreover have "gt_channels (sv_gate s) ! d \<or> (\<exists>j. uses (sv_pc s j))" if "sv_pc s i = GWaitDrained d"
    using pc that ok uses_inflight [OF inv] by (auto simp: drain_ok_def gate_ok_def)
  moreover have "(\<exists>err. gt_shutdownAttempt (sv_gate s) = Some (ShutdownDone err)) \<or> (\<exists>j. sv_pc s j = GShutting)"
    if "sv_pc s i = GWaitShutdown"
  proof (cases "gt_shutdownAttempt (sv_gate s)")
    case (Some attempt)
    then show ?thesis using inv by (cases attempt) (auto simp: sv_inv_def shutdown_ok_def)
  qed (use pc that in simp)
  ultimately show ?thesis by blast
qed

theorem service_stop_not_stuck_witness:
  "\<exists>j. uses (((\<lambda>i :: nat. GIdle)(0 := GUsing, 1 := GWaitDrained 0)) j)"
proof -
  let ?pc = "(\<lambda>i :: nat. GIdle)(0 := GUsing, 1 := GWaitDrained 0)"
  have "?pc 1 = GWaitDrained 0" by simp
  then show ?thesis
    using service_stop_not_stuck [OF sample_draining, of 1 0 0] by (auto simp del: fun_upd_apply)
qed

end
