(* ===== verification/Spec2Isabelle.thy ===== *)
theory Spec2Isabelle
  imports Go_Prelude Go_Errors Go_Text Classification Ring Ring_Concurrency Routine_Group Job Protocol
    Control Status Reader Records Desired Lifecycle Lifecycle_Concurrency Queue_Work Queue_Options Go_Threads Queue_Admission Scheduler Stream_Semantics Queue_Management
    Valkey_Options Stream_Scripts Valkey_Transport Valkey_Roundtrip Valkey_Worker Valkey_Settlement Record_Paging Valkey_Records Control_Cache Valkey_Control
    Service_Publish Service_Lifecycle
begin

text \<open>
  A verification library for the Go module under src/: a job queue with bounded worker concurrency
  and per-delivery retries, and the management plane that observes and steers it.
\<close>

end
